(* ===== verification/Prelude.thy ===== *)
theory Prelude
  imports Complex_Main "HOL-Library.Multiset" "HOL-Library.Sublist" "HOL-Library.Code_Target_Numeral"
begin

text \<open>
  Shared ground of the development: the part of the JavaScript language and standard library
  that the components of the execution console (\<open>frontend/\<close>) call, and the lemmas on it that
  several components use.

  \<^item> A JavaScript string is a \<^typ>\<open>string\<close> holding its UTF-8 bytes. All literals of the program
    that a decision depends on are ASCII; the few displayed literals that are not (dashes,
    ellipses) are written with their UTF-8 bytes. Positions and lengths therefore count bytes;
    no operation modelled here splits a multi-byte character unless the source does.
  \<^item> A byte array (\<open>Uint8Array\<close>) and a binary string (\<open>atob\<close>) are lists of \<^typ>\<open>char\<close>, one
    per byte.
  \<^item> A JavaScript number is an \<open>int\<close>, \<open>nat\<close> or \<open>rat\<close> where the code only reaches finite
    values, and a \<open>jsnum\<close> (with the infinities and NaN) where it divides or parses. Rounding
    of double precision is not modelled.
\<close>

named_theorems js_simps \<open>defining equations of the string and array operations\<close>
named_theorems state_simps \<open>defining equations of state-changing operations\<close>

type_synonym bytes = "char list"


section \<open>Strings\<close>

text \<open>\<open>s.split(c)\<close> for a one-character separator; never empty.\<close>

fun split_on :: "char \<Rightarrow> string \<Rightarrow> string list" where
  "split_on c [] = [[]]"
| "split_on c (x # xs) =
     (if x = c then [] # split_on c xs
      else (case split_on c xs of [] \<Rightarrow> [[x]] | p # ps \<Rightarrow> (x # p) # ps))"

text \<open>\<open>xs.join(sep)\<close>\<close>

fun join :: "string \<Rightarrow> string list \<Rightarrow> string" where
  "join sep [] = []"
| "join sep [x] = x"
| "join sep (x # y # ys) = x @ sep @ join sep (y # ys)"

lemma split_on_not_Nil [simp]: "split_on c s \<noteq> []"
  by (cases s) (auto split: list.split)

lemma join_Cons: "ps \<noteq> [] \<Longrightarrow> join sep (p # ps) = p @ sep @ join sep ps"
  by (cases ps) auto

lemma join_split_on [simp]: "join [c] (split_on c s) = s"
proof (induction s)
  case Nil
  then show ?case by simp
next
  case (Cons x xs)
  obtain p ps where ps: "split_on c xs = p # ps"
    by (cases "split_on c xs") auto
  with Cons show ?case
    by (cases ps) auto
qed

lemma split_on_no_sep: "p \<in> set (split_on c s) \<Longrightarrow> c \<notin> set p"
proof (induction s arbitrary: p)
  case Nil
  then show ?case by simp
next
  case (Cons x xs)
  obtain q qs where qs: "split_on c xs = q # qs"
    by (cases "split_on c xs") auto
  with Cons show ?case by (auto split: if_splits)
qed

lemma split_on_free: "c \<notin> set s \<Longrightarrow> split_on c s = [s]"
  by (induction s) auto

lemma split_on_append: "split_on c (p @ c # s) = split_on c p @ split_on c s"
  by (induction p) (auto split: list.split)

lemma split_on_append_sep:
  "c \<notin> set p \<Longrightarrow> split_on c (p @ c # s) = p # split_on c s"
  by (simp add: split_on_append split_on_free)

lemma split_on_join:
  "\<lbrakk>ps \<noteq> []; \<And>p. p \<in> set ps \<Longrightarrow> c \<notin> set p\<rbrakk> \<Longrightarrow> split_on c (join [c] ps) = ps"
proof (induction ps)
  case Nil
  then show ?case by simp
next
  case (Cons p ps)
  then show ?case
    by (cases "ps = []") (simp_all add: split_on_free join_Cons split_on_append_sep)
qed

text \<open>\<open>split(c).pop()\<close>: the part after the last separator, the whole string if there is none.\<close>

definition after_last :: "char \<Rightarrow> string \<Rightarrow> string" where
  "after_last c s = last (split_on c s)"

lemma after_last_append [simp]:
  "c \<notin> set e \<Longrightarrow> after_last c (p @ c # e) = e"
  by (simp add: after_last_def split_on_append split_on_free)

lemma after_last_free: "c \<notin> set (after_last c s)"
  unfolding after_last_def by (rule split_on_no_sep[OF last_in_set[OF split_on_not_Nil]])

text \<open>
  \<open>toLowerCase\<close>. Only the ASCII letters are mapped: the results are compared with ASCII words
  that contain no letter \<open>k\<close>, the one ASCII letter some other character lower-cases to.
\<close>

definition lower_char :: "char \<Rightarrow> char" where
  "lower_char c = (let n = of_char c :: nat in if 65 \<le> n \<and> n \<le> 90 then char_of (n + 32) else c)"

definition to_lower :: "string \<Rightarrow> string" where
  "to_lower s = map lower_char s"

lemma lower_char_idem [simp]: "lower_char (lower_char c) = lower_char c"
  by (simp add: lower_char_def Let_def)

lemma to_lower_idem [simp]: "to_lower (to_lower s) = to_lower s"
  by (simp add: to_lower_def)

text \<open>\<open>path.split(".").pop()?.toLowerCase() ?? ""\<close>, which four components use.\<close>

definition file_ext :: "string \<Rightarrow> string" where
  "file_ext path = to_lower (after_last (CHR ''.'') path)"

definition starts_with :: "string \<Rightarrow> string \<Rightarrow> bool" where
  "starts_with p s \<longleftrightarrow> take (length p) s = p"

definition ends_with :: "string \<Rightarrow> string \<Rightarrow> bool" where
  "ends_with p s \<longleftrightarrow> starts_with (rev p) (rev s)"

lemma starts_with_iff: "starts_with p s \<longleftrightarrow> (\<exists>r. s = p @ r)"
  by (auto simp: starts_with_def) (metis append_take_drop_id)

text \<open>\<open>s.includes(w)\<close>\<close>

fun str_includes :: "string \<Rightarrow> string \<Rightarrow> bool" where
  "str_includes w [] \<longleftrightarrow> w = []"
| "str_includes w (c # cs) \<longleftrightarrow> starts_with w (c # cs) \<or> str_includes w cs"

lemma includes_iff: "str_includes w s \<longleftrightarrow> (\<exists>a b. s = a @ w @ b)"
proof (induction s)
  case Nil
  then show ?case by simp
next
  case (Cons c cs)
  have "(\<exists>a b. c # cs = a @ w @ b) \<longleftrightarrow> (\<exists>b. c # cs = w @ b) \<or> (\<exists>a b. cs = a @ w @ b)"
    by (metis append_Cons append_Nil list.exhaust list.inject)
  with Cons show ?case by (simp add: starts_with_iff)
qed

text \<open>\<open>s.slice(a, -b)\<close> for non-negative \<open>a\<close>, \<open>b\<close>.\<close>

definition slice_ends :: "nat \<Rightarrow> nat \<Rightarrow> string \<Rightarrow> string" where
  "slice_ends a b s = drop a (take (length s - b) s)"

text \<open>
  \<open>trim()\<close>: the white space and line terminators of ECMAScript, as UTF-8 sequences.
\<close>

definition js_ws :: "string list" where
  "js_ws = [[CHR 0x20], [CHR 0x0A], [CHR 0x0D], [CHR 0x09], [CHR 0x0B], [CHR 0x0C],
    [CHR 0xC2, CHR 0xA0], [CHR 0xE1, CHR 0x9A, CHR 0x80],
    [CHR 0xE2, CHR 0x80, CHR 0x80], [CHR 0xE2, CHR 0x80, CHR 0x81],
    [CHR 0xE2, CHR 0x80, CHR 0x82], [CHR 0xE2, CHR 0x80, CHR 0x83],
    [CHR 0xE2, CHR 0x80, CHR 0x84], [CHR 0xE2, CHR 0x80, CHR 0x85],
    [CHR 0xE2, CHR 0x80, CHR 0x86], [CHR 0xE2, CHR 0x80, CHR 0x87],
    [CHR 0xE2, CHR 0x80, CHR 0x88], [CHR 0xE2, CHR 0x80, CHR 0x89],
    [CHR 0xE2, CHR 0x80, CHR 0x8A], [CHR 0xE2, CHR 0x80, CHR 0xA8],
    [CHR 0xE2, CHR 0x80, CHR 0xA9], [CHR 0xE2, CHR 0x80, CHR 0xAF],
    [CHR 0xE2, CHR 0x81, CHR 0x9F], [CHR 0xE3, CHR 0x80, CHR 0x80],
    [CHR 0xEF, CHR 0xBB, CHR 0xBF]]"

function strip_left :: "string list \<Rightarrow> string \<Rightarrow> string" where
  "strip_left ws s =
     (case List.find (\<lambda>w. w \<noteq> [] \<and> starts_with w s) ws of
        None \<Rightarrow> s
      | Some w \<Rightarrow> strip_left ws (drop (length w) s))"
  by pat_completeness auto
termination
proof (relation "measure (\<lambda>(ws, s). length s)", simp)
  fix ws :: "string list" and s w
  assume "List.find (\<lambda>w. w \<noteq> [] \<and> starts_with w s) ws = Some w"
  then have "w \<noteq> [] \<and> starts_with w s" by (auto simp: find_Some_iff)
  then have "s \<noteq> []" "length w > 0" by (auto simp: starts_with_def)
  then show "((ws, drop (length w) s), ws, s) \<in> measure (\<lambda>(ws, s). length s)" by auto
qed

declare strip_left.simps [simp del]

definition trim :: "string \<Rightarrow> string" where
  "trim s = rev (strip_left (map rev js_ws) (rev (strip_left js_ws s)))"

lemma strip_left_suffix: "\<exists>a. s = a @ strip_left ws s"
proof (induction ws s rule: strip_left.induct)
  case (1 ws s)
  show ?case
  proof (cases "List.find (\<lambda>w. w \<noteq> [] \<and> starts_with w s) ws")
    case None
    then show ?thesis by (simp add: strip_left.simps)
  next
    case (Some w)
    then obtain a where "drop (length w) s = a @ strip_left ws (drop (length w) s)"
      using 1 by blast
    then have "s = (take (length w) s @ a) @ strip_left ws (drop (length w) s)"
      by (metis append.assoc append_take_drop_id)
    moreover from Some have "strip_left ws s = strip_left ws (drop (length w) s)"
      by (simp add: strip_left.simps[of ws s])
    ultimately show ?thesis by metis
  qed
qed

lemma strip_left_stop: "w \<in> set ws \<Longrightarrow> w \<noteq> [] \<Longrightarrow> \<not> starts_with w (strip_left ws s)"
proof (induction ws s rule: strip_left.induct)
  case (1 ws s)
  then show ?case
    by (subst strip_left.simps)
       (auto split: option.split simp: find_None_iff)
qed

text \<open>\<open>encodeURIComponent\<close>: every byte but the unreserved ones becomes \<open>%XX\<close>.\<close>

definition hex_digit :: "nat \<Rightarrow> char" where
  "hex_digit n = (if n < 10 then char_of (48 + n) else char_of (55 + n))"

definition uri_unreserved :: "char \<Rightarrow> bool" where
  "uri_unreserved c \<longleftrightarrow> (let n = of_char c :: nat in
     (48 \<le> n \<and> n \<le> 57) \<or> (65 \<le> n \<and> n \<le> 90) \<or> (97 \<le> n \<and> n \<le> 122)) \<or>
     c \<in> set [CHR ''-'', CHR ''_'', CHR ''.'', CHR ''!'', CHR ''~'', CHR ''*'', CHR 0x27,
       CHR ''('', CHR '')'']"

definition uri_byte :: "char \<Rightarrow> string" where
  "uri_byte c = (if uri_unreserved c then [c]
     else [CHR ''%'', hex_digit (of_char c div 16), hex_digit (of_char c mod 16)])"

definition encodeURIComponent :: "string \<Rightarrow> string" where
  "encodeURIComponent s = concat (map uri_byte s)"

text \<open>The inverse, as a server decodes a path segment or a query value.\<close>

definition unhex :: "char \<Rightarrow> nat option" where
  "unhex c = (let n = of_char c :: nat in
     if 48 \<le> n \<and> n \<le> 57 then Some (n - 48)
     else if 65 \<le> n \<and> n \<le> 70 then Some (n - 55)
     else if 97 \<le> n \<and> n \<le> 102 then Some (n - 87) else None)"

fun percent_decode :: "string \<Rightarrow> string option" where
  "percent_decode [] = Some []"
| "percent_decode (c # cs) =
     (if c = CHR ''%'' then
        (case cs of
           h # l # r \<Rightarrow>
             (case (unhex h, unhex l) of
                (Some a, Some b) \<Rightarrow> map_option (Cons (char_of (16 * a + b))) (percent_decode r)
              | _ \<Rightarrow> None)
         | _ \<Rightarrow> None)
      else map_option (Cons c) (percent_decode cs))"

lemma unhex_hex_digit: "n < 16 \<Longrightarrow> unhex (hex_digit n) = Some n"
  by (auto simp: unhex_def hex_digit_def Let_def)

lemma of_char_nibbles [simp]:
  "of_char c div 16 < (16 :: nat)" "of_char c mod 16 < (16 :: nat)"
  using nat_of_char_less_256[of c] by (simp_all add: less_mult_imp_div_less)

lemma percent_decode_uri_byte:
  "percent_decode (uri_byte c @ r) = map_option (Cons c) (percent_decode r)"
proof (cases "uri_unreserved c")
  case True
  then have "c \<noteq> CHR ''%''" by (auto simp: uri_unreserved_def)
  with True show ?thesis by (simp add: uri_byte_def)
next
  case False
  with False show ?thesis
    by (simp add: uri_byte_def unhex_hex_digit)
qed

lemma percent_decode_encode [simp]: "percent_decode (encodeURIComponent s) = Some s"
  by (induction s) (auto simp: encodeURIComponent_def percent_decode_uri_byte)

lemma hex_digit_alnum: "n < 16 \<Longrightarrow> hex_digit n \<in> set ''0123456789ABCDEF''" for n :: nat
proof -
  assume "n < 16"
  then have "n \<in> set [0..<16]" by simp
  then have "hex_digit n \<in> hex_digit ` set [0..<16]" by blast
  also have "\<dots> = set (map hex_digit [0..<16])" by simp
  also have "map hex_digit [0..<16] = ''0123456789ABCDEF''" by code_simp
  finally show ?thesis .
qed

lemma encodeURIComponent_chars:
  assumes "c \<in> set (encodeURIComponent s)"
  shows "uri_unreserved c \<or> c = CHR ''%''"
proof -
  from assms obtain b where b: "c \<in> set (uri_byte b)"
    by (auto simp: encodeURIComponent_def)
  have "list_all uri_unreserved ''0123456789ABCDEF''" by code_simp
  then have hex: "uri_unreserved d" if "d \<in> set ''0123456789ABCDEF''" for d
    using that by (simp only: list_all_iff)
  have "uri_unreserved (hex_digit (of_char b div 16))"
    and "uri_unreserved (hex_digit (of_char b mod 16))"
    by (auto intro!: hex hex_digit_alnum)
  with b show ?thesis by (auto simp: uri_byte_def split: if_splits)
qed

lemma encodeURIComponent_unreserved:
  "(\<And>c. c \<in> set s \<Longrightarrow> uri_unreserved c) \<Longrightarrow> encodeURIComponent s = s"
  by (induction s) (auto simp: encodeURIComponent_def uri_byte_def)


section \<open>Numbers as text\<close>

text \<open>\<open>n.toString(base)\<close> for a non-negative integer and a base up to 36.\<close>

definition digit_char :: "nat \<Rightarrow> char" where
  "digit_char d = (if d < 10 then char_of (48 + d) else char_of (87 + d))"

fun to_base :: "nat \<Rightarrow> nat \<Rightarrow> string" where
  "to_base b n = (if b < 2 \<or> n < b then [digit_char n] else to_base b (n div b) @ [digit_char (n mod b)])"

declare to_base.simps [simp del]

abbreviation nat_str :: "nat \<Rightarrow> string" where
  "nat_str \<equiv> to_base 10"

definition int_str :: "int \<Rightarrow> string" where
  "int_str i = (if i < 0 then CHR ''-'' # nat_str (nat (- i)) else nat_str (nat i))"

text \<open>Reading digits back, the specification of \<open>to_base\<close>.\<close>

definition digit_val :: "char \<Rightarrow> nat" where
  "digit_val c = (let n = of_char c in if n < 97 then n - 48 else n - 87)"

definition base_val :: "nat \<Rightarrow> string \<Rightarrow> nat" where
  "base_val b s = foldl (\<lambda>a c. a * b + digit_val c) 0 s"

lemma digit_val_digit_char: "d < 36 \<Longrightarrow> digit_val (digit_char d) = d"
  by (auto simp: digit_val_def digit_char_def Let_def)

lemma base_val_to_base:
  assumes "2 \<le> b" "b \<le> 36"
  shows "base_val b (to_base b n) = n"
  using assms
proof (induction b n rule: to_base.induct)
  case (1 b n)
  show ?case
  proof (cases "n < b")
    case True
    with 1 show ?thesis
      by (simp add: to_base.simps[of b n] base_val_def digit_val_digit_char)
  next
    case False
    with 1 have "base_val b (to_base b (n div b)) = n div b" by auto
    moreover from 1 have "n mod b < 36"
      by (meson le_trans less_le_trans mod_less_divisor not_less zero_less_numeral)
    ultimately show ?thesis using False 1
      by (simp add: to_base.simps[of b n] base_val_def digit_val_digit_char)
  qed
qed

lemma to_base_inj: "\<lbrakk>2 \<le> b; b \<le> 36; to_base b m = to_base b n\<rbrakk> \<Longrightarrow> m = n"
  by (metis base_val_to_base)

lemma to_base_unreserved:
  assumes "2 \<le> b" "b \<le> 36" "c \<in> set (to_base b n)"
  shows "uri_unreserved c"
proof -
  have unres: "uri_unreserved (digit_char d)" if "d < 36" for d
    using that by (simp add: uri_unreserved_def digit_char_def Let_def)
  from assms show ?thesis
  proof (induction b n rule: to_base.induct)
    case (1 b n)
    show ?case
    proof (cases "n < b")
      case True
      with 1 have "c = digit_char n" "n < 36" by (simp_all add: to_base.simps[of b n])
      with unres show ?thesis by simp
    next
      case False
      have "n mod b < b" using 1 by simp
      with 1 have "uri_unreserved (digit_char (n mod b))" by (intro unres) linarith
      with False 1 show ?thesis by (auto simp: to_base.simps[of b n])
    qed
  qed
qed

text \<open>
  \<open>x.toFixed(1)\<close> of the non-negative quotient \<open>a / b\<close>: the nearest tenth, the larger one on a tie.
\<close>

definition tenths :: "nat \<Rightarrow> nat \<Rightarrow> nat" where
  "tenths a b = (20 * a + b) div (2 * b)"

definition toFixed1 :: "nat \<Rightarrow> nat \<Rightarrow> string" where
  "toFixed1 a b = nat_str (tenths a b div 10) @ ''.'' @ nat_str (tenths a b mod 10)"

lemma tenths_bounds:
  assumes "0 < b"
  shows "20 * a < 2 * b * tenths a b + b + 1" "2 * b * tenths a b \<le> 20 * a + b"
proof -
  have "20 * a + b = 2 * b * tenths a b + (20 * a + b) mod (2 * b)"
    by (simp add: tenths_def)
  moreover have "(20 * a + b) mod (2 * b) < 2 * b" using assms by simp
  ultimately show "20 * a < 2 * b * tenths a b + b + 1" "2 * b * tenths a b \<le> 20 * a + b"
    by linarith+
qed

text \<open>\<open>Math.round\<close> of the non-negative quotient \<open>a / b\<close>: halves round up.\<close>

definition round_div :: "nat \<Rightarrow> nat \<Rightarrow> nat" where
  "round_div a b = (2 * a + b) div (2 * b)"

text \<open>
  \<open>a / b\<close> in double precision for naturals below \<open>2^53\<close>: the pair \<open>(m, k)\<close> with \<open>m / 2^k\<close> the nearest
  number of 53 significant bits, ties to even.
\<close>

fun bit_length :: "nat \<Rightarrow> nat" where
  "bit_length n = (if n = 0 then 0 else Suc (bit_length (n div 2)))"

declare bit_length.simps [simp del]

definition round_even :: "nat \<Rightarrow> nat \<Rightarrow> nat" where
  "round_even a b = (let q = a div b; r = a mod b in
     if 2 * r < b then q else if 2 * r > b then q + 1 else if even q then q else q + 1)"

definition js_quot :: "nat \<Rightarrow> nat \<Rightarrow> nat \<times> nat" where
  "js_quot a b =
     (let k = 53 + bit_length b - bit_length a;
          k' = (if a * 2 ^ k div b \<ge> 2 ^ 53 then k - 1 else k)
      in (round_even (a * 2 ^ k') b, k'))"

text \<open>\<open>(a / b).toFixed(1)\<close>\<close>

definition quot_toFixed1 :: "nat \<Rightarrow> nat \<Rightarrow> string" where
  "quot_toFixed1 a b = (case js_quot a b of (m, k) \<Rightarrow> toFixed1 m (2 ^ k))"

text \<open>Numbers that may be infinite or NaN; the sign of zero is not distinguished.\<close>

datatype jsnum = Fin rat | PosInf | NegInf | NaN

fun js_div :: "rat \<Rightarrow> rat \<Rightarrow> jsnum" where
  "js_div a b = (if b \<noteq> 0 then Fin (a / b)
     else if a > 0 then PosInf else if a < 0 then NegInf else NaN)"

fun js_scale :: "rat \<Rightarrow> jsnum \<Rightarrow> jsnum" where
  "js_scale k (Fin x) = Fin (k * x)"
| "js_scale k PosInf = (if k > 0 then PosInf else if k < 0 then NegInf else NaN)"
| "js_scale k NegInf = (if k > 0 then NegInf else if k < 0 then PosInf else NaN)"
| "js_scale k NaN = NaN"

text \<open>\<open>x >= k\<close> for a finite \<open>k\<close>; false on NaN.\<close>

fun js_ge :: "jsnum \<Rightarrow> rat \<Rightarrow> bool" where
  "js_ge (Fin x) k \<longleftrightarrow> x \<ge> k"
| "js_ge PosInf k \<longleftrightarrow> True"
| "js_ge NegInf k \<longleftrightarrow> False"
| "js_ge NaN k \<longleftrightarrow> False"


section \<open>Arrays\<close>

text \<open>
  \<open>xs.sort(cmp)\<close>, which is stable. For a comparator that is not a total preorder the language
  leaves the order open; the clients that need an order state the preorder laws.
\<close>

fun js_insert :: "('a \<Rightarrow> 'a \<Rightarrow> int) \<Rightarrow> 'a \<Rightarrow> 'a list \<Rightarrow> 'a list" where
  "js_insert cmp x [] = [x]"
| "js_insert cmp x (y # ys) = (if cmp x y \<le> 0 then x # y # ys else y # js_insert cmp x ys)"

definition js_sort :: "('a \<Rightarrow> 'a \<Rightarrow> int) \<Rightarrow> 'a list \<Rightarrow> 'a list" where
  "js_sort cmp xs = foldr (js_insert cmp) xs []"

lemma mset_js_insert [simp]: "mset (js_insert cmp x xs) = add_mset x (mset xs)"
  by (induction xs) auto

lemma mset_js_sort [simp]: "mset (js_sort cmp xs) = mset xs"
  by (induction xs) (auto simp: js_sort_def)

lemma set_js_sort [simp]: "set (js_sort cmp xs) = set xs"
  using mset_js_sort[of cmp xs] by (metis set_mset_mset)

lemma length_js_sort [simp]: "length (js_sort cmp xs) = length xs"
  using mset_js_sort[of cmp xs] by (metis size_mset)

text \<open>The contract of a comparison function, as ECMAScript asks of \<open>localeCompare\<close>.\<close>

definition consistent_cmp :: "('a \<Rightarrow> 'a \<Rightarrow> int) \<Rightarrow> bool" where
  "consistent_cmp cmp \<longleftrightarrow> (\<forall>a b. cmp a b \<le> 0 \<or> cmp b a \<le> 0) \<and>
     (\<forall>a b c. cmp a b \<le> 0 \<longrightarrow> cmp b c \<le> 0 \<longrightarrow> cmp a c \<le> 0)"

lemma sorted_js_insert:
  assumes "consistent_cmp cmp" "sorted_wrt (\<lambda>a b. cmp a b \<le> 0) xs"
  shows "sorted_wrt (\<lambda>a b. cmp a b \<le> 0) (js_insert cmp x xs)"
  using assms(2)
proof (induction xs)
  case Nil
  then show ?case by simp
next
  case (Cons y ys)
  have total: "cmp a b \<le> 0 \<or> cmp b a \<le> 0" for a b
    using assms(1) by (simp add: consistent_cmp_def)
  have trans: "cmp a b \<le> 0 \<Longrightarrow> cmp b c \<le> 0 \<Longrightarrow> cmp a c \<le> 0" for a b c
    using assms(1) unfolding consistent_cmp_def by blast
  have "set (js_insert cmp x ys) = insert x (set ys)"
    by (metis mset_js_insert set_mset_add_mset_insert set_mset_mset)
  with Cons total[of x y] show ?case by (auto intro: trans)
qed

lemma sorted_js_sort:
  "consistent_cmp cmp \<Longrightarrow> sorted_wrt (\<lambda>a b. cmp a b \<le> 0) (js_sort cmp xs)"
  by (induction xs) (auto simp: js_sort_def intro: sorted_js_insert)


section \<open>HTTP exchanges\<close>

text \<open>
  What awaiting \<open>fetch\<close> and then \<open>res.json()\<close> can do. The server is outside the program, so an
  exchange is an input: either \<open>fetch\<close> throws, or a response arrives with a status and a body,
  which for \<open>'b\<close>-valued JSON is \<open>None\<close> when reading or converting the body throws.
\<close>

datatype js_error = TypeError | TimeoutError | AbortError | SyntaxError | PlainError string

datatype 'b http = FetchThrows js_error | Response nat "'b option"

definition res_ok :: "nat \<Rightarrow> bool" where
  "res_ok status \<longleftrightarrow> 200 \<le> status \<and> status \<le> 299"

text \<open>An em dash and an ellipsis in UTF-8, for displayed text.\<close>

definition em_dash :: string where
  "em_dash = [CHR 0xE2, CHR 0x80, CHR 0x94]"

definition ellipsis :: string where
  "ellipsis = [CHR 0xE2, CHR 0x80, CHR 0xA6]"

end
