(* ===== verification/Encoding.thy ===== *)
theory Encoding
  imports Prelude
begin

text \<open>
  The binary-to-text functions of the browser that \<open>ExecutionConsole.tsx\<close> calls: \<open>btoa\<close> and \<open>atob\<close>
  (the forgiving base64 of the WHATWG Infra standard) and \<open>TextDecoder().decode\<close> (the WHATWG
  UTF-8 decoder). The lemmas are the round trips a file preview depends on: base64 of any bytes
  decodes to those bytes, and bytes that are the UTF-8 of a text decode to that text.
\<close>

section \<open>Base64\<close>

definition b64_char :: "nat \<Rightarrow> char" where
  "b64_char n = (if n < 26 then char_of (65 + n) else if n < 52 then char_of (71 + n)
     else if n < 62 then char_of (n - 4) else if n = 62 then CHR ''+'' else CHR ''/'')"

definition b64_val :: "char \<Rightarrow> nat option" where
  "b64_val c = (let n = of_char c :: nat in
     if 65 \<le> n \<and> n \<le> 90 then Some (n - 65) else if 97 \<le> n \<and> n \<le> 122 then Some (n - 71)
     else if 48 \<le> n \<and> n \<le> 57 then Some (n + 4)
     else if n = 43 then Some 62 else if n = 47 then Some 63 else None)"

fun btoa :: "bytes \<Rightarrow> string" where
  "btoa [] = []"
| "btoa [a] = (let x = of_char a in
     [b64_char (x div 4), b64_char (x mod 4 * 16), CHR ''='', CHR ''=''])"
| "btoa [a, b] = (let x = of_char a; y = of_char b in
     [b64_char (x div 4), b64_char (x mod 4 * 16 + y div 16), b64_char (y mod 16 * 4), CHR ''=''])"
| "btoa (a # b # c # r) = (let x = of_char a; y = of_char b; z = of_char c in
     [b64_char (x div 4), b64_char (x mod 4 * 16 + y div 16),
      b64_char (y mod 16 * 4 + z div 64), b64_char (z mod 64)] @ btoa r)"

text \<open>Decoding of the sextets left after white space and padding are gone.\<close>

fun b64_groups :: "nat list \<Rightarrow> bytes option" where
  "b64_groups [] = Some []"
| "b64_groups [w] = None"
| "b64_groups [w, x] = Some [char_of (w * 4 + x div 16)]"
| "b64_groups [w, x, y] = Some [char_of (w * 4 + x div 16), char_of (x mod 16 * 16 + y div 4)]"
| "b64_groups (w # x # y # z # r) = map_option
     (\<lambda>bs. [char_of (w * 4 + x div 16), char_of (x mod 16 * 16 + y div 4),
            char_of (y mod 4 * 64 + z)] @ bs) (b64_groups r)"

definition ascii_ws :: "char \<Rightarrow> bool" where
  "ascii_ws c \<longleftrightarrow> c \<in> set [CHR 0x09, CHR 0x0A, CHR 0x0C, CHR 0x0D, CHR 0x20]"

definition strip_pad :: "string \<Rightarrow> string" where
  "strip_pad s = (if length s mod 4 = 0 then
       (case rev s of
          c # d # r \<Rightarrow> if c = CHR ''='' then (if d = CHR ''='' then rev r else rev (d # r)) else s
        | _ \<Rightarrow> s)
     else s)"

fun b64_sextets :: "string \<Rightarrow> nat list option" where
  "b64_sextets [] = Some []"
| "b64_sextets (c # cs) = (case b64_val c of None \<Rightarrow> None
     | Some v \<Rightarrow> map_option (Cons v) (b64_sextets cs))"

text \<open>\<open>atob\<close>; \<open>None\<close> is the \<open>InvalidCharacterError\<close> it throws.\<close>

definition atob :: "string \<Rightarrow> bytes option" where
  "atob s = Option.bind (b64_sextets (strip_pad (filter (\<lambda>c. \<not> ascii_ws c) s))) b64_groups"

lemma b64_val_char [simp]: "n < 64 \<Longrightarrow> b64_val (b64_char n) = Some n"
  by (auto simp: b64_val_def b64_char_def Let_def)

lemma b64_char_neq: "n < 64 \<Longrightarrow> b64_char n \<noteq> CHR ''='' \<and> \<not> ascii_ws (b64_char n)"
proof -
  assume "n < 64"
  then have v: "b64_val (b64_char n) = Some n" by simp
  have "b64_val (CHR ''='') = None" "\<And>c. ascii_ws c \<Longrightarrow> b64_val c = None"
    by (auto simp: b64_val_def ascii_ws_def)
  with v show ?thesis by fastforce
qed

lemma of_char_parts [simp]:
  "of_char c div 4 < (64 :: nat)" "of_char c mod 4 * 16 < (64 :: nat)"
  "of_char c mod 16 * 4 < (64 :: nat)" "of_char c mod 64 < (64 :: nat)"
  "of_char c mod 4 * 16 + of_char d div 16 < (64 :: nat)"
  "of_char c mod 16 * 4 + of_char d div 64 < (64 :: nat)"
  using nat_of_char_less_256[of c] nat_of_char_less_256[of d]
  by (auto simp del: nat_of_char_less_256)

text \<open>The sextets \<open>btoa\<close> writes, without the padding.\<close>

fun sextets_of :: "bytes \<Rightarrow> nat list" where
  "sextets_of [] = []"
| "sextets_of [a] = [of_char a div 4, of_char a mod 4 * 16]"
| "sextets_of [a, b] = [of_char a div 4, of_char a mod 4 * 16 + of_char b div 16, of_char b mod 16 * 4]"
| "sextets_of (a # b # c # r) =
     [of_char a div 4, of_char a mod 4 * 16 + of_char b div 16,
      of_char b mod 16 * 4 + of_char c div 64, of_char c mod 64] @ sextets_of r"

lemma sextets_of_less: "n \<in> set (sextets_of bs) \<Longrightarrow> n < 64"
  by (induction bs rule: sextets_of.induct) auto

lemma div_mod_split:
  fixes k m r :: nat
  assumes "r < m"
  shows "(k * m + r) div m = k" "(k * m + r) mod m = r"
  using assms by simp_all

lemma sextet_bytes:
  "char_of (of_char a div 4 * 4 + (of_char a mod 4 * 16 + of_char b div 16) div (16 :: nat)) = a"
  "char_of ((of_char a mod 4 * 16 + of_char b div 16) mod 16 * 16 +
     (of_char b mod 16 * 4 + of_char c div 64) div (4 :: nat)) = b"
  "char_of ((of_char b mod 16 * 4 + of_char c div 64) mod 4 * 64 + of_char c mod (64 :: nat)) = c"
  "char_of ((of_char a mod 4 * 16 + of_char b div 16) mod 16 * 16 +
     (of_char b mod 16 * 4) div (4 :: nat)) = b"
  "char_of (of_char a div 4 * 4 + (of_char a mod 4 * 16) div (16 :: nat)) = a"
proof -
  have b: "of_char b div 16 < (16 :: nat)" by simp
  have c: "of_char c div 64 < (4 :: nat)"
    using nat_of_char_less_256[of c] by (simp add: less_mult_imp_div_less)
  show "char_of (of_char a div 4 * 4 + (of_char a mod 4 * 16 + of_char b div 16) div (16 :: nat)) = a"
    by (simp only: div_mod_split[OF b] div_mult_mod_eq char_of_char)
  show "char_of ((of_char a mod 4 * 16 + of_char b div 16) mod 16 * 16 +
     (of_char b mod 16 * 4 + of_char c div 64) div (4 :: nat)) = b"
    by (simp only: div_mod_split[OF b] div_mod_split[OF c] div_mult_mod_eq char_of_char)
  show "char_of ((of_char b mod 16 * 4 + of_char c div 64) mod 4 * 64 + of_char c mod (64 :: nat)) = c"
    by (simp only: div_mod_split[OF c] div_mult_mod_eq char_of_char)
  show "char_of ((of_char a mod 4 * 16 + of_char b div 16) mod 16 * 16 +
     (of_char b mod 16 * 4) div (4 :: nat)) = b"
    by (simp only: div_mod_split[OF b] nonzero_mult_div_cancel_right div_mult_mod_eq
        char_of_char)
  show "char_of (of_char a div 4 * 4 + (of_char a mod 4 * 16) div (16 :: nat)) = a"
    by simp
qed

lemma b64_groups_sextets_of [simp]: "b64_groups (sextets_of bs) = Some bs"
proof (induction bs rule: sextets_of.induct)
  case (2 a)
  then show ?case by (simp only: sextets_of.simps b64_groups.simps sextet_bytes)
next
  case (3 a b)
  then show ?case by (simp only: sextets_of.simps b64_groups.simps sextet_bytes)
next
  case (4 a b c r)
  then show ?case
    by (simp only: sextets_of.simps b64_groups.simps sextet_bytes append.simps option.map)
qed simp

definition pad_len :: "nat \<Rightarrow> nat" where
  "pad_len n = (3 - n mod 3) mod 3"

lemma btoa_eq: "btoa bs = map b64_char (sextets_of bs) @ replicate (pad_len (length bs)) (CHR ''='')"
proof (induction bs rule: btoa.induct)
  case (4 a b c r)
  have "pad_len (length (a # b # c # r)) = pad_len (length r)"
    by (simp add: pad_len_def mod_Suc)
  with 4 show ?case by (simp add: Let_def)
qed (simp_all add: pad_len_def Let_def numeral_2_eq_2)

lemma length_btoa: "length (btoa bs) = 4 * ((length bs + 2) div 3)"
proof (induction bs rule: btoa.induct)
  case (4 a b c r)
  have "(length (a # b # c # r) + 2) div 3 = Suc ((length r + 2) div 3)" by simp
  with 4 show ?case by (simp only: btoa.simps Let_def) simp
qed (simp_all add: Let_def)

lemma b64_sextets_map: "(\<And>n. n \<in> set ns \<Longrightarrow> n < 64) \<Longrightarrow> b64_sextets (map b64_char ns) = Some ns"
  by (induction ns) auto

lemma filter_btoa: "filter (\<lambda>c. \<not> ascii_ws c) (btoa bs) = btoa bs"
proof -
  have "\<not> ascii_ws c" if "c \<in> set (btoa bs)" for c
    using that b64_char_neq sextets_of_less
    by (auto simp: btoa_eq ascii_ws_def[of "CHR ''=''"])
  then show ?thesis by (simp add: filter_id_conv)
qed

lemma pad_len_cases: "pad_len n = 0 \<or> pad_len n = 1 \<or> pad_len n = 2"
  unfolding pad_len_def by (metis One_nat_def diff_le_self le_less_trans less_2_cases
      less_Suc_eq mod_less_divisor numeral_2_eq_2 numeral_3_eq_3 zero_less_Suc)

lemma strip_pad_btoa: "strip_pad (btoa bs) = map b64_char (sextets_of bs)"
proof -
  have len: "length (btoa bs) mod 4 = 0" by (simp add: length_btoa)
  let ?m = "map b64_char (sextets_of bs)"
  have no_eq: "CHR ''='' \<notin> set ?m"
    using b64_char_neq sextets_of_less by fastforce
  show ?thesis
  proof (cases "sextets_of bs = []")
    case True
    then have "bs = []" by (cases bs rule: sextets_of.cases) auto
    then show ?thesis by (simp add: strip_pad_def)
  next
    case False
    then have "length (sextets_of bs) \<ge> 2" by (cases bs rule: sextets_of.cases) auto
    then obtain x y r where r: "rev ?m = x # y # r"
      by (cases "rev ?m"; cases "tl (rev ?m)") (auto simp: Suc_le_eq numeral_2_eq_2)
    then have xy: "x \<noteq> CHR ''=''" "y \<noteq> CHR ''=''"
      using no_eq by (metis list.set_intros set_rev)+
    have m: "?m = rev (x # y # r)" using r by (metis rev_rev_ident)
    from pad_len_cases[of "length bs"] show ?thesis
      using len r xy m
      by (elim disjE) (simp_all add: strip_pad_def btoa_eq numeral_2_eq_2)
  qed
qed

text \<open>The round trip: what base64 encodes, \<open>atob\<close> gives back.\<close>

lemma atob_btoa [simp]: "atob (btoa bs) = Some bs"
  by (simp add: atob_def filter_btoa strip_pad_btoa b64_sextets_map sextets_of_less)


section \<open>UTF-8\<close>

text \<open>
  One step of the WHATWG decoder at the head of the input: the number of bytes a well-formed
  sequence takes there, or \<open>None\<close> if there is none. \<open>bad_len\<close> is how many bytes one replacement
  character stands for: the longest prefix of a well-formed sequence, at least one byte.
\<close>

definition in_rng :: "nat \<Rightarrow> nat \<Rightarrow> char \<Rightarrow> bool" where
  "in_rng lo hi c \<longleftrightarrow> lo \<le> of_char c \<and> of_char c \<le> hi"

text \<open>The ranges of the bytes that may follow a lead byte.\<close>

definition utf8_tail :: "char \<Rightarrow> (nat \<times> nat) list option" where
  "utf8_tail c = (let n = of_char c :: nat in
     if n < 0x80 then Some []
     else if n < 0xC2 then None
     else if n < 0xE0 then Some [(0x80, 0xBF)]
     else if n = 0xE0 then Some [(0xA0, 0xBF), (0x80, 0xBF)]
     else if n = 0xED then Some [(0x80, 0x9F), (0x80, 0xBF)]
     else if n < 0xF0 then Some [(0x80, 0xBF), (0x80, 0xBF)]
     else if n = 0xF0 then Some [(0x90, 0xBF), (0x80, 0xBF), (0x80, 0xBF)]
     else if n < 0xF4 then Some [(0x80, 0xBF), (0x80, 0xBF), (0x80, 0xBF)]
     else if n = 0xF4 then Some [(0x80, 0x8F), (0x80, 0xBF), (0x80, 0xBF)]
     else None)"

text \<open>How many of the bytes fit the ranges, in order.\<close>

fun match_rngs :: "(nat \<times> nat) list \<Rightarrow> bytes \<Rightarrow> nat" where
  "match_rngs ((lo, hi) # rs) (b # bs) = (if in_rng lo hi b then Suc (match_rngs rs bs) else 0)"
| "match_rngs _ _ = 0"

definition replacement :: string where
  "replacement = [CHR 0xEF, CHR 0xBF, CHR 0xBD]"

text \<open>
  The scalar values of the input as their UTF-8 text: a well-formed sequence is kept, anything
  else becomes U+FFFD.
\<close>

function utf8_decode :: "bytes \<Rightarrow> string" where
  "utf8_decode [] = []"
| "utf8_decode (b # bs) =
     (case utf8_tail b of
        None \<Rightarrow> replacement @ utf8_decode bs
      | Some rs \<Rightarrow>
          (let k = match_rngs rs bs in
           if k = length rs then b # take k bs @ utf8_decode (drop k bs)
           else replacement @ utf8_decode (drop k bs)))"
  by pat_completeness auto
termination
  by (relation "measure length") auto

definition bom :: bytes where
  "bom = [CHR 0xEF, CHR 0xBB, CHR 0xBF]"

text \<open>\<open>new TextDecoder().decode(bytes)\<close>: a leading byte order mark is dropped.\<close>

definition text_decode :: "bytes \<Rightarrow> string" where
  "text_decode bs = utf8_decode (if starts_with bom bs then drop 3 bs else bs)"

text \<open>Well-formed UTF-8.\<close>

function utf8_valid :: "bytes \<Rightarrow> bool" where
  "utf8_valid [] \<longleftrightarrow> True"
| "utf8_valid (b # bs) \<longleftrightarrow>
     (case utf8_tail b of
        None \<Rightarrow> False
      | Some rs \<Rightarrow> match_rngs rs bs = length rs \<and> utf8_valid (drop (length rs) bs))"
  by pat_completeness auto
termination
  by (relation "measure length") auto

lemma utf8_decode_valid: "utf8_valid bs \<Longrightarrow> utf8_decode bs = bs"
  by (induction bs rule: utf8_valid.induct) (auto split: option.splits)

lemma utf8_valid_replacement: "utf8_valid (replacement @ s) \<longleftrightarrow> utf8_valid s"
  by (simp add: replacement_def utf8_tail_def in_rng_def)

lemma match_rngs_take: "k \<le> length bs \<Longrightarrow> match_rngs rs bs = k \<Longrightarrow> match_rngs rs (take k bs @ r) \<ge> k"
  by (induction rs bs arbitrary: k rule: match_rngs.induct) (auto split: if_splits)

lemma match_rngs_le: "match_rngs rs bs \<le> length rs" "match_rngs rs bs \<le> length bs"
  by (induction rs bs rule: match_rngs.induct) auto

text \<open>Decoding always yields well-formed text, whatever the bytes were.\<close>

lemma utf8_valid_decode: "utf8_valid (utf8_decode bs)"
proof (induction bs rule: utf8_decode.induct)
  case 1
  then show ?case by simp
next
  case (2 b bs)
  show ?case
  proof (cases "utf8_tail b")
    case None
    with 2 show ?thesis by (simp add: utf8_valid_replacement)
  next
    case (Some rs)
    let ?k = "match_rngs rs bs"
    show ?thesis
    proof (cases "?k = length rs")
      case True
      let ?r = "utf8_decode (drop ?k bs)"
      have "?k \<le> length bs" by (rule match_rngs_le)
      then have "match_rngs rs (take ?k bs @ ?r) \<ge> ?k" by (rule match_rngs_take) simp
      with True have "match_rngs rs (take ?k bs @ ?r) = length rs"
        using match_rngs_le(1) by (metis le_antisym)
      moreover have "drop (length rs) (take ?k bs @ ?r) = ?r"
        using True \<open>?k \<le> length bs\<close> by simp
      ultimately show ?thesis using 2(2)[OF Some refl True] Some True by (simp add: Let_def)
    next
      case False
      with 2 Some show ?thesis by (simp add: utf8_valid_replacement Let_def)
    qed
  qed
qed

lemma ascii_utf8_valid: "(\<And>c. c \<in> set s \<Longrightarrow> of_char c < (0x80 :: nat)) \<Longrightarrow> utf8_valid s"
proof (induction s)
  case Nil
  then show ?case by simp
next
  case (Cons c cs)
  then show ?case by (simp add: utf8_tail_def)
qed

lemma text_decode_valid: "utf8_valid bs \<Longrightarrow> \<not> starts_with bom bs \<Longrightarrow> text_decode bs = bs"
  by (simp add: text_decode_def utf8_decode_valid)

end
