(* ===== verification/Json.thy ===== *)
theory Json
  imports Encoding "HOL-Library.AList"
begin

text \<open>
  \<open>JSON.parse\<close> and \<open>JSON.stringify\<close> as the console uses them: control frames of the execution
  WebSocket, the execute request, the compile request and the JSON previewers. The parser is the
  grammar of ECMA-404 on UTF-8 text; its recursion runs on fuel, and \<open>json_parse_enough\<close> shows that
  the fuel \<open>json_parse\<close> gives it is never the reason for a failure. The main lemma is the round
  trip \<open>json_parse_stringify\<close>.
\<close>

section \<open>Values and printing\<close>

datatype json =
    JNull
  | JBool bool
  | JNum rat
  | JStr string
  | JArr "json list"
  | JObj "(string \<times> json) list"

text \<open>Property access: \<open>None\<close> is \<open>undefined\<close>.\<close>

fun jfield :: "string \<Rightarrow> json \<Rightarrow> json option" where
  "jfield k (JObj fs) = map_of fs k"
| "jfield k _ = None"

definition lower_hex :: "nat \<Rightarrow> char" where
  "lower_hex n = (if n < 10 then char_of (48 + n) else char_of (87 + n))"

definition json_escape :: "char \<Rightarrow> string" where
  "json_escape c =
     (if c = CHR 0x22 then [CHR 0x5C, CHR 0x22]
      else if c = CHR 0x5C then [CHR 0x5C, CHR 0x5C]
      else if c = CHR 0x08 then [CHR 0x5C, CHR ''b'']
      else if c = CHR 0x0C then [CHR 0x5C, CHR ''f'']
      else if c = CHR 0x0A then [CHR 0x5C, CHR ''n'']
      else if c = CHR 0x0D then [CHR 0x5C, CHR ''r'']
      else if c = CHR 0x09 then [CHR 0x5C, CHR ''t'']
      else if of_char c < (32 :: nat) then
        [CHR 0x5C, CHR ''u'', CHR ''0'', CHR ''0'', lower_hex (of_char c div 16), lower_hex (of_char c mod 16)]
      else [c])"

definition json_quote :: "string \<Rightarrow> string" where
  "json_quote s = CHR 0x22 # concat (map json_escape s) @ [CHR 0x22]"

text \<open>
  \<open>JSON.stringify\<close>. Numbers are printed as integers: the program only prints integers
  (\<open>json_ints\<close> is the side condition of the round trip).
\<close>

fun stringify :: "json \<Rightarrow> string" where
  "stringify JNull = ''null''"
| "stringify (JBool b) = (if b then ''true'' else ''false'')"
| "stringify (JNum x) = int_str \<lfloor>x\<rfloor>"
| "stringify (JStr s) = json_quote s"
| "stringify (JArr vs) = ''['' @ join '','' (map stringify vs) @ '']''"
| "stringify (JObj fs) = ''{'' @ join '','' (map (\<lambda>(k, v). json_quote k @ '':'' @ stringify v) fs) @ ''}''"

text \<open>A value in a template literal, and as a child in JSX: there \<open>true\<close>, \<open>false\<close> and \<open>null\<close> print nothing,
  an array prints its elements, and an object makes React throw (\<open>None\<close>).\<close>

fun js_string :: "json \<Rightarrow> string" where
  "js_string (JStr s) = s"
| "js_string (JArr vs) = join '','' (map (\<lambda>v. if v = JNull then [] else js_string v) vs)"
| "js_string (JObj fs) = ''[object Object]''"
| "js_string v = stringify v"

fun react_text :: "json \<Rightarrow> string option" where
  "react_text (JStr s) = Some s"
| "react_text (JNum x) = Some (stringify (JNum x))"
| "react_text (JArr vs) = map_option concat (those (map react_text vs))"
| "react_text (JObj fs) = None"
| "react_text v = Some []"

fun json_ok :: "json \<Rightarrow> bool" where
  "json_ok (JNum x) \<longleftrightarrow> x = of_int \<lfloor>x\<rfloor>"
| "json_ok (JArr vs) \<longleftrightarrow> (\<forall>v \<in> set vs. json_ok v)"
| "json_ok (JObj fs) \<longleftrightarrow> distinct (map fst fs) \<and> (\<forall>(k, v) \<in> set fs. json_ok v)"
| "json_ok _ \<longleftrightarrow> True"

section \<open>Parsing\<close>

definition json_ws :: "char \<Rightarrow> bool" where
  "json_ws c \<longleftrightarrow> c \<in> set [CHR 0x20, CHR 0x09, CHR 0x0A, CHR 0x0D]"

definition skip_ws :: "string \<Rightarrow> string" where
  "skip_ws s = dropWhile json_ws s"

text \<open>The next token is the given punctuation mark.\<close>

definition expect :: "char \<Rightarrow> string \<Rightarrow> string option" where
  "expect c s = (case skip_ws s of [] \<Rightarrow> None | x # r \<Rightarrow> if x = c then Some r else None)"

fun hex4 :: "string \<Rightarrow> (nat \<times> string) option" where
  "hex4 (a # b # c # d # r) =
     (case (unhex a, unhex b, unhex c, unhex d) of
        (Some w, Some x, Some y, Some z) \<Rightarrow> Some (((w * 16 + x) * 16 + y) * 16 + z, r)
      | _ \<Rightarrow> None)"
| "hex4 _ = None"

text \<open>UTF-8 of a code point; a lone surrogate keeps its generalised three-byte form.\<close>

definition utf8_encode :: "nat \<Rightarrow> string" where
  "utf8_encode n =
     (if n < 0x80 then [char_of n]
      else if n < 0x800 then [char_of (0xC0 + n div 64), char_of (0x80 + n mod 64)]
      else if n < 0x10000 then
        [char_of (0xE0 + n div 4096), char_of (0x80 + n div 64 mod 64), char_of (0x80 + n mod 64)]
      else [char_of (0xF0 + n div 262144), char_of (0x80 + n div 4096 mod 64),
        char_of (0x80 + n div 64 mod 64), char_of (0x80 + n mod 64)])"

definition low_surrogate :: "string \<Rightarrow> (nat \<times> string) option" where
  "low_surrogate s = (case s of
       b # u # r \<Rightarrow> (if b = CHR 0x5C \<and> u = CHR ''u'' then
           (case hex4 r of Some (l, r') \<Rightarrow> (if 0xDC00 \<le> l \<and> l < 0xE000 then Some (l, r') else None)
            | None \<Rightarrow> None) else None)
     | _ \<Rightarrow> None)"

text \<open>What follows a backslash inside a string.\<close>

definition json_unescape :: "string \<Rightarrow> (string \<times> string) option" where
  "json_unescape s = (case s of [] \<Rightarrow> None | e # r \<Rightarrow>
     if e = CHR 0x22 \<or> e = CHR 0x5C \<or> e = CHR ''/'' then Some ([e], r)
     else if e = CHR ''b'' then Some ([CHR 0x08], r)
     else if e = CHR ''f'' then Some ([CHR 0x0C], r)
     else if e = CHR ''n'' then Some ([CHR 0x0A], r)
     else if e = CHR ''r'' then Some ([CHR 0x0D], r)
     else if e = CHR ''t'' then Some ([CHR 0x09], r)
     else if e = CHR ''u'' then
       (case hex4 r of
          None \<Rightarrow> None
        | Some (h, r1) \<Rightarrow>
            if 0xD800 \<le> h \<and> h < 0xDC00 then
              (case low_surrogate r1 of
                 Some (l, r2) \<Rightarrow> Some (utf8_encode (0x10000 + (h - 0xD800) * 1024 + (l - 0xDC00)), r2)
               | None \<Rightarrow> Some (utf8_encode h, r1))
            else Some (utf8_encode h, r1))
     else None)"

lemma hex4_length: "hex4 s = Some (n, r) \<Longrightarrow> length r < length s"
  by (induction s rule: hex4.induct) (auto split: option.splits)

lemma json_unescape_length: "json_unescape s = Some (t, r) \<Longrightarrow> length r < length s"
  by (auto simp: json_unescape_def low_surrogate_def dest!: hex4_length
      split: list.splits if_splits option.splits)

function json_chars :: "string \<Rightarrow> (string \<times> string) option" where
  "json_chars [] = None"
| "json_chars (c # cs) =
     (if c = CHR 0x22 then Some ([], cs)
      else if c = CHR 0x5C then
        (case json_unescape cs of
           None \<Rightarrow> None
         | Some (t, r) \<Rightarrow> map_option (\<lambda>(u, r'). (t @ u, r')) (json_chars r))
      else if of_char c < (32 :: nat) then None
      else map_option (\<lambda>(u, r). (c # u, r)) (json_chars cs))"
  by pat_completeness auto
termination
  by (relation "measure length") (auto dest!: json_unescape_length)

definition is_digit :: "char \<Rightarrow> bool" where
  "is_digit c \<longleftrightarrow> 48 \<le> (of_char c :: nat) \<and> of_char c \<le> (57 :: nat)"

definition json_frac :: "string \<Rightarrow> (rat \<times> string) option" where
  "json_frac s = (case s of
     c # r \<Rightarrow> if c = CHR ''.'' then
        (let fs = takeWhile is_digit r in
         if fs = [] then None
         else Some (of_nat (base_val 10 fs) / 10 ^ length fs, dropWhile is_digit r))
       else Some (0, s)
   | [] \<Rightarrow> Some (0, s))"

definition json_exp :: "string \<Rightarrow> (rat \<times> string) option" where
  "json_exp s = (case s of
     c # r \<Rightarrow> if c = CHR ''e'' \<or> c = CHR ''E'' then
        (let (neg, r1) = (case r of x # q \<Rightarrow> if x = CHR ''-'' then (True, q)
               else if x = CHR ''+'' then (False, q) else (False, r) | [] \<Rightarrow> (False, r));
             es = takeWhile is_digit r1 in
         if es = [] then None
         else Some (if neg then 1 / 10 ^ base_val 10 es else 10 ^ base_val 10 es, dropWhile is_digit r1))
       else Some (1, s)
   | [] \<Rightarrow> Some (1, s))"

definition json_number :: "string \<Rightarrow> (rat \<times> string) option" where
  "json_number s =
     (let (neg, s1) = (case s of x # q \<Rightarrow> if x = CHR ''-'' then (True, q) else (False, s)
            | [] \<Rightarrow> (False, s));
          ds = takeWhile is_digit s1; s2 = dropWhile is_digit s1 in
      if ds = [] \<or> (hd ds = CHR ''0'' \<and> tl ds \<noteq> []) then None
      else (case json_frac s2 of None \<Rightarrow> None | Some (f, s3) \<Rightarrow>
        (case json_exp s3 of None \<Rightarrow> None | Some (e, s4) \<Rightarrow>
          Some ((if neg then -1 else 1) * (of_nat (base_val 10 ds) + f) * e, s4))))"

definition json_literal :: "string \<Rightarrow> json \<Rightarrow> string \<Rightarrow> (json \<times> string) option" where
  "json_literal w v s = (if starts_with w s then Some (v, drop (length w) s) else None)"

fun pval :: "nat \<Rightarrow> string \<Rightarrow> (json \<times> string) option"
  and pelems :: "nat \<Rightarrow> string \<Rightarrow> (json list \<times> string) option"
  and pmembers :: "nat \<Rightarrow> (string \<times> json) list \<Rightarrow> string \<Rightarrow> ((string \<times> json) list \<times> string) option"
where
  "pval 0 s = None"
| "pval (Suc n) s = (case skip_ws s of [] \<Rightarrow> None | c # cs \<Rightarrow>
     if c = CHR ''{'' then
       (case expect (CHR ''}'') cs of
          Some r \<Rightarrow> Some (JObj [], r)
        | None \<Rightarrow> map_option (\<lambda>(fs, r). (JObj fs, r)) (pmembers n [] cs))
     else if c = CHR ''['' then
       (case expect (CHR '']'') cs of
          Some r \<Rightarrow> Some (JArr [], r)
        | None \<Rightarrow> map_option (\<lambda>(vs, r). (JArr vs, r)) (pelems n cs))
     else if c = CHR 0x22 then map_option (\<lambda>(t, r). (JStr t, r)) (json_chars cs)
     else if c = CHR ''n'' then json_literal ''null'' JNull (c # cs)
     else if c = CHR ''t'' then json_literal ''true'' (JBool True) (c # cs)
     else if c = CHR ''f'' then json_literal ''false'' (JBool False) (c # cs)
     else map_option (\<lambda>(x, r). (JNum x, r)) (json_number (c # cs)))"
| "pelems 0 s = None"
| "pelems (Suc n) s = (case pval n s of None \<Rightarrow> None | Some (v, r) \<Rightarrow>
     (case expect (CHR '','') r of
        Some r1 \<Rightarrow> map_option (\<lambda>(vs, r2). (v # vs, r2)) (pelems n r1)
      | None \<Rightarrow> map_option (\<lambda>r1. ([v], r1)) (expect (CHR '']'') r)))"
| "pmembers 0 acc s = None"
| "pmembers (Suc n) acc s = (case expect (CHR 0x22) s of None \<Rightarrow> None | Some r \<Rightarrow>
     (case json_chars r of None \<Rightarrow> None | Some (k, r1) \<Rightarrow>
       (case expect (CHR '':'') r1 of None \<Rightarrow> None | Some r2 \<Rightarrow>
         (case pval n r2 of None \<Rightarrow> None | Some (v, r3) \<Rightarrow>
           (case expect (CHR '','') r3 of
              Some r4 \<Rightarrow> pmembers n (AList.update k v acc) r4
            | None \<Rightarrow> map_option (\<lambda>r4. (AList.update k v acc, r4)) (expect (CHR ''}'') r3))))))"

text \<open>\<open>JSON.parse(s)\<close>; \<open>None\<close> is the \<open>SyntaxError\<close> it throws.\<close>

definition json_parse :: "string \<Rightarrow> json option" where
  "json_parse s = (case pval (2 * length s + 1) s of
       Some (v, r) \<Rightarrow> if skip_ws r = [] then Some v else None
     | None \<Rightarrow> None)"


section \<open>The parser consumes its input, so its fuel is enough\<close>

lemma skip_ws_length: "length (skip_ws s) \<le> length s"
  by (simp add: skip_ws_def length_dropWhile_le)

lemma expect_length: "expect c s = Some r \<Longrightarrow> length r < length s"
  using skip_ws_length[of s] by (auto simp: expect_def split: list.splits if_splits)

lemma json_chars_length: "json_chars s = Some (t, r) \<Longrightarrow> length r < length s"
  by (induction s arbitrary: t r rule: json_chars.induct)
     (fastforce split: if_splits option.splits dest: json_unescape_length)+

lemma json_frac_length: "json_frac s = Some (x, r) \<Longrightarrow> length r \<le> length s"
  by (auto simp: json_frac_def Let_def split: list.splits if_splits
      intro: le_SucI length_dropWhile_le[THEN le_trans])

lemma json_exp_length: "json_exp s = Some (x, r) \<Longrightarrow> length r \<le> length s"
  by (auto simp: json_exp_def Let_def split: list.splits if_splits prod.splits
      intro: le_SucI length_dropWhile_le[THEN le_trans])

lemma dropWhile_length_less: "takeWhile P s \<noteq> [] \<Longrightarrow> length (dropWhile P s) < length s"
  by (cases s) (auto simp: less_Suc_eq_le length_dropWhile_le split: if_splits)

lemma json_number_length:
  assumes "json_number s = Some (x, r)"
  shows "length r < length s"
proof -
  obtain neg s1 where s1: "(case s of x # q \<Rightarrow> if x = CHR ''-'' then (True, q) else (False, s)
            | [] \<Rightarrow> (False, s)) = (neg, s1)"
    by fastforce
  then have "length s1 \<le> length s" by (auto split: list.splits if_splits)
  moreover from assms s1 obtain f s3 e
    where ds: "takeWhile is_digit s1 \<noteq> []"
      and f: "json_frac (dropWhile is_digit s1) = Some (f, s3)" and e: "json_exp s3 = Some (e, r)"
    by (auto simp: json_number_def Let_def split: if_splits option.splits prod.splits)
  note dropWhile_length_less[OF ds] json_frac_length[OF f] json_exp_length[OF e]
  ultimately show ?thesis by linarith
qed

lemma json_literal_length: "json_literal w v s = Some (x, r) \<Longrightarrow> w \<noteq> [] \<Longrightarrow> length r < length s"
  by (cases s; cases w) (auto simp: json_literal_def starts_with_def split: if_splits)

lemmas json_lengths =
  skip_ws_length expect_length json_chars_length json_number_length json_literal_length

lemma parser_consumes:
  "pval n s = Some (v, r) \<Longrightarrow> length r < length s"
  "pelems n s = Some (vs, r) \<Longrightarrow> length r < length s"
  "pmembers n acc s = Some (fs, r) \<Longrightarrow> length r < length s"
proof (induction n s and n s and n acc s arbitrary: v r and vs r and fs r
    rule: pval_pelems_pmembers.induct)
  case (2 n s)
  then obtain c cs where c: "skip_ws s = c # cs" by (auto split: list.splits)
  have "length (c # cs) \<le> length s" using skip_ws_length[of s] c by simp
  with 2 c show ?case
    by (fastforce split: if_splits option.splits
        dest: expect_length json_chars_length json_number_length json_literal_length)
next
  case (4 n s)
  then show ?case
    by (fastforce split: option.splits dest: expect_length)
next
  case (6 n acc s)
  then show ?case
    by (fastforce split: option.splits dest: expect_length json_chars_length)
qed auto


text \<open>More fuel never changes a result, and past the bound it changes nothing at all.\<close>

lemma parser_stable:
  "2 * length s < n \<Longrightarrow> pval (Suc n) s = pval n s"
  "2 * length s + 1 < n \<Longrightarrow> pelems (Suc n) s = pelems n s"
  "2 * length s + 1 < n \<Longrightarrow> pmembers (Suc n) acc s = pmembers n acc s"
proof (induction n s and n s and n acc s rule: pval_pelems_pmembers.induct)
  case (2 n s)
  show ?case
  proof (cases "skip_ws s")
    case Nil
    then show ?thesis by simp
  next
    case (Cons c cs)
    have "length (c # cs) \<le> length s" using skip_ws_length[of s] Cons by simp
    with 2(3) have "2 * length cs + 1 < n" by simp
    with 2(1,2) Cons show ?thesis by (simp split: option.split)
  qed
next
  case (4 n s)
  then have IH: "pval (Suc n) s = pval n s" by simp
  show ?case
  proof (cases "pval n s")
    case None
    with IH show ?thesis by simp
  next
    case (Some vr)
    then obtain v r where vr: "pval n s = Some (v, r)" by (cases vr) auto
    from parser_consumes(1)[OF vr] have less: "length r < length s" .
    have "pelems (Suc n) r1 = pelems n r1" if "expect (CHR '','') r = Some r1" for r1
      using 4(2)[OF vr refl that] expect_length[OF that] less 4(3) by simp
    with IH vr show ?thesis by (auto split: option.split)
  qed
next
  case (6 n acc s)
  show ?case
  proof (cases "\<exists>r k r1 r2. expect (CHR 0x22) s = Some r \<and> json_chars r = Some (k, r1) \<and>
      expect (CHR '':'') r1 = Some r2")
    case False
    then show ?thesis by (simp split: option.split)
  next
    case True
    then obtain r k r1 r2 where a: "expect (CHR 0x22) s = Some r" "json_chars r = Some (k, r1)"
      "expect (CHR '':'') r1 = Some r2" by blast
    have len: "length r2 < length s"
      using expect_length[OF a(1)] json_chars_length[OF a(2)] expect_length[OF a(3)] by simp
    have IH: "pval (Suc n) r2 = pval n r2"
      using 6(1)[OF a(1) a(2) refl a(3)] len 6(3) by simp
    have "pmembers (Suc n) (AList.update k v acc) r4 = pmembers n (AList.update k v acc) r4"
      if v: "pval n r2 = Some (v, r3)" and c: "expect (CHR '','') r3 = Some r4" for v r3 r4
      using 6(2)[OF a(1) a(2) refl a(3) v refl c] len 6(3)
        parser_consumes(1)[OF v] expect_length[OF c] by simp
    with IH a show ?thesis by (auto split: option.split)
  qed
qed auto

lemma pval_stable:
  assumes "2 * length s < m" "m \<le> n"
  shows "pval n s = pval m s"
  using assms(2,1)
  by (induction n rule: dec_induct) (simp_all add: parser_stable(1) del: pval.simps)

lemma pmembers_Suc_Some:
  "pmembers (Suc n) acc s = Some z \<longleftrightarrow>
     (\<exists>r k r1 r2 v r3. expect (CHR 0x22) s = Some r \<and> json_chars r = Some (k, r1) \<and>
        expect (CHR '':'') r1 = Some r2 \<and> pval n r2 = Some (v, r3) \<and>
        (case expect (CHR '','') r3 of
           Some r4 \<Rightarrow> pmembers n (AList.update k v acc) r4 = Some z
         | None \<Rightarrow> \<exists>r4. expect (CHR ''}'') r3 = Some r4 \<and> z = (AList.update k v acc, r4)))"
  by (auto split: option.splits prod.splits)

lemma parser_mono:
  "pval n s = Some x \<Longrightarrow> pval (Suc n) s = Some x"
  "pelems n s = Some y \<Longrightarrow> pelems (Suc n) s = Some y"
  "pmembers n acc s = Some z \<Longrightarrow> pmembers (Suc n) acc s = Some z"
proof (induction n s and n s and n acc s arbitrary: x and y and z
    rule: pval_pelems_pmembers.induct)
  case (2 n s)
  then show ?case by (fastforce split: list.splits if_splits option.splits)
next
  case (4 n s)
  then show ?case by (fastforce split: option.splits)
next
  case (6 n acc s)
  from 6(3) obtain r k r1 r2 v r3 where a: "expect (CHR 0x22) s = Some r"
      "json_chars r = Some (k, r1)" "expect (CHR '':'') r1 = Some r2" "pval n r2 = Some (v, r3)"
      and z: "case expect (CHR '','') r3 of
           Some r4 \<Rightarrow> pmembers n (AList.update k v acc) r4 = Some z
         | None \<Rightarrow> \<exists>r4. expect (CHR ''}'') r3 = Some r4 \<and> z = (AList.update k v acc, r4)"
    unfolding pmembers_Suc_Some by blast
  have "pval (Suc n) r2 = Some (v, r3)" using 6(1)[OF a(1,2) refl a(3)] a(4) by blast
  moreover have "case expect (CHR '','') r3 of
           Some r4 \<Rightarrow> pmembers (Suc n) (AList.update k v acc) r4 = Some z
         | None \<Rightarrow> \<exists>r4. expect (CHR ''}'') r3 = Some r4 \<and> z = (AList.update k v acc, r4)"
    using z 6(2)[OF a(1,2) refl a(3,4) refl]
    by (cases "expect (CHR '','') r3") (simp_all del: pmembers.simps)
  ultimately show ?case using a unfolding pmembers_Suc_Some[of "Suc n"] by blast
qed auto

lemma pval_mono_le: "pval m s = Some x \<Longrightarrow> m \<le> n \<Longrightarrow> pval n s = Some x"
proof (induction n)
  case (Suc n)
  then show ?case
    by (cases "m = Suc n") (simp_all add: parser_mono(1) del: pval.simps)
qed simp

lemma pelems_mono_le: "pelems m s = Some x \<Longrightarrow> m \<le> n \<Longrightarrow> pelems n s = Some x"
proof (induction n)
  case (Suc n)
  then show ?case
    by (cases "m = Suc n") (simp_all add: parser_mono(2) del: pelems.simps)
qed simp

lemma pmembers_mono_le: "pmembers m acc s = Some x \<Longrightarrow> m \<le> n \<Longrightarrow> pmembers n acc s = Some x"
proof (induction n)
  case (Suc n)
  then show ?case
    by (cases "m = Suc n") (simp_all add: parser_mono(3) del: pmembers.simps)
qed simp

text \<open>Whatever some amount of fuel parses, \<open>json_parse\<close> parses.\<close>

lemma json_parse_enough:
  assumes "pval n s = Some (v, r)" "skip_ws r = []"
  shows "json_parse s = Some v"
proof -
  let ?m = "2 * length s + 1"
  have "pval (max n ?m) s = Some (v, r)" using assms(1) by (rule pval_mono_le) simp
  moreover have "pval (max n ?m) s = pval ?m s" by (rule pval_stable) simp_all
  ultimately have "pval ?m s = Some (v, r)" by metis
  with assms(2) show ?thesis by (simp add: json_parse_def del: pval.simps)
qed

declare pval.simps(2) [simp del] pelems.simps(2) [simp del] pmembers.simps(2) [simp del]


section \<open>Round trip\<close>

lemma unhex_lower_hex: "n < 16 \<Longrightarrow> unhex (lower_hex n) = Some n"
  by (auto simp: unhex_def lower_hex_def Let_def)

lemma json_unescape_u:
  assumes "of_char c < (32 :: nat)"
  shows "json_unescape (CHR ''u'' # CHR ''0'' # CHR ''0'' # lower_hex (of_char c div 16) #
    lower_hex (of_char c mod 16) # r) = Some ([c], r)"
proof -
  have "unhex (CHR ''0'') = Some 0" by (simp add: unhex_def)
  then have "hex4 (CHR ''0'' # CHR ''0'' # lower_hex (of_char c div 16) #
      lower_hex (of_char c mod 16) # r) = Some (of_char c, r)"
    by (simp add: unhex_lower_hex)
  with assms show ?thesis by (simp add: json_unescape_def utf8_encode_def)
qed

lemma json_chars_escape:
  "json_chars (json_escape c @ r) = map_option (\<lambda>(u, r'). (c # u, r')) (json_chars r)"
proof (cases "of_char c < (32 :: nat)")
  case True
  then have "c \<noteq> CHR 0x22" "c \<noteq> CHR 0x5C" by auto
  with True show ?thesis
    by (simp add: json_escape_def json_unescape_u) (simp add: json_unescape_def)
next
  case False
  then have "c \<noteq> CHR 0x08" "c \<noteq> CHR 0x0C" "c \<noteq> CHR 0x0A" "c \<noteq> CHR 0x0D" "c \<noteq> CHR 0x09"
    by auto
  with False show ?thesis by (simp add: json_escape_def json_unescape_def)
qed

lemma json_chars_quote:
  "json_chars (concat (map json_escape s) @ CHR 0x22 # r) = Some (s, r)"
  by (induction s) (simp_all add: json_chars_escape del: json_chars.simps(2), simp)

lemma skip_ws_Cons [simp]: "\<not> json_ws c \<Longrightarrow> skip_ws (c # s) = c # s"
  by (simp add: skip_ws_def)

lemma json_ws_marks [simp]:
  "\<not> json_ws (CHR 0x22)" "\<not> json_ws (CHR ''{'')" "\<not> json_ws (CHR ''}'')" "\<not> json_ws (CHR ''['')"
  "\<not> json_ws (CHR '']'')" "\<not> json_ws (CHR '','')" "\<not> json_ws (CHR '':'')" "\<not> json_ws (CHR ''-'')"
  "\<not> json_ws (CHR ''n'')" "\<not> json_ws (CHR ''t'')" "\<not> json_ws (CHR ''f'')"
  by (simp_all add: json_ws_def)

lemma expect_Cons [simp]: "\<not> json_ws x \<Longrightarrow> expect c (x # r) = (if x = c then Some r else None)"
  by (simp add: expect_def)

text \<open>What may follow a value inside an array or object, or at the end.\<close>

definition value_end :: "string \<Rightarrow> bool" where
  "value_end r \<longleftrightarrow> r = [] \<or> hd r \<in> set [CHR '','', CHR '']'', CHR ''}'']"

lemma is_digit_digit_char [simp]: "d < 10 \<Longrightarrow> is_digit (digit_char d)"
  by (simp add: is_digit_def digit_char_def)

lemma nat_str_digits: "c \<in> set (nat_str n) \<Longrightarrow> is_digit c"
proof (induction "10 :: nat" n rule: to_base.induct)
  case (1 n)
  then show ?case
    by (cases "n < 10") (auto simp: to_base.simps[of 10 n])
qed

lemma nat_str_not_Nil [simp]: "nat_str n \<noteq> []"
  by (subst to_base.simps) simp

lemma nat_str_lead: "hd (nat_str n) = CHR ''0'' \<Longrightarrow> n = 0"
proof (induction "10 :: nat" n rule: to_base.induct)
  case (1 n)
  show ?case
  proof (cases "n < 10")
    case True
    with 1 have "digit_char n = CHR ''0''" by (simp add: to_base.simps[of 10 n])
    with True have "n = digit_val (CHR ''0'')" using digit_val_digit_char[of n] by simp
    then show ?thesis by (simp add: digit_val_def)
  next
    case False
    with 1 have "n div 10 = 0" by (simp add: to_base.simps[of 10 n] hd_append)
    with False show ?thesis by simp
  qed
qed

lemma json_number_nat_str:
  assumes "value_end r"
  shows "json_number (nat_str n @ r) = Some (of_nat n, r)"
    and "json_number (CHR ''-'' # nat_str n @ r) = Some (- of_nat n, r)"
proof -
  have r: "r = [] \<or> \<not> is_digit (hd r)"
    using assms by (auto simp: value_end_def is_digit_def)
  have tw: "takeWhile is_digit (nat_str n @ r) = nat_str n"
    using r nat_str_digits by (cases r) (auto simp: takeWhile_append2)
  have dw: "dropWhile is_digit (nat_str n @ r) = r"
    using r nat_str_digits by (cases r) (auto simp: dropWhile_append2)
  have lead: "tl (nat_str n) = []" if "hd (nat_str n) = CHR ''0''"
    using nat_str_lead[OF that] by (simp add: to_base.simps)
  have fe: "json_frac r = Some (0, r)" "json_exp r = Some (1, r)"
    using assms by (auto simp: json_frac_def json_exp_def value_end_def split: list.split)
  obtain d ds where d: "nat_str n = d # ds" by (cases "nat_str n") auto
  then have "is_digit d" using nat_str_digits[of d n] by simp
  then have nm: "d \<noteq> CHR ''-''" by (auto simp: is_digit_def)
  have val: "base_val 10 (nat_str n) = n" by (simp add: base_val_to_base)
  show "json_number (nat_str n @ r) = Some (of_nat n, r)"
    using nm d tw dw lead fe val by (simp add: json_number_def Let_def)
  show "json_number (CHR ''-'' # nat_str n @ r) = Some (- of_nat n, r)"
    using d tw dw lead fe val by (simp add: json_number_def Let_def)
qed


lemma is_digit_not_mark:
  "is_digit c \<Longrightarrow> \<not> json_ws c \<and> c \<notin> set [CHR ''{'', CHR ''['', CHR 0x22, CHR ''n'', CHR ''t'', CHR ''f'',
    CHR '']'', CHR ''-'']"
  by (auto simp: is_digit_def json_ws_def)

lemma stringify_hd: "\<exists>c cs. stringify v = c # cs \<and> \<not> json_ws c \<and> c \<noteq> CHR '']''"
proof (cases v)
  case (JNum x)
  have "\<exists>d ds. nat_str m = d # ds \<and> \<not> json_ws d \<and> d \<noteq> CHR '']''" for m
  proof -
    obtain d ds where d: "nat_str m = d # ds" by (cases "nat_str m") auto
    then have "is_digit d" using nat_str_digits[of d m] by simp
    from is_digit_not_mark[OF this] d show ?thesis by simp
  qed
  with JNum show ?thesis by (auto simp: int_str_def)
qed (auto simp: json_quote_def)

lemma pval_number:
  assumes "value_end r"
  shows "pval (Suc 0) (int_str i @ r) = Some (JNum (of_int i), r)"
proof (cases "i < 0")
  case True
  then show ?thesis
    by (simp add: pval.simps(2) int_str_def json_number_nat_str[OF assms])
next
  case False
  obtain d ds where d: "nat_str (nat i) = d # ds" by (cases "nat_str (nat i)") auto
  then have "is_digit d" using nat_str_digits[of d "nat i"] by simp
  from is_digit_not_mark[OF this] d False show ?thesis
    using json_number_nat_str(1)[OF assms, of "nat i"] by (simp add: pval.simps(2) int_str_def)
qed

lemma AList_update_fresh: "k \<notin> fst ` set al \<Longrightarrow> AList.update k v al = al @ [(k, v)]"
  by (induction al) auto

lemma pelems_stringify:
  assumes "\<And>v r. v \<in> set vs \<Longrightarrow> value_end r \<Longrightarrow> \<exists>n. pval n (stringify v @ r) = Some (v, r)"
    and "vs \<noteq> []"
  shows "\<exists>n. pelems n (join '','' (map stringify vs) @ CHR '']'' # r) = Some (vs, r)"
  using assms
proof (induction vs)
  case Nil
  then show ?case by simp
next
  case (Cons v vs)
  show ?case
  proof (cases "vs = []")
    case True
    obtain n where "pval n (stringify v @ CHR '']'' # r) = Some (v, CHR '']'' # r)"
      using Cons.prems(1)[of v "CHR '']'' # r"] by (auto simp: value_end_def)
    then have "pelems (Suc n) (stringify v @ CHR '']'' # r) = Some ([v], r)"
      by (simp add: pelems.simps(2))
    with True show ?thesis by auto
  next
    case False
    let ?t = "join '','' (map stringify vs) @ CHR '']'' # r"
    obtain n where n: "pval n (stringify v @ CHR '','' # ?t) = Some (v, CHR '','' # ?t)"
      using Cons.prems(1)[of v "CHR '','' # ?t"] by (auto simp: value_end_def)
    obtain m where m: "pelems m ?t = Some (vs, r)" using Cons False by auto
    have "pval (max n m) (stringify v @ CHR '','' # ?t) = Some (v, CHR '','' # ?t)"
      using pval_mono_le[OF n] by simp
    moreover have "pelems (max n m) ?t = Some (vs, r)"
      using m by (rule pelems_mono_le) simp
    ultimately have "pelems (Suc (max n m)) (stringify v @ CHR '','' # ?t) = Some (v # vs, r)"
      by (simp add: pelems.simps(2))
    with False show ?thesis by (auto simp: join_Cons)
  qed
qed


abbreviation member_str :: "string \<times> json \<Rightarrow> string" where
  "member_str \<equiv> (\<lambda>(k, v). json_quote k @ '':'' @ stringify v)"

lemma pmembers_stringify:
  assumes "\<And>k v r. (k, v) \<in> set fs \<Longrightarrow> value_end r \<Longrightarrow> \<exists>n. pval n (stringify v @ r) = Some (v, r)"
    and "fs \<noteq> []" "distinct (map fst (acc @ fs))"
  shows "\<exists>n. pmembers n acc (join '','' (map member_str fs) @ CHR ''}'' # r) = Some (acc @ fs, r)"
  using assms
proof (induction fs arbitrary: acc)
  case Nil
  then show ?case by simp
next
  case (Cons f fs)
  obtain k v where f: "f = (k, v)" by (cases f) auto
  have upd: "AList.update k v acc = acc @ [(k, v)]"
    using Cons.prems(3) f by (intro AList_update_fresh) auto
  show ?case
  proof (cases "fs = []")
    case True
    obtain n where "pval n (stringify v @ CHR ''}'' # r) = Some (v, CHR ''}'' # r)"
      using Cons.prems(1)[of k v "CHR ''}'' # r"] f by (auto simp: value_end_def)
    then have "pmembers (Suc n) acc (json_quote k @ '':'' @ stringify v @ CHR ''}'' # r)
      = Some (acc @ [(k, v)], r)"
      by (simp add: pmembers.simps(2) json_quote_def json_chars_quote upd)
    with True f show ?thesis by auto
  next
    case False
    let ?t = "join '','' (map member_str fs) @ CHR ''}'' # r"
    obtain n where n: "pval n (stringify v @ CHR '','' # ?t) = Some (v, CHR '','' # ?t)"
      using Cons.prems(1)[of k v "CHR '','' # ?t"] f by (auto simp: value_end_def)
    have "\<exists>m. pmembers m (acc @ [(k, v)]) ?t = Some ((acc @ [(k, v)]) @ fs, r)"
      using Cons.prems(1,3) f False by (intro Cons.IH) auto
    then obtain m where m: "pmembers m (acc @ [(k, v)]) ?t = Some ((acc @ [(k, v)]) @ fs, r)" ..
    have "pval (max n m) (stringify v @ CHR '','' # ?t) = Some (v, CHR '','' # ?t)"
      using n by (rule pval_mono_le) simp
    moreover have "pmembers (max n m) (acc @ [(k, v)]) ?t = Some ((acc @ [(k, v)]) @ fs, r)"
      using m by (rule pmembers_mono_le) simp
    ultimately have "pmembers (Suc (max n m)) acc
        (json_quote k @ '':'' @ stringify v @ CHR '','' # ?t) = Some (acc @ (k, v) # fs, r)"
      by (simp add: pmembers.simps(2) json_quote_def json_chars_quote upd)
    with False f show ?thesis by (auto simp: join_Cons)
  qed
qed

lemma pval_stringify:
  "json_ok v \<Longrightarrow> value_end r \<Longrightarrow> \<exists>n. pval n (stringify v @ r) = Some (v, r)"
proof (induction v arbitrary: r)
  case (JNum x)
  then show ?case using pval_number[of r "\<lfloor>x\<rfloor>"] by auto
next
  case (JStr s)
  have "pval 1 (stringify (JStr s) @ r) = Some (JStr s, r)"
    by (simp add: pval.simps(2) json_quote_def json_chars_quote)
  then show ?case ..
next
  case (JArr vs)
  show ?case
  proof (cases "vs = []")
    case True
    then have "pval 1 (stringify (JArr vs) @ r) = Some (JArr vs, r)"
      by (simp add: pval.simps(2))
    then show ?thesis ..
  next
    case False
    then obtain n where n: "pelems n (join '','' (map stringify vs) @ CHR '']'' # r) = Some (vs, r)"
      using JArr pelems_stringify[of vs r] by auto
    obtain w ws where w: "vs = w # ws" using False by (cases vs) auto
    obtain c cs where c: "stringify w = c # cs" "\<not> json_ws c" "c \<noteq> CHR '']''"
      using stringify_hd[of w] by auto
    have "expect (CHR '']'') (join '','' (map stringify vs) @ CHR '']'' # r) = None"
      using c w by (cases ws) simp_all
    with n have "pval (Suc n) (stringify (JArr vs) @ r) = Some (JArr vs, r)"
      by (simp add: pval.simps(2))
    then show ?thesis ..
  qed
next
  case (JObj fs)
  show ?case
  proof (cases "fs = []")
    case True
    then have "pval 1 (stringify (JObj fs) @ r) = Some (JObj fs, r)"
      by (simp add: pval.simps(2))
    then show ?thesis ..
  next
    case False
    have "\<exists>n. pval n (stringify v @ r') = Some (v, r')" if "(k, v) \<in> set fs" "value_end r'" for k v r'
      using JObj.IH[OF that(1), of v r'] JObj.prems(1) that by fastforce
    moreover have "distinct (map fst ([] @ fs))" using JObj.prems(1) by simp
    ultimately obtain n
      where n: "pmembers n [] (join '','' (map member_str fs) @ CHR ''}'' # r) = Some (fs, r)"
      using pmembers_stringify[of fs "[]" r] False by fastforce
    obtain k v gs where g: "fs = (k, v) # gs" using False by (cases fs) auto
    have "expect (CHR ''}'') (join '','' (map member_str fs) @ CHR ''}'' # r) = None"
      using g by (cases gs) (simp_all add: json_quote_def)
    with n have "pval (Suc n) (stringify (JObj fs) @ r) = Some (JObj fs, r)"
      by (simp add: pval.simps(2))
    then show ?thesis ..
  qed
next
  case (JBool b)
  have "pval 1 (stringify (JBool b) @ r) = Some (JBool b, r)"
    by (simp add: pval.simps(2) json_literal_def starts_with_def)
  then show ?case ..
next
  case JNull
  have "pval 1 (stringify JNull @ r) = Some (JNull, r)"
    by (simp add: pval.simps(2) json_literal_def starts_with_def)
  then show ?case ..
qed

text \<open>Parsing a printed value gives the value back.\<close>

lemma json_parse_stringify: "json_ok v \<Longrightarrow> json_parse (stringify v) = Some v"
  using pval_stringify[of v "[]"] by (auto simp: value_end_def skip_ws_def intro: json_parse_enough)

end
