(* ===== verification/Machine.thy ===== *)
theory Machine
  imports Prelude
begin

text \<open>
  The components of the console are event-driven: a state, and a step for each event the browser, the
  server or the user may cause, in any order. \<open>machine\<close> is the contract of such a component and an
  invariant of it, \<open>started_machine\<close> adds the state it starts in. Every component interprets one of
  the two on its own step function.
\<close>

lemma foldl_keeps:
  "\<lbrakk>Q s; \<And>s e. Q s \<Longrightarrow> e \<in> set es \<Longrightarrow> Q (f s e)\<rbrakk> \<Longrightarrow> Q (foldl f s es)"
  by (induction es arbitrary: s) simp_all

locale machine =
  fixes step :: "'s \<Rightarrow> 'e \<Rightarrow> 's" and inv :: "'s \<Rightarrow> bool"
  assumes inv_step: "inv s \<Longrightarrow> inv (step s e)"
begin

lemma inv_run: "inv s \<Longrightarrow> inv (foldl step s es)"
  by (rule foldl_keeps) (simp_all add: inv_step)

text \<open>What only some events preserve, and only in states that satisfy the invariant.\<close>

lemma guarded_run:
  assumes "inv s" "Q s" "\<And>s e. \<lbrakk>inv s; Q s; e \<in> set es\<rbrakk> \<Longrightarrow> Q (step s e)"
  shows "Q (foldl step s es)"
  using foldl_keeps[of "\<lambda>s. inv s \<and> Q s" s es step] assms inv_step by blast

end

locale started_machine = machine +
  fixes init :: "'s"
  assumes inv_init: "inv init"
begin

lemma reachable_inv: "inv (foldl step init es)"
  by (rule inv_run[OF inv_init])

end

end
