(* ===== verification/Terminal.thy ===== *)
theory Terminal
  imports Json Machine
begin

text \<open>
  \<open>frontend/components/Terminal.tsx\<close>: the terminal of the console, which opens the execution
  WebSocket, sends the program, queues its output in a back-pressure buffer that animation frames
  flush into Xterm, and reports how the session ended.

  Every ref of the component is a field of \<open>terminal\<close>. Event handlers are closures over the socket
  of their run of the effect, so the state keeps the sockets of all runs (\<open>sockets\<close>, addressed by
  index) with what their handlers captured. Xterm is represented by what was written to it, in
  order: raw chunks and the component's own status lines, whose colours are left out. Calls of the
  \<open>onEnd\<close> prop are recorded in \<open>ended\<close>. Logging to the browser console is left out.

  Of the browser, the model keeps: an animation frame callback runs once unless it is cancelled; a
  socket delivers messages only while it is open, and one close event.
\<close>

section \<open>State\<close>

type_synonym ITheme = "(string \<times> string) list"

definition XTERM_DARK :: ITheme where
  "XTERM_DARK =
     [(''background'', ''#08080a''), (''foreground'', ''#e8e8f0''), (''cursor'', ''#6366f1''),
      (''cursorAccent'', ''#f1f5f9''), (''selectionBackground'', ''rgba(99,102,241,0.3)''),
      (''black'', ''#1e1e26''), (''red'', ''#f87171''), (''green'', ''#4ade80''),
      (''yellow'', ''#facc15''), (''blue'', ''#60a5fa''), (''magenta'', ''#c084fc''),
      (''cyan'', ''#22d3ee''), (''white'', ''#e8e8f0''),
      (''brightBlack'', ''#404060''), (''brightRed'', ''#ef4444''),
      (''brightGreen'', ''#22c55e''), (''brightYellow'', ''#f59e0b''),
      (''brightBlue'', ''#818cf8''), (''brightMagenta'', ''#a855f7''),
      (''brightCyan'', ''#06b6d4''), (''brightWhite'', ''#f1f5f9'')]"

definition XTERM_LIGHT :: ITheme where
  "XTERM_LIGHT =
     [(''background'', ''#f4f4f8''), (''foreground'', ''#1a1a2e''), (''cursor'', ''#6366f1''),
      (''cursorAccent'', ''#ffffff''), (''selectionBackground'', ''rgba(99,102,241,0.25)''),
      (''black'', ''#2c2c3e''), (''red'', ''#c0392b''), (''green'', ''#1a7a40''),
      (''yellow'', ''#b7770d''), (''blue'', ''#2563eb''), (''magenta'', ''#7c3aed''),
      (''cyan'', ''#0e7490''), (''white'', ''#52527a''),
      (''brightBlack'', ''#6c6c8c''), (''brightRed'', ''#e53e3e''),
      (''brightGreen'', ''#16a34a''), (''brightYellow'', ''#d97706''),
      (''brightBlue'', ''#3b82f6''), (''brightMagenta'', ''#9333ea''),
      (''brightCyan'', ''#0891b2''), (''brightWhite'', ''#1a1a2e'')]"

definition getXtermTheme :: "string list \<Rightarrow> ITheme" where
  "getXtermTheme htmlClasses = (if ''light'' \<in> set htmlClasses then XTERM_LIGHT else XTERM_DARK)"

definition MAX_BYTES_PER_FRAME :: nat where
  "MAX_BYTES_PER_FRAME = 32768"

text \<open>The status lines, with the values interpolated into them.\<close>

datatype term_line =
    LBanner
  | LConnected string
  | LSentRequest
  | LSendFailed
  | LNoWasm
  | LTrap string
  | LExited (greenCode: bool) (shownCode: "json option")
  | LSocketError
  | LEndedWithError nat string

datatype term_item = TWrite bytes | TLine term_line

datatype readyState = CONNECTING | OPEN | CLOSING | CLOSED

record socket =
  sockUrl :: string
  sockSession :: string
  sockPayload :: "string option"
  sockState :: readyState
  sockSent :: "string list"
  sockInput :: bool

datatype end_outcome =
    EndComplete "json option" json
  | EndError

record terminal =
  xtermRef :: bool
  xtermPending :: "ITheme list"
  xtermTheme :: "ITheme option"
  xtermDisposed :: bool
  initDisposed :: bool
  screen :: "term_item list"
  bufferRef :: "bytes list"
  rafRef :: "nat option"
  frames :: "nat list"
  frameCount :: nat
  pendingBytesRef :: int
  sockets :: "socket list"
  wsRef :: "nat option"
  wsEffect :: "nat option"
  intentionalCloseRef :: bool
  vfsSnapshotRef :: "json option"
  exitCodeRef :: "json option"
  hasTrapRef :: bool
  ended :: "(nat \<times> end_outcome) list"

definition terminal_init :: terminal where
  "terminal_init = \<lparr>xtermRef = False, xtermPending = [], xtermTheme = None, xtermDisposed = False,
     initDisposed = False, screen = [], bufferRef = [], rafRef = None, frames = [], frameCount = 0,
     pendingBytesRef = 0, sockets = [], wsRef = None, wsEffect = None, intentionalCloseRef = False,
     vfsSnapshotRef = None, exitCodeRef = None, hasTrapRef = False, ended = []\<rparr>"

section \<open>Xterm\<close>

text \<open>\<open>xtermRef.current?.writeln(...)\<close> and \<open>term.write(chunk)\<close> for several chunks\<close>

definition writeln :: "term_line \<Rightarrow> terminal \<Rightarrow> terminal" where
  "writeln l s = (if xtermRef s then s\<lparr>screen := screen s @ [TLine l]\<rparr> else s)"

definition write_chunks :: "bytes list \<Rightarrow> terminal \<Rightarrow> terminal" where
  "write_chunks cs s = (if xtermRef s then s\<lparr>screen := screen s @ map TWrite cs\<rparr> else s)"

text \<open>The imports resolve: a terminal is made with the theme of that moment; the frame that fits it
  publishes it and writes the banner.\<close>

definition xterm_loaded :: "string list \<Rightarrow> terminal \<Rightarrow> terminal" where
  "xterm_loaded htmlClasses s =
     (if initDisposed s then s
      else s\<lparr>xtermPending := xtermPending s @ [getXtermTheme htmlClasses]\<rparr>)"

definition xterm_first_fit :: "terminal \<Rightarrow> terminal" where
  "xterm_first_fit s = (case xtermPending s of
       [] \<Rightarrow> s
     | t # ts \<Rightarrow> writeln LBanner (s\<lparr>xtermRef := True, xtermTheme := Some t, xtermPending := ts\<rparr>))"

definition theme_observer :: "string list \<Rightarrow> terminal \<Rightarrow> terminal" where
  "theme_observer htmlClasses s =
     (if xtermRef s then s\<lparr>xtermTheme := Some (getXtermTheme htmlClasses)\<rparr> else s)"

section \<open>The back-pressure buffer\<close>

definition request_frame :: "terminal \<Rightarrow> terminal" where
  "request_frame s = s\<lparr>rafRef := Some (frameCount s), frames := frames s @ [frameCount s],
     frameCount := frameCount s + 1\<rparr>"

definition cancel_frame :: "terminal \<Rightarrow> terminal" where
  "cancel_frame s = (case rafRef s of None \<Rightarrow> s | Some i \<Rightarrow> s\<lparr>frames := removeAll i (frames s)\<rparr>)"

text \<open>The while loop: how many chunks it writes, given how many bytes are written already.\<close>

fun flush_count :: "nat \<Rightarrow> bytes list \<Rightarrow> nat" where
  "flush_count written [] = 0"
| "flush_count written (chunk # cs) =
     (if written < MAX_BYTES_PER_FRAME then Suc (flush_count (written + length chunk) cs) else 0)"

definition flushBuffer :: "terminal \<Rightarrow> terminal" where
  "flushBuffer s =
     (let s0 = s\<lparr>rafRef := None\<rparr> in
      if \<not> xtermRef s0 then s0
      else
        (let n = flush_count 0 (bufferRef s0);
             out = take n (bufferRef s0);
             s1 = (write_chunks out s0)\<lparr>bufferRef := drop n (bufferRef s0),
                    pendingBytesRef := pendingBytesRef s0 - int (length (concat out))\<rparr>
         in if bufferRef s1 \<noteq> [] then request_frame s1 else s1))"

definition enqueue :: "bytes \<Rightarrow> terminal \<Rightarrow> terminal" where
  "enqueue data s =
     (let s1 = s\<lparr>bufferRef := bufferRef s @ [data], pendingBytesRef := pendingBytesRef s + int (length data)\<rparr>
      in if rafRef s1 = None then request_frame s1 else s1)"

text \<open>The synchronous flush of the exit frame and of the cleanup.\<close>

definition flush_all :: "terminal \<Rightarrow> terminal" where
  "flush_all s =
     (let s1 = (cancel_frame s)\<lparr>rafRef := None\<rparr>
      in (write_chunks (bufferRef s1) s1)\<lparr>bufferRef := [], pendingBytesRef := 0\<rparr>)"

definition animation_frame :: "nat \<Rightarrow> terminal \<Rightarrow> terminal" where
  "animation_frame i s = (if i \<in> set (frames s) then flushBuffer (s\<lparr>frames := removeAll i (frames s)\<rparr>) else s)"

section \<open>The WebSocket\<close>

text \<open>\<open>orchestratorBase\<close> is the build-time variable, empty when it is not set; \<open>protocol\<close> and \<open>host\<close>
  are the page's.\<close>

definition ws_url :: "string \<Rightarrow> string \<Rightarrow> string \<Rightarrow> string \<Rightarrow> string" where
  "ws_url orchestratorBase protocol host sessionId =
     (if orchestratorBase \<noteq> [] then
        (if starts_with ''http'' orchestratorBase then ''ws'' @ drop 4 orchestratorBase else orchestratorBase)
        @ ''/ws/execute?session_id='' @ encodeURIComponent sessionId
      else (if protocol = ''https:'' then ''wss'' else ''ws'') @ ''://'' @ host
        @ ''/api/v1/ws/execute?session_id='' @ encodeURIComponent sessionId)"

record page =
  orchestratorBase :: string
  protocol :: string
  host :: string

text \<open>The effect body, with the props of the render that runs it. An empty id is falsy.\<close>

definition ws_effect :: "page \<Rightarrow> bool \<Rightarrow> string option \<Rightarrow> string option \<Rightarrow> terminal \<Rightarrow> terminal" where
  "ws_effect pg running sessionId wasmB64 s = (case sessionId of
       Some (c # cs) \<Rightarrow>
         if \<not> running then s
         else
           (let i = length (sockets s);
                ws = \<lparr>sockUrl = ws_url (orchestratorBase pg) (protocol pg) (host pg) (c # cs),
                       sockSession = c # cs, sockPayload = wasmB64, sockState = CONNECTING,
                       sockSent = [], sockInput = xtermRef s\<rparr>
            in s\<lparr>intentionalCloseRef := False, sockets := sockets s @ [ws], wsRef := Some i, wsEffect := Some i\<rparr>)
     | _ \<Rightarrow> s)"

definition sock_upd :: "nat \<Rightarrow> (socket \<Rightarrow> socket) \<Rightarrow> terminal \<Rightarrow> terminal" where
  "sock_upd i f s = s\<lparr>sockets := (sockets s)[i := f (sockets s ! i)]\<rparr>"

text \<open>\<open>ws.close\<close>: a socket that is still up starts closing.\<close>

definition sock_close :: "nat \<Rightarrow> terminal \<Rightarrow> terminal" where
  "sock_close i s = sock_upd i (\<lambda>w. if sockState w = CLOSED then w else w\<lparr>sockState := CLOSING\<rparr>) s"

text \<open>\<open>ws.send\<close>: throws while connecting (\<open>None\<close>), and drops the data once closing.\<close>

definition sock_send :: "nat \<Rightarrow> string \<Rightarrow> terminal \<Rightarrow> terminal option" where
  "sock_send i data s = (case sockState (sockets s ! i) of
       CONNECTING \<Rightarrow> None
     | OPEN \<Rightarrow> Some (sock_upd i (\<lambda>w. w\<lparr>sockSent := sockSent w @ [data]\<rparr>) s)
     | _ \<Rightarrow> Some s)"

definition execute_payload :: "string \<Rightarrow> string \<Rightarrow> json" where
  "execute_payload wasmPayload sessionId =
     JObj [(''wasm_b64'', JStr wasmPayload), (''label'', JStr (''session-'' @ sessionId)),
       (''session_id'', JStr sessionId), (''timeout_ms'', JNum 30000)]"

definition ws_onopen :: "nat \<Rightarrow> terminal \<Rightarrow> terminal" where
  "ws_onopen i s =
     (let ws = sockets s ! i; s1 = writeln (LConnected (sockSession ws)) s in
      case sockPayload ws of
        Some (c # cs) \<Rightarrow>
          (case sock_send i (stringify (execute_payload (c # cs) (sockSession ws))) s1 of
             Some s2 \<Rightarrow> writeln LSentRequest s2
           | None \<Rightarrow> writeln LSendFailed s1)
      | _ \<Rightarrow> writeln LNoWasm s1)"

datatype ws_frame = BinaryFrame bytes | TextFrame string

text \<open>\<open>x ?? d\<close> on a property of a parsed object\<close>

definition nullish :: "json option \<Rightarrow> json option" where
  "nullish v = (if v = Some JNull then None else v)"

definition exit_frame :: "json \<Rightarrow> terminal \<Rightarrow> terminal" where
  "exit_frame msg s =
     (let s1 = flush_all s;
          s2 = (case jfield ''vfs_snapshot'' msg of
                  Some (JObj fs) \<Rightarrow> s1\<lparr>vfsSnapshotRef := Some (JObj fs)\<rparr>
                | Some (JArr vs) \<Rightarrow> s1\<lparr>vfsSnapshotRef := Some (JArr vs)\<rparr>
                | _ \<Rightarrow> s1);
          s3 = s2\<lparr>exitCodeRef := (case nullish (jfield ''code'' msg) of None \<Rightarrow> Some (JNum 0) | Some c \<Rightarrow> Some c)\<rparr>;
          s4 = (case jfield ''trap'' msg of
                  Some (JStr (c # cs)) \<Rightarrow> writeln (LTrap (c # cs)) (s3\<lparr>hasTrapRef := True\<rparr>)
                | _ \<Rightarrow> s3)
      in writeln (LExited (jfield ''code'' msg = Some (JNum 0)) (nullish (jfield ''code'' msg))) s4)"

text \<open>A text frame is a control frame if it parses; reading a property of \<open>null\<close> throws, like a
  failed parse, and then the frame is output.\<close>

definition ws_onmessage :: "ws_frame \<Rightarrow> terminal \<Rightarrow> terminal" where
  "ws_onmessage data s = (case data of
       BinaryFrame bs \<Rightarrow> enqueue bs s
     | TextFrame t \<Rightarrow>
         (case json_parse t of
            None \<Rightarrow> enqueue t s
          | Some JNull \<Rightarrow> enqueue t s
          | Some msg \<Rightarrow> if jfield ''type'' msg = Some (JStr ''exit'') then exit_frame msg s else s))"

definition ws_onerror :: "terminal \<Rightarrow> terminal" where
  "ws_onerror s = (if intentionalCloseRef s then s else writeln LSocketError s)"

definition on_end :: "nat \<Rightarrow> end_outcome \<Rightarrow> terminal \<Rightarrow> terminal" where
  "on_end i outcome s = s\<lparr>ended := ended s @ [(i, outcome)]\<rparr>"

definition ws_onclose :: "nat \<Rightarrow> nat \<Rightarrow> string \<Rightarrow> terminal \<Rightarrow> terminal" where
  "ws_onclose i code reason s =
     (if intentionalCloseRef s then s
      else if code \<noteq> 1000 then
        on_end i EndError (writeln (LEndedWithError code reason) s)
      else
        (let s1 = (if hasTrapRef s then on_end i EndError s
                   else on_end i (EndComplete (vfsSnapshotRef s)
                     (case exitCodeRef s of None \<Rightarrow> JNum 0 | Some c \<Rightarrow> c)) s)
         in s1\<lparr>vfsSnapshotRef := None, exitCodeRef := None, hasTrapRef := False\<rparr>))"

definition ws_cleanup :: "terminal \<Rightarrow> terminal" where
  "ws_cleanup s = (case wsEffect s of
       None \<Rightarrow> s
     | Some i \<Rightarrow>
         (let s1 = sock_upd i (\<lambda>w. w\<lparr>sockInput := False\<rparr>) s;
              s2 = sock_close i (s1\<lparr>intentionalCloseRef := True\<rparr>)
          in flush_all (s2\<lparr>wsRef := None, wsEffect := None\<rparr>)))"

definition terminal_unmount :: "terminal \<Rightarrow> terminal" where
  "terminal_unmount s =
     (let s1 = ws_cleanup (s\<lparr>initDisposed := True\<rparr>);
          s2 = cancel_frame s1;
          s3 = (case wsRef s2 of None \<Rightarrow> s2 | Some i \<Rightarrow> sock_close i s2)
      in if xtermRef s3 then s3\<lparr>xtermDisposed := True\<rparr> else s3)"

section \<open>Events\<close>

datatype term_event =
    XtermLoaded "string list"
  | XtermFirstFit
  | HtmlClassChanged "string list"
  | PropsChanged bool "string option" "string option"
  | AnimationFrame nat
  | SockOpened nat
  | SockMessage nat ws_frame
  | SockErrored nat
  | SockClosed nat nat string
  | KeyTyped string
  | TermUnmount

definition sock_in :: "terminal \<Rightarrow> nat \<Rightarrow> readyState list \<Rightarrow> bool" where
  "sock_in s i sts \<longleftrightarrow> i < length (sockets s) \<and> sockState (sockets s ! i) \<in> set sts"

definition key_typed :: "string \<Rightarrow> terminal \<Rightarrow> terminal" where
  "key_typed data s = (case wsEffect s of
       None \<Rightarrow> s
     | Some i \<Rightarrow>
         if sockInput (sockets s ! i) \<and> sockState (sockets s ! i) = OPEN
         then (case sock_send i data s of None \<Rightarrow> s | Some s' \<Rightarrow> s')
         else s)"

fun term_step :: "page \<Rightarrow> terminal \<Rightarrow> term_event \<Rightarrow> terminal" where
  "term_step pg s (XtermLoaded cls) = xterm_loaded cls s"
| "term_step pg s XtermFirstFit = xterm_first_fit s"
| "term_step pg s (HtmlClassChanged cls) = theme_observer cls s"
| "term_step pg s (PropsChanged running sessionId wasmB64) =
     ws_effect pg running sessionId wasmB64 (ws_cleanup s)"
| "term_step pg s (AnimationFrame i) = animation_frame i s"
| "term_step pg s (SockOpened i) =
     (if sock_in s i [CONNECTING] then ws_onopen i (sock_upd i (\<lambda>w. w\<lparr>sockState := OPEN\<rparr>) s) else s)"
| "term_step pg s (SockMessage i data) = (if sock_in s i [OPEN] then ws_onmessage data s else s)"
| "term_step pg s (SockErrored i) = (if sock_in s i [CONNECTING, OPEN, CLOSING] then ws_onerror s else s)"
| "term_step pg s (SockClosed i code reason) =
     (if sock_in s i [CONNECTING, OPEN, CLOSING]
      then ws_onclose i code reason (sock_upd i (\<lambda>w. w\<lparr>sockState := CLOSED\<rparr>) s) else s)"
| "term_step pg s (KeyTyped data) = key_typed data s"
| "term_step pg s TermUnmount = terminal_unmount s"

section \<open>The output stream\<close>

text \<open>The raw bytes written to Xterm so far, and those together with the buffered ones.\<close>

definition raw_bytes :: "term_item list \<Rightarrow> bytes" where
  "raw_bytes items = concat (map (\<lambda>x. case x of TWrite b \<Rightarrow> b | TLine l \<Rightarrow> []) items)"

definition stream :: "terminal \<Rightarrow> bytes" where
  "stream s = raw_bytes (screen s) @ concat (bufferRef s)"

lemma raw_bytes_simps [simp]:
  "raw_bytes [] = []" "raw_bytes (xs @ ys) = raw_bytes xs @ raw_bytes ys"
  "raw_bytes [TLine l] = []" "raw_bytes [TWrite b] = b" "raw_bytes (map TWrite cs) = concat cs"
  by (simp_all add: raw_bytes_def comp_def)

text \<open>What the operations do to the refs of the buffer. These equations are used instead of the
  definitions.\<close>

lemma writeln_fields [simp]:
  "xtermRef (writeln l s) = xtermRef s" "bufferRef (writeln l s) = bufferRef s"
  "rafRef (writeln l s) = rafRef s" "frames (writeln l s) = frames s" "frameCount (writeln l s) = frameCount s"
  "pendingBytesRef (writeln l s) = pendingBytesRef s" "sockets (writeln l s) = sockets s"
  "wsRef (writeln l s) = wsRef s" "wsEffect (writeln l s) = wsEffect s"
  "intentionalCloseRef (writeln l s) = intentionalCloseRef s" "vfsSnapshotRef (writeln l s) = vfsSnapshotRef s"
  "exitCodeRef (writeln l s) = exitCodeRef s" "hasTrapRef (writeln l s) = hasTrapRef s"
  "ended (writeln l s) = ended s" "stream (writeln l s) = stream s" "raw_bytes (screen (writeln l s)) = raw_bytes (screen s)"
  by (simp_all add: writeln_def stream_def)

lemma write_chunks_fields [simp]:
  "xtermRef (write_chunks cs s) = xtermRef s" "bufferRef (write_chunks cs s) = bufferRef s"
  "rafRef (write_chunks cs s) = rafRef s" "frames (write_chunks cs s) = frames s"
  "frameCount (write_chunks cs s) = frameCount s" "pendingBytesRef (write_chunks cs s) = pendingBytesRef s"
  "sockets (write_chunks cs s) = sockets s" "wsRef (write_chunks cs s) = wsRef s"
  "wsEffect (write_chunks cs s) = wsEffect s" "intentionalCloseRef (write_chunks cs s) = intentionalCloseRef s"
  "vfsSnapshotRef (write_chunks cs s) = vfsSnapshotRef s" "exitCodeRef (write_chunks cs s) = exitCodeRef s"
  "hasTrapRef (write_chunks cs s) = hasTrapRef s" "ended (write_chunks cs s) = ended s"
  "raw_bytes (screen (write_chunks cs s)) = raw_bytes (screen s) @ (if xtermRef s then concat cs else [])"
  by (simp_all add: write_chunks_def)

lemma frame_fields [simp]:
  "xtermRef (request_frame s) = xtermRef s" "bufferRef (request_frame s) = bufferRef s"
  "pendingBytesRef (request_frame s) = pendingBytesRef s" "screen (request_frame s) = screen s"
  "rafRef (request_frame s) = Some (frameCount s)" "frames (request_frame s) = frames s @ [frameCount s]"
  "frameCount (request_frame s) = Suc (frameCount s)" "sockets (request_frame s) = sockets s"
  "wsRef (request_frame s) = wsRef s" "wsEffect (request_frame s) = wsEffect s"
  "intentionalCloseRef (request_frame s) = intentionalCloseRef s" "ended (request_frame s) = ended s"
  "vfsSnapshotRef (request_frame s) = vfsSnapshotRef s" "exitCodeRef (request_frame s) = exitCodeRef s"
  "hasTrapRef (request_frame s) = hasTrapRef s"
  "xtermRef (cancel_frame s) = xtermRef s" "bufferRef (cancel_frame s) = bufferRef s"
  "pendingBytesRef (cancel_frame s) = pendingBytesRef s" "screen (cancel_frame s) = screen s"
  "rafRef (cancel_frame s) = rafRef s" "frameCount (cancel_frame s) = frameCount s"
  "frames (cancel_frame s) = filter (\<lambda>i. rafRef s \<noteq> Some i) (frames s)"
  "sockets (cancel_frame s) = sockets s" "wsRef (cancel_frame s) = wsRef s"
  "wsEffect (cancel_frame s) = wsEffect s" "intentionalCloseRef (cancel_frame s) = intentionalCloseRef s"
  "vfsSnapshotRef (cancel_frame s) = vfsSnapshotRef s" "exitCodeRef (cancel_frame s) = exitCodeRef s"
  "hasTrapRef (cancel_frame s) = hasTrapRef s" "ended (cancel_frame s) = ended s"
  by (simp_all add: request_frame_def cancel_frame_def removeAll_filter_not_eq split: option.split)

lemma flush_all_fields [simp]:
  "xtermRef (flush_all s) = xtermRef s" "bufferRef (flush_all s) = []" "pendingBytesRef (flush_all s) = 0"
  "rafRef (flush_all s) = None" "frames (flush_all s) = filter (\<lambda>i. rafRef s \<noteq> Some i) (frames s)"
  "frameCount (flush_all s) = frameCount s" "sockets (flush_all s) = sockets s" "wsRef (flush_all s) = wsRef s"
  "wsEffect (flush_all s) = wsEffect s" "intentionalCloseRef (flush_all s) = intentionalCloseRef s"
  "vfsSnapshotRef (flush_all s) = vfsSnapshotRef s" "exitCodeRef (flush_all s) = exitCodeRef s"
  "hasTrapRef (flush_all s) = hasTrapRef s" "ended (flush_all s) = ended s"
  "raw_bytes (screen (flush_all s)) = raw_bytes (screen s) @ (if xtermRef s then concat (bufferRef s) else [])"
  by (simp_all add: flush_all_def Let_def)

lemma sock_fields [simp]:
  "xtermRef (sock_upd i f s) = xtermRef s" "bufferRef (sock_upd i f s) = bufferRef s"
  "pendingBytesRef (sock_upd i f s) = pendingBytesRef s" "screen (sock_upd i f s) = screen s"
  "rafRef (sock_upd i f s) = rafRef s" "frames (sock_upd i f s) = frames s"
  "frameCount (sock_upd i f s) = frameCount s" "wsRef (sock_upd i f s) = wsRef s"
  "wsEffect (sock_upd i f s) = wsEffect s" "intentionalCloseRef (sock_upd i f s) = intentionalCloseRef s"
  "vfsSnapshotRef (sock_upd i f s) = vfsSnapshotRef s" "exitCodeRef (sock_upd i f s) = exitCodeRef s"
  "hasTrapRef (sock_upd i f s) = hasTrapRef s" "ended (sock_upd i f s) = ended s"
  "sockets (sock_upd i f s) = (sockets s)[i := f (sockets s ! i)]"
  by (simp_all add: sock_upd_def)

lemmas sock_close_fields [simp] = sock_fields[of i "\<lambda>w. if sockState w = CLOSED then w else w\<lparr>sockState := CLOSING\<rparr>",
  folded sock_close_def] for i

lemma enqueue_fields [simp]:
  "xtermRef (enqueue d s) = xtermRef s" "bufferRef (enqueue d s) = bufferRef s @ [d]"
  "pendingBytesRef (enqueue d s) = pendingBytesRef s + int (length d)" "screen (enqueue d s) = screen s"
  "sockets (enqueue d s) = sockets s" "wsRef (enqueue d s) = wsRef s" "wsEffect (enqueue d s) = wsEffect s"
  "intentionalCloseRef (enqueue d s) = intentionalCloseRef s" "vfsSnapshotRef (enqueue d s) = vfsSnapshotRef s"
  "exitCodeRef (enqueue d s) = exitCodeRef s" "hasTrapRef (enqueue d s) = hasTrapRef s"
  "ended (enqueue d s) = ended s" "stream (enqueue d s) = stream s @ d"
  by (simp_all add: enqueue_def Let_def stream_def)

lemma flushBuffer_fields [simp]:
  "xtermRef (flushBuffer s) = xtermRef s" "sockets (flushBuffer s) = sockets s" "wsRef (flushBuffer s) = wsRef s"
  "wsEffect (flushBuffer s) = wsEffect s" "intentionalCloseRef (flushBuffer s) = intentionalCloseRef s"
  "vfsSnapshotRef (flushBuffer s) = vfsSnapshotRef s" "exitCodeRef (flushBuffer s) = exitCodeRef s"
  "hasTrapRef (flushBuffer s) = hasTrapRef s" "ended (flushBuffer s) = ended s"
  by (simp_all add: flushBuffer_def Let_def)

lemma flushBuffer_ready:
  assumes "xtermRef s"
  defines "n \<equiv> flush_count 0 (bufferRef s)"
  shows "bufferRef (flushBuffer s) = drop n (bufferRef s)"
    "raw_bytes (screen (flushBuffer s)) = raw_bytes (screen s) @ concat (take n (bufferRef s))"
    "pendingBytesRef (flushBuffer s) = pendingBytesRef s - int (length (concat (take n (bufferRef s))))"
  using assms(1) by (simp_all add: flushBuffer_def Let_def n_def)

lemma stream_flushBuffer: "xtermRef s \<Longrightarrow> stream (flushBuffer s) = stream s"
  by (simp add: stream_def flushBuffer_ready flip: concat_append)

lemma stream_flush_all: "xtermRef s \<Longrightarrow> stream (flush_all s) = stream s"
  by (simp add: stream_def)

lemma exit_frame_fields [simp]:
  "xtermRef (exit_frame m s) = xtermRef s" "bufferRef (exit_frame m s) = []"
  "pendingBytesRef (exit_frame m s) = 0" "rafRef (exit_frame m s) = None"
  "frames (exit_frame m s) = filter (\<lambda>i. rafRef s \<noteq> Some i) (frames s)"
  "frameCount (exit_frame m s) = frameCount s" "sockets (exit_frame m s) = sockets s"
  "wsRef (exit_frame m s) = wsRef s" "wsEffect (exit_frame m s) = wsEffect s"
  "intentionalCloseRef (exit_frame m s) = intentionalCloseRef s" "ended (exit_frame m s) = ended s"
  "raw_bytes (screen (exit_frame m s)) = raw_bytes (screen (flush_all s))"
  unfolding exit_frame_def Let_def
  by (simp_all split: option.split json.split list.split)

lemma sock_send_fields:
  assumes "sock_send i d s = Some s'"
  shows "xtermRef s' = xtermRef s" "bufferRef s' = bufferRef s" "pendingBytesRef s' = pendingBytesRef s"
    "screen s' = screen s" "rafRef s' = rafRef s" "frames s' = frames s" "frameCount s' = frameCount s"
    "wsRef s' = wsRef s" "wsEffect s' = wsEffect s" "intentionalCloseRef s' = intentionalCloseRef s"
    "ended s' = ended s" "length (sockets s') = length (sockets s)"
    "map sockState (sockets s') = map sockState (sockets s)"
proof -
  have "map sockState (sockets (sock_upd i (\<lambda>w. w\<lparr>sockSent := sockSent w @ [d]\<rparr>) s)) = map sockState (sockets s)"
    by (cases "i < length (sockets s)"; rule nth_equalityI) (auto simp: nth_list_update list_update_beyond)
  with assms show "xtermRef s' = xtermRef s" "bufferRef s' = bufferRef s" "pendingBytesRef s' = pendingBytesRef s"
    "screen s' = screen s" "rafRef s' = rafRef s" "frames s' = frames s" "frameCount s' = frameCount s"
    "wsRef s' = wsRef s" "wsEffect s' = wsEffect s" "intentionalCloseRef s' = intentionalCloseRef s"
    "ended s' = ended s" "length (sockets s') = length (sockets s)"
    "map sockState (sockets s') = map sockState (sockets s)"
    by (auto simp: sock_send_def split: readyState.splits)
qed

text \<open>A step either leaves the stream as it is or appends the payload it accepts.\<close>

fun accepted :: "terminal \<Rightarrow> term_event \<Rightarrow> bytes" where
  "accepted s (SockMessage i data) =
     (if sock_in s i [OPEN] then
        (case data of
           BinaryFrame bs \<Rightarrow> bs
         | TextFrame t \<Rightarrow> (case json_parse t of None \<Rightarrow> t | Some JNull \<Rightarrow> t | Some _ \<Rightarrow> []))
      else [])"
| "accepted s _ = []"

text \<open>The contract of such a pipe, and what it gives over a run.\<close>

locale ordered_pipe =
  fixes ready :: "'s \<Rightarrow> bool" and content :: "'s \<Rightarrow> bytes" and step :: "'s \<Rightarrow> 'e \<Rightarrow> 's"
    and takes :: "'s \<Rightarrow> 'e \<Rightarrow> bytes"
  assumes ready_step: "ready s \<Longrightarrow> ready (step s e)"
    and content_step: "ready s \<Longrightarrow> content (step s e) = content s @ takes s e"

sublocale ordered_pipe \<subseteq> machine step ready
  by unfold_locales (rule ready_step)

context ordered_pipe
begin

fun received :: "'s \<Rightarrow> 'e list \<Rightarrow> bytes" where
  "received s [] = []"
| "received s (e # es) = takes s e @ received (step s e) es"

lemma content_run: "ready s \<Longrightarrow> content (foldl step s es) = content s @ received s es"
  by (induction es arbitrary: s) (simp_all add: ready_step content_step)

end

lemma stream_screen: "stream s = raw_bytes (screen s) @ concat (bufferRef s)"
  by (fact stream_def)

lemma ws_cleanup_ready: "xtermRef s \<Longrightarrow> xtermRef (ws_cleanup s) \<and> stream (ws_cleanup s) = stream s"
  by (simp add: ws_cleanup_def Let_def stream_flush_all split: option.split) (simp add: stream_screen)

lemma ws_effect_ready: "xtermRef (ws_effect pg r sid w s) = xtermRef s \<and> stream (ws_effect pg r sid w s) = stream s"
  by (simp add: ws_effect_def stream_screen Let_def split: option.split list.split)

lemma ws_onopen_ready: "xtermRef (ws_onopen i s) = xtermRef s \<and> stream (ws_onopen i s) = stream s"
  unfolding ws_onopen_def Let_def
  by (auto simp: stream_screen sock_send_fields split: option.split list.split)

lemma ws_onclose_ready: "xtermRef (ws_onclose i c r s) = xtermRef s \<and> stream (ws_onclose i c r s) = stream s"
  by (simp add: ws_onclose_def on_end_def stream_screen Let_def)

lemma terminal_unmount_ready: "xtermRef s \<Longrightarrow> xtermRef (terminal_unmount s) \<and> stream (terminal_unmount s) = stream s"
proof -
  assume "xtermRef s"
  then have "xtermRef (s\<lparr>initDisposed := True\<rparr>)" by simp
  from ws_cleanup_ready[OF this] show ?thesis
    by (auto simp: terminal_unmount_def Let_def stream_screen split: option.split)
qed

lemma ws_onmessage_ready:
  assumes "xtermRef s"
  shows "xtermRef (ws_onmessage data s) \<and> stream (ws_onmessage data s) = stream s @
    (case data of BinaryFrame bs \<Rightarrow> bs
     | TextFrame t \<Rightarrow> (case json_parse t of None \<Rightarrow> t | Some JNull \<Rightarrow> t | Some _ \<Rightarrow> []))"
proof (cases data)
  case (TextFrame t)
  have "stream (exit_frame m s) = stream s" for m using assms by (simp add: stream_screen)
  with TextFrame assms show ?thesis
    by (auto simp: ws_onmessage_def split: option.split json.split)
qed (use assms in \<open>simp add: ws_onmessage_def\<close>)

lemma animation_frame_ready:
  "xtermRef s \<Longrightarrow> xtermRef (animation_frame i s) \<and> stream (animation_frame i s) = stream s"
  by (simp add: animation_frame_def stream_flushBuffer) (simp add: stream_screen)

lemma key_typed_ready: "xtermRef (key_typed d s) = xtermRef s \<and> stream (key_typed d s) = stream s"
  by (auto simp: key_typed_def stream_screen sock_send_fields split: option.split)

lemmas ready_lemmas = ws_cleanup_ready ws_effect_ready ws_onopen_ready ws_onclose_ready
  terminal_unmount_ready ws_onmessage_ready animation_frame_ready key_typed_ready

lemma term_step_ready:
  assumes "xtermRef s"
  shows "xtermRef (term_step pg s e) \<and> stream (term_step pg s e) = stream s @ accepted s e"
proof (cases e)
  case (XtermLoaded cls)
  with assms show ?thesis by (simp add: xterm_loaded_def stream_screen)
next
  case XtermFirstFit
  with assms show ?thesis by (simp add: xterm_first_fit_def stream_screen split: list.split)
next
  case (HtmlClassChanged cls)
  with assms show ?thesis by (simp add: theme_observer_def stream_screen)
next
  case (SockOpened i)
  have "stream (sock_upd i f s) = stream s" for f by (simp add: stream_screen)
  with SockOpened assms show ?thesis by (simp add: ready_lemmas)
next
  case (SockClosed i c r)
  have "stream (sock_upd i f s) = stream s" for f by (simp add: stream_screen)
  with SockClosed assms show ?thesis by (simp add: ready_lemmas)
next
  case (SockErrored i)
  with assms show ?thesis by (simp add: ws_onerror_def)
qed (use assms in \<open>simp_all add: ready_lemmas\<close>)

interpretation term_pipe: ordered_pipe xtermRef stream "term_step pg" accepted for pg
  by unfold_locales (simp_all add: term_step_ready)

section \<open>The invariant\<close>

text \<open>
  The pending count is exact; at most one frame is requested, the one \<open>rafRef\<close> names; only the
  socket of the current run of the effect can still be connecting or open; and without a current
  run nothing is buffered and closes count as intentional.
\<close>

definition buf_inv :: "terminal \<Rightarrow> bool" where
  "buf_inv s \<longleftrightarrow> pendingBytesRef s = int (length (concat (bufferRef s))) \<and>
     frames s = (case rafRef s of None \<Rightarrow> [] | Some i \<Rightarrow> [i])"

definition up :: "terminal \<Rightarrow> nat \<Rightarrow> bool" where
  "up s j \<longleftrightarrow> j < length (sockets s) \<and> sockState (sockets s ! j) \<in> {CONNECTING, OPEN}"

definition sock_inv :: "terminal \<Rightarrow> bool" where
  "sock_inv s \<longleftrightarrow> wsRef s = wsEffect s \<and> (\<forall>j. up s j \<longrightarrow> wsEffect s = Some j) \<and>
     (\<forall>i. wsEffect s = Some i \<longrightarrow> Suc i = length (sockets s) \<and> \<not> intentionalCloseRef s) \<and>
     (wsEffect s = None \<longrightarrow> bufferRef s = [] \<and> rafRef s = None \<and> (sockets s \<noteq> [] \<longrightarrow> intentionalCloseRef s))"

definition term_inv :: "terminal \<Rightarrow> bool" where
  "term_inv s \<longleftrightarrow> buf_inv s \<and> sock_inv s"

lemma filter_other [simp]: "filter (\<lambda>i. x \<noteq> Some i) (case x of None \<Rightarrow> [] | Some i \<Rightarrow> [i]) = []"
  by (cases x) simp_all

lemma buf_inv_simps:
  "buf_inv s \<Longrightarrow> buf_inv (writeln l s)" "buf_inv s \<Longrightarrow> buf_inv (flush_all s)"
  "buf_inv s \<Longrightarrow> buf_inv (exit_frame m s)" "buf_inv s \<Longrightarrow> buf_inv (sock_upd i f s)"
  "buf_inv s \<Longrightarrow> buf_inv (sock_close i s)"
  "buf_inv s \<Longrightarrow> buf_inv (enqueue d s)"
  by (simp_all add: buf_inv_def enqueue_def Let_def)

lemma buf_inv_flushBuffer:
  assumes "pendingBytesRef s = int (length (concat (bufferRef s)))" "frames s = []"
  shows "buf_inv (flushBuffer s)"
proof -
  let ?n = "flush_count 0 (bufferRef s)"
  have "length (concat (bufferRef s)) = length (concat (take ?n (bufferRef s))) + length (concat (drop ?n (bufferRef s)))"
    by (metis append_take_drop_id concat_append length_append)
  then have "int (length (concat (bufferRef s))) - int (length (concat (take ?n (bufferRef s))))
      = int (length (concat (drop ?n (bufferRef s))))"
    by linarith
  with assms show ?thesis
    by (simp only: buf_inv_def flushBuffer_def Let_def) simp
qed

lemma buf_inv_animation_frame: "buf_inv s \<Longrightarrow> buf_inv (animation_frame i s)"
proof (cases "i \<in> set (frames s)")
  case True
  assume inv: "buf_inv s"
  with True have "removeAll i (frames s) = []" by (auto simp: buf_inv_def split: option.splits)
  with inv True show ?thesis by (simp add: animation_frame_def buf_inv_flushBuffer buf_inv_def[of s])
qed (simp add: animation_frame_def)

lemma buf_inv_cleanup: "buf_inv s \<Longrightarrow> buf_inv (ws_cleanup s)"
proof -
  assume inv: "buf_inv s"
  have "buf_inv (flush_all (u\<lparr>wsRef := None, wsEffect := None\<rparr>))" if "buf_inv u" for u
    using that by (simp add: buf_inv_def)
  moreover have "buf_inv (s'\<lparr>intentionalCloseRef := b\<rparr>)" if "buf_inv s'" for s' b
    using that by (simp add: buf_inv_def)
  ultimately show ?thesis using inv
    by (simp add: ws_cleanup_def Let_def buf_inv_simps split: option.split)
qed

lemma buf_inv_unmount:
  assumes "term_inv s"
  shows "buf_inv (terminal_unmount s)"
proof -
  let ?u = "ws_cleanup (s\<lparr>initDisposed := True\<rparr>)"
  have "buf_inv (s\<lparr>initDisposed := True\<rparr>)" using assms by (simp add: term_inv_def buf_inv_def)
  then have inv: "buf_inv ?u" by (rule buf_inv_cleanup)
  have "rafRef ?u = None" using assms
    by (simp add: term_inv_def sock_inv_def ws_cleanup_def Let_def split: option.split)
  with inv have "buf_inv (cancel_frame ?u)" by (simp add: buf_inv_def)
  moreover have "buf_inv (s'\<lparr>xtermDisposed := b\<rparr>)" if "buf_inv s'" for s' b
    using that by (simp add: buf_inv_def)
  ultimately show ?thesis
    by (simp add: terminal_unmount_def Let_def buf_inv_simps split: option.split)
qed

text \<open>The invariant of the sockets only reads these refs.\<close>

lemma sock_inv_frame:
  assumes "sock_inv s" "wsRef s' = wsRef s" "wsEffect s' = wsEffect s"
    "intentionalCloseRef s' = intentionalCloseRef s" "map sockState (sockets s') = map sockState (sockets s)"
    "wsEffect s = None \<Longrightarrow> bufferRef s' = [] \<and> rafRef s' = None"
  shows "sock_inv s'"
proof -
  have len: "length (sockets s') = length (sockets s)" using assms(5) by (metis length_map)
  have st: "sockState (sockets s' ! j) = sockState (sockets s ! j)" if "j < length (sockets s)" for j
    using assms(5) that len by (metis nth_map)
  then have "up s' j = up s j" for j by (auto simp: up_def len)
  moreover have "sockets s' \<noteq> [] \<longleftrightarrow> sockets s \<noteq> []" using len by auto
  ultimately show ?thesis using assms by (simp add: sock_inv_def len)
qed

lemma sock_inv_lower:
  assumes "sock_inv s" "f (sockets s ! i) = w" "sockState w \<in> {CLOSING, CLOSED}"
  shows "sock_inv (sock_upd i f s)"
proof -
  have "up (sock_upd i f s) j \<Longrightarrow> up s j" for j
    using assms(2,3) by (cases "i = j") (auto simp: up_def)
  with assms(1) show ?thesis by (auto simp: sock_inv_def)
qed

lemma sock_inv_cleanup:
  assumes "sock_inv s"
  shows "sock_inv (ws_cleanup s) \<and> wsEffect (ws_cleanup s) = None \<and>
    length (sockets (ws_cleanup s)) = length (sockets s)"
proof (cases "wsEffect s")
  case None
  with assms show ?thesis by (simp add: ws_cleanup_def)
next
  case (Some i)
  with assms have i: "i < length (sockets s)" and only: "\<And>j. up s j \<Longrightarrow> j = i"
    by (auto simp: sock_inv_def)
  have "\<not> up (ws_cleanup s) j" for j
    using i only[of j] by (auto simp: ws_cleanup_def Some Let_def up_def sock_close_def nth_list_update split: if_splits)
  then show ?thesis by (simp add: sock_inv_def) (simp add: ws_cleanup_def Some Let_def)
qed

lemma sock_inv_effect:
  assumes "sock_inv s" "wsEffect s = None"
  shows "sock_inv (ws_effect pg r sid w s)"
proof -
  have "\<not> up s j" for j using assms by (auto simp: sock_inv_def)
  then have "up (ws_effect pg r sid w s) j \<Longrightarrow> wsEffect (ws_effect pg r sid w s) = Some j" for j
    by (auto simp: ws_effect_def Let_def up_def nth_append less_Suc_eq split: option.splits list.splits if_splits)
  with assms show ?thesis
    by (auto simp: sock_inv_def ws_effect_def Let_def split: option.split list.split if_splits)
qed

lemma sock_inv_open:
  assumes "sock_inv s" "sock_in s i [CONNECTING]"
  shows "sock_inv (ws_onopen i (sock_upd i (\<lambda>w. w\<lparr>sockState := OPEN\<rparr>) s))"
proof -
  let ?u = "sock_upd i (\<lambda>w. w\<lparr>sockState := OPEN\<rparr>) s"
  have "up ?u j \<Longrightarrow> up s j" for j
    using assms(2) by (auto simp: up_def sock_in_def nth_list_update split: if_splits)
  with assms(1) have inv: "sock_inv ?u" by (auto simp: sock_inv_def)
  have fr: "wsRef (ws_onopen i u) = wsRef u" "wsEffect (ws_onopen i u) = wsEffect u"
    "intentionalCloseRef (ws_onopen i u) = intentionalCloseRef u"
    "map sockState (sockets (ws_onopen i u)) = map sockState (sockets u)"
    "bufferRef (ws_onopen i u) = bufferRef u" "rafRef (ws_onopen i u) = rafRef u" for u
    unfolding ws_onopen_def Let_def
    by (auto simp: sock_send_fields split: option.split list.split)
  show ?thesis
    by (rule sock_inv_frame[OF inv fr(1-4)]) (use inv in \<open>simp add: fr sock_inv_def\<close>)
qed

lemma sock_inv_message:
  assumes "sock_inv s" "sock_in s i [OPEN]"
  shows "sock_inv (ws_onmessage data s)"
proof -
  have "up s i" using assms(2) by (auto simp: up_def sock_in_def)
  with assms(1) have "wsEffect s = Some i" by (simp add: sock_inv_def)
  then show ?thesis
    by (intro sock_inv_frame[OF assms(1)])
       (auto simp: ws_onmessage_def split: ws_frame.split option.split json.split)
qed

lemma sock_inv_closed:
  assumes "sock_inv s"
  shows "sock_inv (ws_onclose i c r (sock_upd i (\<lambda>w. w\<lparr>sockState := CLOSED\<rparr>) s))"
proof -
  let ?u = "sock_upd i (\<lambda>w. w\<lparr>sockState := CLOSED\<rparr>) s"
  have inv: "sock_inv ?u" by (rule sock_inv_lower[OF assms refl]) simp
  then show ?thesis
    by (rule sock_inv_frame) (use inv in \<open>auto simp: ws_onclose_def on_end_def Let_def sock_inv_def\<close>)
qed

lemma sock_inv_unmount:
  assumes "sock_inv s"
  shows "sock_inv (terminal_unmount s)"
proof -
  have "sock_inv (s\<lparr>initDisposed := True\<rparr>)" by (rule sock_inv_frame[OF assms]) (use assms in \<open>auto simp: sock_inv_def\<close>)
  from sock_inv_cleanup[OF this] have inv: "sock_inv (ws_cleanup (s\<lparr>initDisposed := True\<rparr>))"
    and none: "wsEffect (ws_cleanup (s\<lparr>initDisposed := True\<rparr>)) = None" by simp_all
  then have "wsRef (ws_cleanup (s\<lparr>initDisposed := True\<rparr>)) = None" by (simp add: sock_inv_def)
  with inv show ?thesis
    by (intro sock_inv_frame[OF inv]) (auto simp: terminal_unmount_def Let_def sock_inv_def)
qed

lemma sock_inv_flush:
  assumes "term_inv s"
  shows "sock_inv (animation_frame i s)"
proof (cases "i \<in> set (frames s)")
  case True
  with assms have "wsEffect s \<noteq> None" by (auto simp: term_inv_def buf_inv_def sock_inv_def)
  moreover have "sock_inv s" using assms by (simp add: term_inv_def)
  ultimately show ?thesis
    by (rule_tac sock_inv_frame[of s]) (simp_all add: animation_frame_def True)
qed (use assms in \<open>simp add: animation_frame_def term_inv_def\<close>)

lemma term_inv_init: "term_inv terminal_init"
  by (simp add: term_inv_def buf_inv_def sock_inv_def terminal_init_def up_def)

lemma sock_inv_key: "sock_inv s \<Longrightarrow> sock_inv (key_typed d s)"
  by (rule sock_inv_frame[of s]) (auto simp: key_typed_def sock_send_fields sock_inv_def split: option.split)

lemma buf_inv_key: "buf_inv s \<Longrightarrow> buf_inv (key_typed d s)"
  by (auto simp: key_typed_def buf_inv_def sock_send_fields split: option.split)

lemma buf_inv_open: "buf_inv s \<Longrightarrow> buf_inv (ws_onopen i s)"
  unfolding ws_onopen_def Let_def
  by (auto simp: buf_inv_def sock_send_fields split: option.split list.split)

lemma term_inv_same:
  "\<lbrakk>term_inv s; bufferRef s' = bufferRef s; pendingBytesRef s' = pendingBytesRef s; frames s' = frames s;
    rafRef s' = rafRef s; wsRef s' = wsRef s; wsEffect s' = wsEffect s;
    intentionalCloseRef s' = intentionalCloseRef s; sockets s' = sockets s\<rbrakk> \<Longrightarrow> term_inv s'"
  by (simp add: term_inv_def buf_inv_def sock_inv_def up_def)

lemma term_inv_step:
  assumes "term_inv s"
  shows "term_inv (term_step pg s e)"
proof -
  have b: "buf_inv s" and k: "sock_inv s" using assms by (simp_all add: term_inv_def)
  show ?thesis
  proof (cases e)
    case (XtermLoaded cls)
    with assms show ?thesis by (intro term_inv_same[OF assms]) (simp_all add: xterm_loaded_def)
  next
    case XtermFirstFit
    with assms show ?thesis
      by (intro term_inv_same[OF assms]) (simp_all add: xterm_first_fit_def split: list.split)
  next
    case (HtmlClassChanged cls)
    with assms show ?thesis by (intro term_inv_same[OF assms]) (simp_all add: theme_observer_def)
  next
    case (PropsChanged r sid w)
    have "buf_inv (ws_effect pg r sid w u)" if "buf_inv u" for u
      using that by (simp add: ws_effect_def buf_inv_def Let_def split: option.split list.split)
    with PropsChanged buf_inv_cleanup[OF b] sock_inv_cleanup[OF k] show ?thesis
      by (simp add: term_inv_def sock_inv_effect)
  next
    case (AnimationFrame i)
    with b assms show ?thesis by (simp add: term_inv_def[of "animation_frame i s"] buf_inv_animation_frame sock_inv_flush)
  next
    case (SockOpened i)
    with b k show ?thesis by (simp add: term_inv_def sock_inv_open buf_inv_open buf_inv_simps)
  next
    case (SockMessage i data)
    with b k show ?thesis
      by (auto simp: term_inv_def sock_inv_message) (auto simp: ws_onmessage_def buf_inv_simps
           split: ws_frame.split option.split json.split)
  next
    case (SockErrored i)
    with assms show ?thesis by (intro term_inv_same[OF assms]) (simp_all add: ws_onerror_def)
  next
    case (SockClosed i c r)
    with b k show ?thesis
      by (auto simp: term_inv_def sock_inv_closed) (auto simp: ws_onclose_def buf_inv_def on_end_def Let_def)
  next
    case (KeyTyped d)
    with b k show ?thesis by (simp add: term_inv_def sock_inv_key buf_inv_key)
  next
    case TermUnmount
    with assms k show ?thesis by (simp add: term_inv_def[of "terminal_unmount s"] buf_inv_unmount sock_inv_unmount)
  qed
qed

interpretation term_machine: started_machine "term_step pg" term_inv terminal_init for pg
  by unfold_locales (rule term_inv_step, assumption, rule term_inv_init)

section \<open>Flushing\<close>

lemma flush_count_le: "flush_count w cs \<le> length cs"
  by (induction w cs rule: flush_count.induct) auto

lemma flush_count_budget:
  "0 < flush_count w cs \<Longrightarrow> w + length (concat (take (flush_count w cs - 1) cs)) < MAX_BYTES_PER_FRAME"
proof (induction w cs rule: flush_count.induct)
  case (2 w c cs)
  then show ?case by (cases "flush_count (w + length c) cs") (auto split: if_splits)
qed simp

lemma flush_count_full:
  "flush_count w cs < length cs \<Longrightarrow> MAX_BYTES_PER_FRAME \<le> w + length (concat (take (flush_count w cs) cs))"
  by (induction w cs rule: flush_count.induct) (auto split: if_splits)

text \<open>The browser runs the requested frame, if there is one.\<close>

definition next_frame :: "terminal \<Rightarrow> terminal" where
  "next_frame s = (case rafRef s of None \<Rightarrow> s | Some i \<Rightarrow> animation_frame i s)"

lemma next_frame_flush:
  assumes "term_inv s" "rafRef s = Some i"
  shows "next_frame s = flushBuffer (s\<lparr>frames := []\<rparr>)"
  using assms by (simp add: next_frame_def animation_frame_def term_inv_def buf_inv_def)

lemma next_frame_inv: "term_inv s \<Longrightarrow> term_inv (next_frame s)"
  using term_inv_step[of s undefined "AnimationFrame i" for i]
  by (auto simp: next_frame_def split: option.split)

lemma next_frame_ready: "xtermRef s \<Longrightarrow> xtermRef (next_frame s) \<and> stream (next_frame s) = stream s"
  by (simp add: next_frame_def animation_frame_ready split: option.split)

text \<open>Every frame empties the buffer or writes a full budget, and asks for the next frame as long as
  something is left.\<close>

lemma next_frame_progress:
  assumes "term_inv s" "xtermRef s" "rafRef s \<noteq> None"
  shows "bufferRef (next_frame s) = [] \<or>
    (rafRef (next_frame s) \<noteq> None \<and>
     length (concat (bufferRef (next_frame s))) + MAX_BYTES_PER_FRAME \<le> length (concat (bufferRef s)))"
proof -
  let ?s = "s\<lparr>frames := []\<rparr>" and ?n = "flush_count 0 (bufferRef s)"
  obtain i where "rafRef s = Some i" using assms(3) by auto
  with assms(1) have eq: "next_frame s = flushBuffer ?s" by (rule next_frame_flush)
  have buf: "bufferRef (next_frame s) = drop ?n (bufferRef s)" using assms(2) by (simp add: eq flushBuffer_ready)
  have "length (concat (bufferRef s)) = length (concat (take ?n (bufferRef s))) + length (concat (drop ?n (bufferRef s)))"
    by (metis append_take_drop_id concat_append length_append)
  moreover have "MAX_BYTES_PER_FRAME \<le> length (concat (take ?n (bufferRef s)))" if "drop ?n (bufferRef s) \<noteq> []"
    using flush_count_full[of 0 "bufferRef s"] that by simp
  moreover have "rafRef (next_frame s) \<noteq> None" if "drop ?n (bufferRef s) \<noteq> []"
    using assms(2) that by (simp add: eq flushBuffer_def Let_def)
  ultimately show ?thesis unfolding buf by linarith
qed

lemma next_frame_empty: "term_inv s \<Longrightarrow> bufferRef s = [] \<Longrightarrow> bufferRef (next_frame s) = []"
  by (cases "rafRef s") (simp_all add: next_frame_def animation_frame_def flushBuffer_def Let_def)

lemma frames_drain:
  "\<lbrakk>term_inv s; xtermRef s; rafRef s \<noteq> None; length (concat (bufferRef s)) < n * MAX_BYTES_PER_FRAME\<rbrakk>
    \<Longrightarrow> bufferRef ((next_frame ^^ n) s) = []"
proof (induction n arbitrary: s)
  case (Suc n)
  have inv: "term_inv (next_frame s)" "xtermRef (next_frame s)"
    using Suc.prems by (simp_all add: next_frame_inv next_frame_ready)
  have "bufferRef ((next_frame ^^ n) (next_frame s)) = []"
  proof (cases "bufferRef (next_frame s) = []")
    case True
    then have "term_inv ((next_frame ^^ m) (next_frame s)) \<and> bufferRef ((next_frame ^^ m) (next_frame s)) = []" for m
      using inv by (induction m) (simp_all add: next_frame_inv next_frame_empty)
    then show ?thesis by simp
  next
    case False
    with next_frame_progress[OF Suc.prems(1-3)] Suc.prems(4) show ?thesis
      by (intro Suc.IH inv) auto
  qed
  then show ?case by (simp add: funpow_swap1)
qed simp

lemma frames_ready: "xtermRef s \<Longrightarrow> xtermRef ((next_frame ^^ n) s) \<and> stream ((next_frame ^^ n) s) = stream s"
  by (induction n) (simp_all add: next_frame_ready)

text \<open>Once Xterm is ready, what is buffered has its frame: every event that leaves something in the buffer
  has requested one.\<close>

definition frame_due :: "terminal \<Rightarrow> bool" where
  "frame_due s \<longleftrightarrow> bufferRef s = [] \<or> rafRef s \<noteq> None"

lemma frame_due_same: "\<lbrakk>frame_due s; bufferRef s' = bufferRef s; rafRef s' = rafRef s\<rbrakk> \<Longrightarrow> frame_due s'"
  by (simp add: frame_due_def)

lemma frame_due_ops:
  "frame_due (enqueue d s)" "frame_due (flush_all s)" "frame_due (exit_frame m s)" "xtermRef s \<Longrightarrow> frame_due (flushBuffer s)"
  by (simp_all add: frame_due_def) (simp_all add: enqueue_def flushBuffer_def Let_def)

lemma frame_due_send: "\<lbrakk>frame_due s; sock_send i d s = Some s'\<rbrakk> \<Longrightarrow> frame_due s'"
  using sock_send_fields(2,5)[of i d s s'] by (auto intro: frame_due_same)

lemma frame_due_handlers:
  assumes "frame_due s"
  shows "frame_due (writeln l s)" "frame_due (sock_upd i f s)" "frame_due (ws_onopen i s)" "frame_due (ws_onmessage x s)"
    "frame_due (ws_onerror s)" "frame_due (ws_onclose i c r s)" "frame_due (ws_effect pg run sid w s)" "frame_due (ws_cleanup s)"
    "frame_due (key_typed d s)"
proof -
  show w: "frame_due (writeln l s)" for l using assms by (rule frame_due_same) simp_all
  show "frame_due (sock_upd i f s)" using assms by (rule frame_due_same) simp_all
  show "frame_due (ws_onopen i s)"
    using frame_due_send[OF w] frame_due_same[OF w] frame_due_same[OF frame_due_send[OF w]]
    by (simp add: ws_onopen_def Let_def split: option.split list.split)
  show "frame_due (ws_onmessage x s)" using assms frame_due_ops
    by (simp add: ws_onmessage_def split: option.split json.split ws_frame.split)
  show "frame_due (ws_onerror s)" using assms w by (simp add: ws_onerror_def)
  show "frame_due (ws_onclose i c r s)" using assms by (rule frame_due_same) (simp_all add: ws_onclose_def on_end_def Let_def)
  show "frame_due (ws_effect pg run sid w s)" using assms
    by (rule frame_due_same) (simp_all add: ws_effect_def Let_def split: option.split list.split)
  show "frame_due (ws_cleanup s)" using assms frame_due_ops by (simp add: ws_cleanup_def Let_def split: option.split)
  show "frame_due (key_typed d s)" using assms frame_due_send by (simp add: key_typed_def split: option.split)
qed

lemma frame_due_step: "\<lbrakk>xtermRef s; frame_due s\<rbrakk> \<Longrightarrow> frame_due (term_step pg s e)"
proof (cases e)
  case (AnimationFrame i)
  assume "xtermRef s" "frame_due s"
  then show ?thesis using AnimationFrame by (simp add: animation_frame_def frame_due_ops)
next
  case TermUnmount
  assume "frame_due s"
  then have "frame_due (ws_cleanup (s\<lparr>initDisposed := True\<rparr>))" by (intro frame_due_handlers) (simp add: frame_due_def)
  then show ?thesis using TermUnmount by (simp add: terminal_unmount_def Let_def frame_due_def split: option.split)
next
  case XtermFirstFit
  assume "frame_due s"
  then show ?thesis using XtermFirstFit by (simp add: xterm_first_fit_def frame_due_def split: list.split)
qed (simp_all add: frame_due_handlers, simp_all add: xterm_loaded_def theme_observer_def frame_due_def)

lemma frame_due_run: "\<lbrakk>xtermRef s; frame_due s\<rbrakk> \<Longrightarrow> xtermRef (foldl (term_step pg) s es) \<and> frame_due (foldl (term_step pg) s es)"
  by (rule foldl_keeps) (simp_all add: term_step_ready frame_due_step del: term_step.simps)

lemma frames_drain_empty: "\<lbrakk>term_inv s; bufferRef s = []\<rbrakk> \<Longrightarrow> bufferRef ((next_frame ^^ n) s) = []"
proof -
  assume "term_inv s" "bufferRef s = []"
  then have "term_inv ((next_frame ^^ n) s) \<and> bufferRef ((next_frame ^^ n) s) = []"
    by (induction n) (simp_all add: next_frame_inv next_frame_empty)
  then show ?thesis ..
qed

lemma due_drains:
  assumes "term_inv s" "xtermRef s" "frame_due s" "n = nat (pendingBytesRef s) div 32768 + 1"
  shows "bufferRef ((next_frame ^^ n) s) = [] \<and>
    raw_bytes (screen ((next_frame ^^ n) s)) = raw_bytes (screen s) @ concat (bufferRef s)"
proof -
  have "nat (pendingBytesRef s) = length (concat (bufferRef s))" using assms(1) by (simp add: term_inv_def buf_inv_def)
  then have "length (concat (bufferRef s)) < n * MAX_BYTES_PER_FRAME"
    using div_less_iff_less_mult[of 32768 "length (concat (bufferRef s))" n] assms(4)
    by (simp add: MAX_BYTES_PER_FRAME_def)
  then have "bufferRef ((next_frame ^^ n) s) = []"
    using assms(1-3) frames_drain frames_drain_empty by (auto simp: frame_due_def)
  with frames_ready[OF assms(2), of n] show ?thesis by (simp add: stream_screen)
qed

section \<open>Properties\<close>

fun received_bytes :: "page \<Rightarrow> terminal \<Rightarrow> term_event list \<Rightarrow> bytes" where
  "received_bytes pg s [] = []"
| "received_bytes pg s (e # es) = accepted s e @ received_bytes pg (term_step pg s e) es"

lemma received_bytes_pipe: "received_bytes pg s es = term_pipe.received pg s es"
  by (induction es arbitrary: s) simp_all

definition demo_page :: page where
  "demo_page = \<lparr>orchestratorBase = ''http://localhost:8080'', protocol = ''http:'', host = ''localhost:3000''\<rparr>"

text \<open>A run up to the open socket of session \<open>s1\<close>, Xterm being ready.\<close>

definition demo_open :: "term_event list" where
  "demo_open = [XtermLoaded [], XtermFirstFit, PropsChanged True (Some ''s1'') (Some ''AGFzbQ==''), SockOpened 0]"

definition demo_term :: terminal where
  "demo_term = foldl (term_step demo_page) terminal_init demo_open"

text \<open>C4: From any state in which Xterm is ready, through any interleaving of socket, frame, prop and
  unmount events, what Xterm was given followed by what is still buffered is exactly what was there
  before followed by the payloads received, byte for byte and in order: output is never lost,
  duplicated or reordered by the back-pressure buffer, the exit frame, the cleanup or the unmount.\<close>

theorem terminal_output_lossless:
  assumes "xtermRef s"
  shows "stream (foldl (term_step pg) s es) = stream s @ received_bytes pg s es"
  unfolding received_bytes_pipe by (rule term_pipe.content_run[OF assms])

theorem terminal_output_lossless_witness:
  "stream (foldl (term_step demo_page) demo_term
     [SockMessage 0 (BinaryFrame ''ab''), SockMessage 0 (TextFrame ''c d''), AnimationFrame 0,
      SockMessage 0 (BinaryFrame ''e''), PropsChanged False None None, SockMessage 0 (BinaryFrame ''x'')])
   = ''abc de''"
proof -
  have ready: "xtermRef demo_term" by code_simp
  have "stream demo_term = []" by code_simp
  moreover have "received_bytes demo_page demo_term
     [SockMessage 0 (BinaryFrame ''ab''), SockMessage 0 (TextFrame ''c d''), AnimationFrame 0,
      SockMessage 0 (BinaryFrame ''e''), PropsChanged False None None, SockMessage 0 (BinaryFrame ''x'')] = ''abc de''"
    by code_simp
  ultimately show ?thesis by (simp only: terminal_output_lossless[OF ready] append_Nil)
qed

text \<open>C8: Once Xterm is ready and nothing is left from before, output always gets through: in every state that
  any events lead to from there, the buffer drains without further input within
  \<open>pending div 32768 + 1\<close> animation frames, and then everything that was buffered has been written.\<close>

theorem terminal_drains:
  assumes "s0 = foldl (term_step pg) terminal_init es0" "xtermRef s0" "bufferRef s0 = []"
    and "s = foldl (term_step pg) s0 es" "n = nat (pendingBytesRef s) div 32768 + 1"
  shows "bufferRef ((next_frame ^^ n) s) = [] \<and>
    raw_bytes (screen ((next_frame ^^ n) s)) = raw_bytes (screen s) @ concat (bufferRef s)"
proof (rule due_drains[OF _ _ _ assms(5)])
  have "s = foldl (term_step pg) terminal_init (es0 @ es)" by (simp add: assms(1,4))
  then show "term_inv s" using term_machine.reachable_inv by metis
  show "xtermRef s" "frame_due s" unfolding assms(4) using frame_due_run[OF assms(2)] assms(3) by (simp_all add: frame_due_def)
qed

theorem terminal_drains_witness:
  "bufferRef ((next_frame ^^ 1) (foldl (term_step demo_page)
     (foldl (term_step demo_page) terminal_init [XtermLoaded [], XtermFirstFit])
     [PropsChanged True (Some ''s1'') None, SockOpened 0, SockMessage 0 (BinaryFrame ''ab'')])) = []"
proof -
  let ?ready = "foldl (term_step demo_page) terminal_init [XtermLoaded [], XtermFirstFit]"
  let ?s = "foldl (term_step demo_page) ?ready [PropsChanged True (Some ''s1'') None, SockOpened 0, SockMessage 0 (BinaryFrame ''ab'')]"
  have x: "xtermRef ?ready" by code_simp
  have b: "bufferRef ?ready = []" by code_simp
  have n: "1 = nat (pendingBytesRef ?s) div 32768 + 1" by code_simp
  show ?thesis using terminal_drains[OF refl x b refl n] by (rule conjunct1)
qed

text \<open>C39: Output that arrives while Xterm is being loaded gets stuck: its frame finds no Xterm and is not
  requested again, and then the buffer stays as it is, however many frames pass, although Xterm has been loaded and
  become ready; when more output arrives, a frame is requested, and then both are written.\<close>

theorem early_frame_stalls:
  assumes s0: "s0 = foldl (term_step pg) terminal_init es" "\<not> xtermRef s0" "rafRef s0 = Some r"
      "\<not> initDisposed s0" "xtermPending s0 = []"
    and s: "s = foldl (term_step pg) s0 [AnimationFrame r, XtermLoaded cls, XtermFirstFit]"
    and later: "sock_in s i [OPEN]" "s' = term_step pg s (SockMessage i (BinaryFrame b))" "n = nat (pendingBytesRef s') div 32768 + 1"
  shows "xtermRef s \<and> (next_frame ^^ k) s = s \<and> bufferRef s = bufferRef s0 \<and>
    raw_bytes (screen ((next_frame ^^ n) s')) = raw_bytes (screen s) @ concat (bufferRef s0) @ b"
proof -
  have inv: "term_inv s0" unfolding s0(1) by (rule term_machine.reachable_inv)
  then have "frames s0 = [r]" using s0(3) by (simp add: term_inv_def buf_inv_def)
  then have "animation_frame r s0 = s0\<lparr>frames := [], rafRef := None\<rparr>"
    using s0(2) by (simp add: animation_frame_def flushBuffer_def)
  then have s_eq: "s = writeln LBanner (s0\<lparr>frames := [], rafRef := None, xtermRef := True, xtermTheme := Some (getXtermTheme cls), xtermPending := []\<rparr>)"
    using s0(4,5) by (simp add: s xterm_loaded_def xterm_first_fit_def)
  have f: "xtermRef s" "rafRef s = None" "bufferRef s = bufferRef s0" by (simp_all add: s_eq)
  have "next_frame s = s" by (simp add: next_frame_def f(2))
  then have stuck: "(next_frame ^^ k) s = s" by (induction k) simp_all
  have "term_inv s" unfolding s using inv by (intro term_machine.inv_run)
  then have inv': "term_inv s'" unfolding later(2) by (rule term_inv_step)
  have s': "s' = enqueue b s" using later(1,2) by (simp add: ws_onmessage_def)
  have "raw_bytes (screen ((next_frame ^^ n) s')) = raw_bytes (screen s') @ concat (bufferRef s')"
    using due_drains[OF inv' _ _ later(3)] f(1) frame_due_ops(1)[of b s] by (simp add: s')
  then show ?thesis using f stuck by (simp add: s')
qed

theorem early_frame_stalls_witness:
  "bufferRef ((next_frame ^^ 1000) (foldl (term_step demo_page) (foldl (term_step demo_page) terminal_init
     [PropsChanged True (Some ''s1'') None, SockOpened 0, SockMessage 0 (BinaryFrame ''hi'')])
     [AnimationFrame 0, XtermLoaded [], XtermFirstFit])) = [''hi'']"
proof -
  let ?s = "foldl (term_step demo_page) terminal_init
     [PropsChanged True (Some ''s1'') None, SockOpened 0, SockMessage 0 (BinaryFrame ''hi'')]"
  have s: "\<not> xtermRef ?s" "rafRef ?s = Some 0" "\<not> initDisposed ?s" "xtermPending ?s = []" "bufferRef ?s = [''hi'']" by code_simp+
  have "sock_in (foldl (term_step demo_page) ?s [AnimationFrame 0, XtermLoaded [], XtermFirstFit]) 0 [OPEN]" by code_simp
  from early_frame_stalls[OF refl s(1-4) refl this refl refl, of 1000 "[]"] s(5) show ?thesis by (simp del: term_step.simps foldl.simps)
qed

text \<open>One animation frame writes chunks until the budget of 32768 bytes is reached: all its chunks but
  the last stay below the budget, it stops early only when the buffer is empty, and a single chunk is
  never split, so the last one may exceed the budget by any amount.\<close>

theorem flush_budget:
  "(\<forall>cs n. n = flush_count 0 cs \<longrightarrow>
      (n \<noteq> 0 \<longrightarrow> length (concat (take (n - 1) cs)) < 32768) \<and>
      (n < length cs \<longrightarrow> 32768 \<le> length (concat (take n cs)))) \<and>
   (\<forall>c. flush_count 0 [c] = 1)"
proof -
  have "length (concat (take (flush_count 0 cs - 1) cs)) < 32768" if "flush_count 0 cs \<noteq> 0" for cs
    using flush_count_budget[of 0 cs] that by (simp add: MAX_BYTES_PER_FRAME_def)
  moreover have "32768 \<le> length (concat (take (flush_count 0 cs) cs))" if "flush_count 0 cs < length cs" for cs
    using flush_count_full[of 0 cs] that by (simp add: MAX_BYTES_PER_FRAME_def)
  ultimately show ?thesis by (simp add: MAX_BYTES_PER_FRAME_def)
qed

theorem flush_budget_witness:
  "length (concat (take (flush_count 0 [''ab'', ''c''] - 1) [''ab'', ''c''])) < (32768 :: nat)"
proof -
  have "flush_count 0 [''ab'', ''c''] \<noteq> 0" by code_simp
  then show ?thesis using conjunct1[OF flush_budget, rule_format, OF refl, of "[''ab'', ''c'']"] by blast
qed

text \<open>C12: In every reachable state the pending count is the number of buffered bytes, at most the one
  frame \<open>rafRef\<close> names is requested, at most the newest socket is connecting or open, and when no
  session is running nothing is buffered and no frame is requested.\<close>

theorem terminal_reachable_inv:
  "case foldl (term_step pg) terminal_init es of s \<Rightarrow>
     pendingBytesRef s = int (length (concat (bufferRef s))) \<and>
     frames s = (case rafRef s of None \<Rightarrow> [] | Some i \<Rightarrow> [i]) \<and>
     (\<forall>j < length (sockets s). sockState (sockets s ! j) = OPEN \<or> sockState (sockets s ! j) = CONNECTING \<longrightarrow>
        wsEffect s = Some j \<and> Suc j = length (sockets s)) \<and>
     (wsEffect s = None \<longrightarrow> bufferRef s = [] \<and> rafRef s = None)"
proof -
  have "term_inv (foldl (term_step pg) terminal_init es)" by (rule term_machine.reachable_inv)
  then show ?thesis by (auto simp: term_inv_def buf_inv_def sock_inv_def up_def)
qed

theorem terminal_reachable_inv_witness:
  "case foldl (term_step demo_page) terminal_init (demo_open @ [SockMessage 0 (BinaryFrame ''ab''), PropsChanged False None None]) of s \<Rightarrow>
     bufferRef s = [] \<and> rafRef s = None"
proof -
  let ?es = "demo_open @ [SockMessage 0 (BinaryFrame ''ab''), PropsChanged False None None]"
  have "wsEffect (foldl (term_step demo_page) terminal_init ?es) = None" by code_simp
  with terminal_reachable_inv[where pg = demo_page and es = ?es] show ?thesis
    by (simp del: term_step.simps foldl_append)
qed

lemma json_ok_execute_payload: "json_ok (execute_payload w sid)"
proof -
  have "(30000 :: rat) = of_int \<lfloor>30000 :: rat\<rfloor>" by simp
  then show ?thesis by (simp add: execute_payload_def)
qed

text \<open>C18: When the socket of a session with a program opens, exactly one request is sent on it, and
  parsing that request gives back the program, the session id, its label and the timeout of 30 s,
  whatever characters they contain.\<close>

theorem execute_request_roundtrip:
  assumes "sock_in s i [CONNECTING]" "sockPayload (sockets s ! i) = Some w" "w \<noteq> []"
    "s' = term_step pg s (SockOpened i)" "sid = sockSession (sockets s ! i)"
  shows "\<exists>req. sockSent (sockets s' ! i) = sockSent (sockets s ! i) @ [req] \<and>
    json_parse req = Some (JObj [(''wasm_b64'', JStr w), (''label'', JStr (''session-'' @ sid)),
       (''session_id'', JStr sid), (''timeout_ms'', JNum 30000)])"
proof -
  obtain c cs where w: "w = c # cs" using assms(3) by (cases w) auto
  have i: "i < length (sockets s)" using assms(1) by (simp add: sock_in_def)
  let ?req = "stringify (execute_payload w sid)"
  have "sockSent (sockets s' ! i) = sockSent (sockets s ! i) @ [?req]"
    using assms(1,2) i by (simp add: assms(4,5) ws_onopen_def Let_def sock_send_def w)
  moreover have "json_parse ?req = Some (execute_payload w sid)"
    by (rule json_parse_stringify[OF json_ok_execute_payload])
  ultimately show ?thesis by (auto simp: execute_payload_def)
qed

theorem execute_request_roundtrip_witness:
  "\<exists>req. sockSent (sockets demo_term ! 0) = [req] \<and>
     json_parse req = Some (JObj [(''wasm_b64'', JStr ''AGFzbQ==''), (''label'', JStr ''session-s1''),
       (''session_id'', JStr ''s1''), (''timeout_ms'', JNum 30000)])"
proof -
  let ?s = "foldl (term_step demo_page) terminal_init (butlast demo_open)"
  have pre: "sock_in ?s 0 [CONNECTING]" "sockPayload (sockets ?s ! 0) = Some ''AGFzbQ==''"
    "''AGFzbQ=='' \<noteq> []" "sockSession (sockets ?s ! 0) = ''s1''" "sockSent (sockets ?s ! 0) = []"
    by code_simp+
  have "demo_term = term_step demo_page ?s (SockOpened 0)" by (simp add: demo_term_def demo_open_def del: term_step.simps)
  from execute_request_roundtrip[OF pre(1-3) this pre(4)[symmetric]] pre(5) show ?thesis by simp
qed

text \<open>The outcome an exit frame announces.\<close>

definition announced :: "json \<Rightarrow> json option \<Rightarrow> end_outcome" where
  "announced msg old = (case jfield ''trap'' msg of
       Some (JStr (c # cs)) \<Rightarrow> EndError
     | _ \<Rightarrow> EndComplete
         (case jfield ''vfs_snapshot'' msg of Some (JObj fs) \<Rightarrow> Some (JObj fs) | Some (JArr vs) \<Rightarrow> Some (JArr vs) | _ \<Rightarrow> old)
         (case nullish (jfield ''code'' msg) of None \<Rightarrow> JNum 0 | Some c \<Rightarrow> c))"

lemma exit_frame_refs:
  "hasTrapRef (exit_frame m s) \<longleftrightarrow> hasTrapRef s \<or> (\<exists>c cs. jfield ''trap'' m = Some (JStr (c # cs)))"
  "exitCodeRef (exit_frame m s) = Some (case nullish (jfield ''code'' m) of None \<Rightarrow> JNum 0 | Some c \<Rightarrow> c)"
  "vfsSnapshotRef (exit_frame m s) = (case jfield ''vfs_snapshot'' m of
     Some (JObj fs) \<Rightarrow> Some (JObj fs) | Some (JArr vs) \<Rightarrow> Some (JArr vs) | _ \<Rightarrow> vfsSnapshotRef s)"
  unfolding exit_frame_def Let_def
  by (auto split: option.split json.split list.split)

lemma exit_then_close:
  assumes "term_inv s" "sock_in s i [OPEN]" "\<not> hasTrapRef s"
    "json_parse t = Some msg" "jfield ''type'' msg = Some (JStr ''exit'')"
    "s1 = term_step pg s (SockMessage i (TextFrame t))" "s2 = term_step pg s1 (SockClosed i 1000 reason)"
  shows "ended s1 = ended s" "ended s2 = ended s @ [(i, announced msg (vfsSnapshotRef s))]"
    "vfsSnapshotRef s2 = None" "exitCodeRef s2 = None" "\<not> hasTrapRef s2"
proof -
  have "up s i" using assms(2) by (auto simp: up_def sock_in_def)
  with assms(1) have live: "\<not> intentionalCloseRef s" by (auto simp: term_inv_def sock_inv_def)
  have s1: "s1 = exit_frame msg s"
    using assms(2,4,5,6) by (cases msg) (auto simp: ws_onmessage_def)
  have "sock_in (exit_frame msg s) i [CONNECTING, OPEN, CLOSING]" using assms(2) by (auto simp: sock_in_def)
  then have s2: "s2 = ws_onclose i 1000 reason (sock_upd i (\<lambda>w. w\<lparr>sockState := CLOSED\<rparr>) (exit_frame msg s))"
    using s1 assms(7) by simp
  show "ended s1 = ended s" by (simp add: s1)
  show "ended s2 = ended s @ [(i, announced msg (vfsSnapshotRef s))]"
    "vfsSnapshotRef s2 = None" "exitCodeRef s2 = None" "\<not> hasTrapRef s2"
    unfolding s2 using live assms(3)
    by (auto simp: ws_onclose_def on_end_def Let_def exit_frame_refs announced_def
         split: option.split json.split list.split)
qed

text \<open>C19: When an open session without a trap recorded so far receives an exit frame and its socket then
  closes normally, the parent is told once, with the outcome of that frame: an error for a trap, and
  otherwise completion with the frame's file snapshot and exit code (0 if the frame has none).
  Afterwards the refs are clean.\<close>

theorem exit_frame_reported:
  assumes "s = foldl (term_step pg) terminal_init es" "sock_in s i [OPEN]" "\<not> hasTrapRef s"
    "json_parse t = Some msg" "jfield ''type'' msg = Some (JStr ''exit'')"
    "s' = foldl (term_step pg) s [SockMessage i (TextFrame t), SockClosed i 1000 reason]"
  shows "ended s' = ended s @ [(i, announced msg (vfsSnapshotRef s))] \<and>
    vfsSnapshotRef s' = None \<and> exitCodeRef s' = None \<and> \<not> hasTrapRef s'"
proof -
  have "term_inv s" unfolding assms(1) by (rule term_machine.reachable_inv)
  from exit_then_close[OF this assms(2-5) refl refl] show ?thesis
    by (simp add: assms(6) del: term_step.simps)
qed

theorem exit_frame_reported_witness:
  "ended (foldl (term_step demo_page) demo_term
     [SockMessage 0 (TextFrame (stringify (JObj [(''type'', JStr ''exit''), (''code'', JNum 3)]))), SockClosed 0 1000 []])
   = [(0, EndComplete None (JNum 3))]"
proof -
  let ?m = "JObj [(''type'', JStr ''exit''), (''code'', JNum 3)]"
  have pre: "sock_in demo_term 0 [OPEN]" "\<not> hasTrapRef demo_term" by code_simp+
  have parse: "json_parse (stringify ?m) = Some ?m" by code_simp
  have ty: "jfield ''type'' ?m = Some (JStr ''exit'')" by simp
  have "ended demo_term = []" "announced ?m (vfsSnapshotRef demo_term) = EndComplete None (JNum 3)" by code_simp+
  with exit_frame_reported[OF demo_term_def pre parse ty refl] show ?thesis by simp
qed

fun is_props :: "term_event \<Rightarrow> bool" where
  "is_props (PropsChanged r sid w) \<longleftrightarrow> True"
| "is_props _ \<longleftrightarrow> False"

lemma intentional_step:
  assumes "term_inv s" "wsEffect s = None" "\<not> is_props e"
  shows "wsEffect (term_step pg s e) = None \<and> ended (term_step pg s e) = ended s"
proof -
  have "wsRef s = None" and noup: "\<And>j. \<not> up s j" and int: "sockets s \<noteq> [] \<Longrightarrow> intentionalCloseRef s"
    and raf: "frames s = []"
    using assms(1,2) by (auto simp: term_inv_def sock_inv_def buf_inv_def)
  have int': "intentionalCloseRef s" if "i < length (sockets s)" for i using int that by force
  show ?thesis using assms(2,3) \<open>wsRef s = None\<close> noup raf int'
    by (cases e) (auto simp: xterm_loaded_def xterm_first_fit_def theme_observer_def animation_frame_def
        sock_in_def up_def ws_onerror_def ws_onclose_def key_typed_def terminal_unmount_def ws_cleanup_def Let_def
        split: list.split)
qed

text \<open>C20: Once a session has been stopped (its effect cleaned up and no new one started), nothing that
  still arrives for its socket, neither messages nor the error and close events of closing it, is
  reported to the parent as the end of a session.\<close>

theorem stopped_session_is_silent:
  assumes "s = foldl (term_step pg) terminal_init es" "wsEffect s = None" "\<And>e. e \<in> set es' \<Longrightarrow> \<not> is_props e"
  shows "ended (foldl (term_step pg) s es') = ended s"
proof -
  have "term_inv s" unfolding assms(1) by (rule term_machine.reachable_inv)
  then have "wsEffect (foldl (term_step pg) s es') = None \<and> ended (foldl (term_step pg) s es') = ended s"
    by (rule term_machine.guarded_run) (use assms(2,3) intentional_step in \<open>auto simp del: term_step.simps\<close>)
  then show ?thesis by simp
qed

theorem stopped_session_is_silent_witness:
  "ended (foldl (term_step demo_page)
     (foldl (term_step demo_page) terminal_init (demo_open @ [PropsChanged False (Some ''s1'') None]))
     [SockErrored 0, SockClosed 0 1006 ''gone'']) = []"
proof -
  let ?s = "foldl (term_step demo_page) terminal_init (demo_open @ [PropsChanged False (Some ''s1'') None])"
  have off: "wsEffect ?s = None" and none: "ended ?s = []" by code_simp+
  let ?es = "[SockErrored 0, SockClosed 0 1006 ''gone'']"
  have quiet: "\<And>e. e \<in> set ?es \<Longrightarrow> \<not> is_props e" by auto
  have "ended (foldl (term_step demo_page) ?s ?es) = ended ?s"
    by (rule stopped_session_is_silent[where es' = ?es, OF refl off quiet])
  then show ?thesis unfolding none .
qed

text \<open>A close event counts as the end of whatever session is current: when a session is replaced by
  another one, the late close event of the replaced socket is not recognised as intentional, and the
  parent is told that the session ended although the new socket is still connecting.\<close>

theorem late_close_ends_new_session:
  assumes "s = foldl (term_step pg) terminal_init es" "wsEffect s = Some i" "sock_in s i [CONNECTING, OPEN]"
    "s' = foldl (term_step pg) s [PropsChanged True (Some (c # cs)) w, SockClosed i code reason]"
  shows "(\<exists>outcome. ended s' = ended s @ [(i, outcome)]) \<and> wsEffect s' = Some (Suc i) \<and>
    sockState (sockets s' ! Suc i) = CONNECTING"
proof -
  have "term_inv s" unfolding assms(1) by (rule term_machine.reachable_inv)
  with assms(2) have len: "length (sockets s) = Suc i" by (auto simp: term_inv_def sock_inv_def)
  have cl: "sockets (ws_cleanup s) = (sockets s)[i := (sockets s ! i)\<lparr>sockInput := False, sockState := CLOSING\<rparr>]"
  proof -
    have "sockState (sockets s ! i) \<noteq> CLOSED" using assms(3) by (auto simp: sock_in_def)
    then show ?thesis using len by (simp add: ws_cleanup_def assms(2) Let_def sock_close_def)
  qed
  have e: "ended (ws_cleanup s) = ended s" by (simp add: ws_cleanup_def Let_def split: option.split)
  let ?s1 = "term_step pg s (PropsChanged True (Some (c # cs)) w)"
  have s1: "length (sockets ?s1) = Suc (Suc i)" "sockState (sockets ?s1 ! i) = CLOSING"
    "sockState (sockets ?s1 ! Suc i) = CONNECTING"
    "intentionalCloseRef ?s1 = False" "wsEffect ?s1 = Some (Suc i)" "ended ?s1 = ended s"
    by (simp_all add: ws_effect_def Let_def cl len e nth_append)
  have "sock_in ?s1 i [CONNECTING, OPEN, CLOSING]"
    using s1(1,2) by (simp add: sock_in_def del: term_step.simps)
  then have s': "s' = ws_onclose i code reason (sock_upd i (\<lambda>w. w\<lparr>sockState := CLOSED\<rparr>) ?s1)"
    by (simp add: assms(4) del: term_step.simps(4))
  have "\<exists>outcome. ended (ws_onclose i code reason u) = ended u @ [(i, outcome)]" "wsEffect (ws_onclose i code reason u) = wsEffect u"
    "sockets (ws_onclose i code reason u) = sockets u" if "\<not> intentionalCloseRef u" for u
    using that by (simp_all add: ws_onclose_def on_end_def Let_def)
  from this[of "sock_upd i (\<lambda>w. w\<lparr>sockState := CLOSED\<rparr>) ?s1"] show ?thesis
    unfolding s' using s1(3-6) by (simp del: term_step.simps)
qed

theorem late_close_ends_new_session_witness:
  "\<exists>outcome. ended (foldl (term_step demo_page) demo_term
     [PropsChanged True (Some ''s2'') None, SockClosed 0 1000 []]) = [(0, outcome)]"
proof -
  have pre: "wsEffect demo_term = Some 0" "sock_in demo_term 0 [CONNECTING, OPEN]" by code_simp+
  have "ended demo_term = []" by code_simp
  with late_close_ends_new_session[OF demo_term_def pre refl, of "CHR ''s''" "''2''" None 1000 "[]"]
  show ?thesis by (simp del: term_step.simps)
qed

fun normal_close :: "term_event \<Rightarrow> bool" where
  "normal_close (SockClosed i code reason) \<longleftrightarrow> code = 1000"
| "normal_close _ \<longleftrightarrow> False"

lemma trap_fields:
  "hasTrapRef (ws_cleanup s) = hasTrapRef s" "hasTrapRef (ws_effect pg r sid w s) = hasTrapRef s"
  "hasTrapRef (ws_onopen i s) = hasTrapRef s" "hasTrapRef (animation_frame i s) = hasTrapRef s"
  "hasTrapRef (key_typed d s) = hasTrapRef s" "hasTrapRef (ws_onerror s) = hasTrapRef s"
proof -
  have send: "hasTrapRef s' = hasTrapRef s" if "sock_send i d s = Some s'" for i d s s'
    using that by (auto simp: sock_send_def split: readyState.splits)
  show "hasTrapRef (ws_onopen i s) = hasTrapRef s"
    unfolding ws_onopen_def Let_def by (auto simp: send split: option.split list.split)
  show "hasTrapRef (key_typed d s) = hasTrapRef s" by (auto simp: key_typed_def send split: option.split)
qed (simp_all add: ws_cleanup_def ws_effect_def animation_frame_def ws_onerror_def Let_def split: option.split list.split)

lemma trap_kept:
  assumes "hasTrapRef s" "\<not> normal_close e"
  shows "hasTrapRef (term_step pg s e)"
proof (cases e)
  case (SockMessage i data)
  with assms show ?thesis
    by (auto simp: ws_onmessage_def exit_frame_refs split: ws_frame.split option.split json.split)
next
  case TermUnmount
  have "hasTrapRef (s\<lparr>initDisposed := True\<rparr>)" using assms(1) by simp
  then show ?thesis using TermUnmount
    by (simp add: terminal_unmount_def Let_def trap_fields split: option.split)
qed (use assms in \<open>simp_all add: trap_fields xterm_loaded_def xterm_first_fit_def theme_observer_def
      ws_onclose_def on_end_def Let_def split: list.split\<close>)

text \<open>C40: A recorded trap outlives its session: it is forgotten only at a normal close. After a trap, an
  abnormal close or a stop leaves it set through every later session until one of them closes
  normally, and that one is reported as an error even if its own exit frame announced success.\<close>

theorem trap_leaks_into_next_session:
  assumes "s = foldl (term_step pg) terminal_init es" "hasTrapRef s" "\<And>e. e \<in> set es' \<Longrightarrow> \<not> normal_close e"
    "s1 = foldl (term_step pg) s es'" "sock_in s1 i [OPEN]" "s2 = term_step pg s1 (SockClosed i 1000 reason)"
  shows "ended s2 = ended s1 @ [(i, EndError)]"
proof -
  have trap: "hasTrapRef (foldl (term_step pg) s es')"
    by (rule foldl_keeps[of hasTrapRef, OF assms(2) trap_kept]) (simp_all add: assms(3))
  have "term_inv s1" unfolding assms(1,4) by (intro term_machine.inv_run term_inv_init)
  moreover have "up s1 i" using assms(5) by (auto simp: up_def sock_in_def)
  ultimately have "\<not> intentionalCloseRef s1" by (auto simp: term_inv_def sock_inv_def)
  moreover have "sock_in s1 i [CONNECTING, OPEN, CLOSING]" using assms(5) by (auto simp: sock_in_def)
  ultimately show ?thesis using trap[folded assms(4)] by (simp add: assms(6) ws_onclose_def on_end_def Let_def)
qed

theorem trap_leaks_into_next_session_witness:
  "ended (foldl (term_step demo_page) demo_term
     [SockMessage 0 (TextFrame (stringify (JObj [(''type'', JStr ''exit''), (''trap'', JStr ''oob'')]))), SockClosed 0 1011 [],
      PropsChanged True (Some ''s2'') None, SockOpened 1,
      SockMessage 1 (TextFrame (stringify (JObj [(''type'', JStr ''exit''), (''code'', JNum 0)]))), SockClosed 1 1000 []])
   = [(0, EndError), (1, EndError)]"
proof -
  let ?trap = "SockMessage 0 (TextFrame (stringify (JObj [(''type'', JStr ''exit''), (''trap'', JStr ''oob'')])))"
  let ?es = "[SockClosed 0 1011 [], PropsChanged True (Some ''s2'') None, SockOpened 1,
      SockMessage 1 (TextFrame (stringify (JObj [(''type'', JStr ''exit''), (''code'', JNum 0)])))]"
  let ?s = "foldl (term_step demo_page) terminal_init (demo_open @ [?trap])"
  have trap: "hasTrapRef ?s" by code_simp
  have keep: "\<And>e. e \<in> set ?es \<Longrightarrow> \<not> normal_close e" by auto
  have up: "sock_in (foldl (term_step demo_page) ?s ?es) 1 [OPEN]"
    and ended: "ended (foldl (term_step demo_page) ?s ?es) = [(0, EndError)]" by code_simp+
  have "ended (term_step demo_page (foldl (term_step demo_page) ?s ?es) (SockClosed 1 1000 [])) = [(0, EndError), (1, EndError)]"
    using trap_leaks_into_next_session[where es' = ?es, OF refl trap keep refl up refl, of "[]"] ended by simp
  then show ?thesis by (simp add: demo_term_def del: term_step.simps)
qed

text \<open>Output that is still buffered when the exit frame arrives is written only if Xterm is ready;
  otherwise it is discarded for good.\<close>

theorem early_output_is_discarded:
  assumes "\<not> xtermRef s" "sock_in s i [OPEN]" "json_parse t = Some msg" "jfield ''type'' msg = Some (JStr ''exit'')"
  shows "bufferRef (term_step pg s (SockMessage i (TextFrame t))) = [] \<and>
    raw_bytes (screen (term_step pg s (SockMessage i (TextFrame t)))) = raw_bytes (screen s)"
proof -
  have "term_step pg s (SockMessage i (TextFrame t)) = exit_frame msg s"
    using assms(2-4) by (cases msg) (auto simp: ws_onmessage_def)
  with assms(1) show ?thesis by simp
qed

theorem early_output_is_discarded_witness:
  "raw_bytes (screen (foldl (term_step demo_page) terminal_init
     [PropsChanged True (Some ''s1'') None, SockOpened 0, SockMessage 0 (BinaryFrame ''hello''),
      SockMessage 0 (TextFrame (stringify (JObj [(''type'', JStr ''exit''), (''code'', JNum 0)])))])) = []"
proof -
  let ?m = "JObj [(''type'', JStr ''exit''), (''code'', JNum 0)]"
  let ?s = "foldl (term_step demo_page) terminal_init
     [PropsChanged True (Some ''s1'') None, SockOpened 0, SockMessage 0 (BinaryFrame ''hello'')]"
  have pre: "\<not> xtermRef ?s" "sock_in ?s 0 [OPEN]" "json_parse (stringify ?m) = Some ?m"
    "jfield ''type'' ?m = Some (JStr ''exit'')" "raw_bytes (screen ?s) = []" by code_simp+
  from early_output_is_discarded[OF pre(1-4), of demo_page] pre(5) show ?thesis by (simp del: term_step.simps)
qed

text \<open>The session id is the value of the query in the socket's URL: the text after the last \<open>=\<close>
  decodes to it, whatever characters the id has.\<close>

theorem ws_url_session:
  "percent_decode (after_last (CHR ''='') (ws_url base proto hst sid)) = Some sid"
proof -
  have free: "CHR ''='' \<notin> set (encodeURIComponent sid)"
  proof
    assume "CHR ''='' \<in> set (encodeURIComponent sid)"
    then have "uri_unreserved (CHR ''='')" using encodeURIComponent_chars by fastforce
    then show False by (simp add: uri_unreserved_def)
  qed
  have "\<exists>pre. ws_url base proto hst sid = pre @ CHR ''='' # encodeURIComponent sid"
  proof (cases "base = []")
    case True
    then show ?thesis
      by (intro exI[of _ "(if proto = ''https:'' then ''wss'' else ''ws'') @ ''://'' @ hst @ ''/api/v1/ws/execute?session_id''"])
         (simp add: ws_url_def)
  next
    case False
    then show ?thesis
      by (intro exI[of _ "(if starts_with ''http'' base then ''ws'' @ drop 4 base else base) @ ''/ws/execute?session_id''"])
         (simp add: ws_url_def)
  qed
  with free show ?thesis by auto
qed

text \<open>The two palettes give a colour to the same 21 keys, once each. The comment above them says that
  only background, foreground and selection differ; in fact no two entries but the cursor agree.\<close>

theorem palettes_differ:
  "map fst XTERM_DARK = map fst XTERM_LIGHT \<and> distinct (map fst XTERM_DARK) \<and>
   map fst (filter (\<lambda>(k, v). map_of XTERM_LIGHT k = Some v) XTERM_DARK) = [''cursor'']"
  by code_simp

end
