(* ===== verification/Demos.thy ===== *)
theory Demos
  imports Encoding
begin

text \<open>
  The demo programs of \<open>frontend/components/ExecutionConsole.tsx\<close>: the base64 constants as the
  source writes them, and the table \<open>DEMOS\<close>.
\<close>

section \<open>The constants\<close>

definition NOOP_bytes :: "nat list" where
  "NOOP_bytes =
     [0x00, 0x61, 0x73, 0x6d, 0x01, 0x00, 0x00, 0x00,
      0x01, 0x04, 0x01, 0x60, 0x00, 0x00,
      0x03, 0x02, 0x01, 0x00,
      0x07, 0x0a, 0x01, 0x06, 0x5f, 0x73, 0x74, 0x61,
      0x72, 0x74, 0x00, 0x00,
      0x0a, 0x04, 0x01, 0x02, 0x00, 0x0b]"

definition NOOP_WASM_B64 :: string where
  "NOOP_WASM_B64 = btoa (map char_of NOOP_bytes)"

definition HELLO_WASM_B64 :: string where
  "HELLO_WASM_B64 =
     ''AGFzbQEAAAABEANgBH9/f38Bf2ABfwBgAAACRgIWd2FzaV9zbmFwc2hvdF9wcmV2aWV3MQhmZF93'' @
     ''cml0ZQAAFndhc2lfc25hcHNob3RfcHJldmlldzEJcHJvY19leGl0AAEDAgECBQMBAAEHEwIGbWVt'' @
     ''b3J5AgAGX3N0YXJ0AAIK8QIB7gIAQYAEQQA2AgBBhARBAjYCAEEBQYAEQQFBkAQQABpBgARBAjYC'' @
     ''AEGEBEHqADYCAEEBQYAEQQFBkAQQABpBgARB7AA2AgBBhARBMDYCAEEBQYAEQQFBkAQQABpBgARB'' @
     ''nAE2AgBBhARB6gA2AgBBAUGABEEBQZAEEAAaQYAEQYYCNgIAQYQEQQI2AgBBAUGABEEBQZAEEAAa'' @
     ''QYAEQYgCNgIAQYQEQSg2AgBBAUGABEEBQZAEEAAaQYAEQbACNgIAQYQEQSU2AgBBAUGABEEBQZAE'' @
     ''EAAaQYAEQdUCNgIAQYQEQS82AgBBAUGABEEBQZAEEAAaQYAEQYQDNgIAQYQEQR42AgBBAUGABEEB'' @
     ''QZAEEAAaQYAEQaIDNgIAQYQEQQI2AgBBAUGABEEBQZAEEAAaQYAEQaQDNgIAQYQEQR02AgBBAUGA'' @
     ''BEEBQZAEEAAaQYAEQcEDNgIAQYQEQQI2AgBBAUGABEEBQZAEEAAaQQAQAQsLygMBAEEAC8MDDQog'' @
     ''IOKVreKUgOKUgOKUgOKUgOKUgOKUgOKUgOKUgOKUgOKUgOKUgOKUgOKUgOKUgOKUgOKUgOKUgOKU'' @
     ''gOKUgOKUgOKUgOKUgOKUgOKUgOKUgOKUgOKUgOKUgOKUgOKUgOKUgOKUgOKVrg0KICDilIIgIPCf'' @
     ''n6IgIEhlbGxvIGZyb20gSXNvbGF0b3ItViEgICAgICAgIOKUgg0KICDilbDilIDilIDilIDilIDi'' @
     ''lIDilIDilIDilIDilIDilIDilIDilIDilIDilIDilIDilIDilIDilIDilIDilIDilIDilIDilIDi'' @
     ''lIDilIDilIDilIDilIDilIDilIDilIDilIDila8NCg0KICBydW50aW1lICA6IHdhc210aW1lIDI1'' @
     ''LjAgKENyYW5lbGlmdCkNCiAgQUJJICAgICAgOiBXQVNJIHNuYXBzaG90X3ByZXZpZXcxDQogIHNh'' @
     ''bmRib3ggIDogaXNvbGF0b3ItdiAvIHdhc20td29ya2VyLW1hbmFnZXINCiAgbWVtb3J5ICAgOiAx'' @
     ''IHBhZ2UgKDY0IEtpQikNCg0KICDinJQgIGV4ZWN1dGlvbiBzdWNjZXNzZnVsDQoNCg==''"

definition COUNTER_WASM_B64 :: string where
  "COUNTER_WASM_B64 =
     ''AGFzbQEAAAABEANgBH9/f38Bf2ABfwBgAAACRgIWd2FzaV9zbmFwc2hvdF9wcmV2aWV3MQhmZF93'' @
     ''cml0ZQAAFndhc2lfc25hcHNob3RfcHJldmlldzEJcHJvY19leGl0AAEDAgECBQMBAAEHEwIGbWVt'' @
     ''b3J5AgAGX3N0YXJ0AAIKlgUBkwUAQYAEQQA2AgBBhARBGjYCAEEBQYAEQQFBkAQQABpBgARBGjYC'' @
     ''AEGEBEEHNgIAQQFBgARBAUGQBBAAGkGABEEhNgIAQYQEQQc2AgBBAUGABEEBQZAEEAAaQYAEQSg2'' @
     ''AgBBhARBBzYCAEEBQYAEQQFBkAQQABpBgARBLzYCAEGEBEEHNgIAQQFBgARBAUGQBBAAGkGABEE2'' @
     ''NgIAQYQEQQc2AgBBAUGABEEBQZAEEAAaQYAEQT02AgBBhARBBzYCAEEBQYAEQQFBkAQQABpBgARB'' @
     ''xAA2AgBBhARBBzYCAEEBQYAEQQFBkAQQABpBgARBywA2AgBBhARBBzYCAEEBQYAEQQFBkAQQABpB'' @
     ''gARB0gA2AgBBhARBBzYCAEEBQYAEQQFBkAQQABpBgARB2QA2AgBBhARBBzYCAEEBQYAEQQFBkAQQ'' @
     ''ABpBgARB4AA2AgBBhARBBzYCAEEBQYAEQQFBkAQQABpBgARB5wA2AgBBhARBBzYCAEEBQYAEQQFB'' @
     ''kAQQABpBgARB7gA2AgBBhARBBzYCAEEBQYAEQQFBkAQQABpBgARB9QA2AgBBhARBBzYCAEEBQYAE'' @
     ''QQFBkAQQABpBgARB/AA2AgBBhARBBzYCAEEBQYAEQQFBkAQQABpBgARBgwE2AgBBhARBBzYCAEEB'' @
     ''QYAEQQFBkAQQABpBgARBigE2AgBBhARBBzYCAEEBQYAEQQFBkAQQABpBgARBkQE2AgBBhARBBzYC'' @
     ''AEEBQYAEQQFBkAQQABpBgARBmAE2AgBBhARBBzYCAEEBQYAEQQFBkAQQABpBgARBnwE2AgBBhARB'' @
     ''BzYCAEEBQYAEQQFBkAQQABpBgARBpgE2AgBBhARBDDYCAEEBQYAEQQFBkAQQABpBABABCwu5AQEA'' @
     ''QQALsgFDb3VudGluZyBmcm9tIDEgdG8gMjA6DQoNCiAgICAxDQogICAgMg0KICAgIDMNCiAgICA0'' @
     ''DQogICAgNQ0KICAgIDYNCiAgICA3DQogICAgOA0KICAgIDkNCiAgIDEwDQogICAxMQ0KICAgMTIN'' @
     ''CiAgIDEzDQogICAxNA0KICAgMTUNCiAgIDE2DQogICAxNw0KICAgMTgNCiAgIDE5DQogICAyMA0K'' @
     ''DQpEb25lIOKclA0K''"

definition FIBONACCI_WASM_B64 :: string where
  "FIBONACCI_WASM_B64 =
     ''AGFzbQEAAAABEANgBH9/f38Bf2ABfwBgAAACRgIWd2FzaV9zbmFwc2hvdF9wcmV2aWV3MQhmZF93'' @
     ''cml0ZQAAFndhc2lfc25hcHNob3RfcHJldmlldzEJcHJvY19leGl0AAEDAgECBQMBAAEHEwIGbWVt'' @
     ''b3J5AgAGX3N0YXJ0AAIKmgUBlwUAQYAEQQA2AgBBhARBKDYCAEEBQYAEQQFBkAQQABpBgARBKDYC'' @
     ''AEGEBEETNgIAQQFBgARBAUGQBBAAGkGABEE7NgIAQYQEQRM2AgBBAUGABEEBQZAEEAAaQYAEQc4A'' @
     ''NgIAQYQEQRM2AgBBAUGABEEBQZAEEAAaQYAEQeEANgIAQYQEQRM2AgBBAUGABEEBQZAEEAAaQYAE'' @
     ''QfQANgIAQYQEQRM2AgBBAUGABEEBQZAEEAAaQYAEQYcBNgIAQYQEQRM2AgBBAUGABEEBQZAEEAAa'' @
     ''QYAEQZoBNgIAQYQEQRM2AgBBAUGABEEBQZAEEAAaQYAEQa0BNgIAQYQEQRM2AgBBAUGABEEBQZAE'' @
     ''EAAaQYAEQcABNgIAQYQEQRM2AgBBAUGABEEBQZAEEAAaQYAEQdMBNgIAQYQEQRM2AgBBAUGABEEB'' @
     ''QZAEEAAaQYAEQeYBNgIAQYQEQRM2AgBBAUGABEEBQZAEEAAaQYAEQfkBNgIAQYQEQRM2AgBBAUGA'' @
     ''BEEBQZAEEAAaQYAEQYwCNgIAQYQEQRM2AgBBAUGABEEBQZAEEAAaQYAEQZ8CNgIAQYQEQRM2AgBB'' @
     ''AUGABEEBQZAEEAAaQYAEQbICNgIAQYQEQRM2AgBBAUGABEEBQZAEEAAaQYAEQcUCNgIAQYQEQRM2'' @
     ''AgBBAUGABEEBQZAEEAAaQYAEQdgCNgIAQYQEQRM2AgBBAUGABEEBQZAEEAAaQYAEQesCNgIAQYQE'' @
     ''QRM2AgBBAUGABEEBQZAEEAAaQYAEQf4CNgIAQYQEQRM2AgBBAUGABEEBQZAEEAAaQYAEQZEDNgIA'' @
     ''QYQEQRM2AgBBAUGABEEBQZAEEAAaQYAEQaQDNgIAQYQEQSU2AgBBAUGABEEBQZAEEAAaQQAQAQsL'' @
     ''0AMBAEEAC8kDRmlib25hY2NpIHNlcXVlbmNlIChmaXJzdCAyMCB0ZXJtcyk6DQoNCiAgRiggMSkg'' @
     ''PSAgICAgICAxDQogIEYoIDIpID0gICAgICAgMQ0KICBGKCAzKSA9ICAgICAgIDINCiAgRiggNCkg'' @
     ''PSAgICAgICAzDQogIEYoIDUpID0gICAgICAgNQ0KICBGKCA2KSA9ICAgICAgIDgNCiAgRiggNykg'' @
     ''PSAgICAgIDEzDQogIEYoIDgpID0gICAgICAyMQ0KICBGKCA5KSA9ICAgICAgMzQNCiAgRigxMCkg'' @
     ''PSAgICAgIDU1DQogIEYoMTEpID0gICAgICA4OQ0KICBGKDEyKSA9ICAgICAxNDQNCiAgRigxMykg'' @
     ''PSAgICAgMjMzDQogIEYoMTQpID0gICAgIDM3Nw0KICBGKDE1KSA9ICAgICA2MTANCiAgRigxNikg'' @
     ''PSAgICAgOTg3DQogIEYoMTcpID0gICAgMTU5Nw0KICBGKDE4KSA9ICAgIDI1ODQNCiAgRigxOSkg'' @
     ''PSAgICA0MTgxDQogIEYoMjApID0gICAgNjc2NQ0KDQogIFN1bSBvZiBmaXJzdCAyMCB0ZXJtcyA9'' @
     ''IDE3NzEwDQoNCg==''"

definition PRIMES_WASM_B64 :: string where
  "PRIMES_WASM_B64 =
     ''AGFzbQEAAAABEANgBH9/f38Bf2ABfwBgAAACRgIWd2FzaV9zbmFwc2hvdF9wcmV2aWV3MQhmZF93'' @
     ''cml0ZQAAFndhc2lfc25hcHNob3RfcHJldmlldzEJcHJvY19leGl0AAEDAgECBQMBAAEHEwIGbWVt'' @
     ''b3J5AgAGX3N0YXJ0AAIKnQEBmgEAQYAEQQA2AgBBhARBLTYCAEEBQYAEQQFBkAQQABpBgARBLTYC'' @
     ''AEGEBEEqNgIAQQFBgARBAUGQBBAAGkGABEHXADYCAEGEBEEqNgIAQQFBgARBAUGQBBAAGkGABEGB'' @
     ''ATYCAEGEBEEWNgIAQQFBgARBAUGQBBAAGkGABEGXATYCAEGEBEEXNgIAQQFBgARBAUGQBBAAGkEA'' @
     ''EAELC7UBAQBBAAuuAVByaW1lcyB1cCB0byAxMDAgKFNpZXZlIG9mIEVyYXRvc3RoZW5lcyk6DQoN'' @
     ''CiAgIDIgICAzICAgNSAgIDcgIDExICAxMyAgMTcgIDE5ICAyMyAgMjkNCiAgMzEgIDM3ICA0MSIA'' @
     ''NDMgIDQ3ICA1MyAgNTkgIDYxICA2NyAgNzENCiAgNzMgIDc5ICA4MyAgODkgIDk3DQoNCiAgRm91'' @
     ''bmQgMjUgcHJpbWVzDQoNCg==''"

definition EXIT1_WASM_B64 :: string where
  "EXIT1_WASM_B64 =
     ''AGFzbQEAAAABEANgBH9/f38Bf2ABfwBgAAACRgIWd2FzaV9zbmFwc2hvdF9wcmV2aWV3'' @
     ''MQhmZF93cml0ZQAAFndhc2lfc25hcHNob3RfcHJldmlldzEJcHJvY19leGl0AAEDAgEC'' @
     ''BQMBAAEHEwIGbWVtb3J5AgAGX3N0YXJ0AAIKIgEgAEEAQRA2AgBBBEGqATYCAEEBQQBB'' @
     ''AUEIEAAaQQEQAQsLsQEBAEEQC6oBRXhpdCBDb2RlIERlbW8KPT09PT09PT09PT09PT0K'' @
     ''VGhpcyBwcm9ncmFtIGNhbGxzIHByb2NfZXhpdCgxKSB0byB0ZXN0CnRoZSBub24temVy'' @
     ''byBleGl0IHBhdGggb2YgdGhlIHBpcGVsaW5lLgoKVGhlIGV4aXQgY29kZSBiZWxvdyBz'' @
     ''aG91bGQgYmUgcmVkLgoKRXhpdGluZyB3aXRoIGNvZGUgMS4uLgo=''"

definition TRAP_WASM_B64 :: string where
  "TRAP_WASM_B64 =
     ''AGFzbQEAAAABEANgBH9/f38Bf2ABfwBgAAACRgIWd2FzaV9zbmFwc2hvdF9wcmV2aWV3'' @
     ''MQhmZF93cml0ZQAAFndhc2lfc25hcHNob3RfcHJldmlldzEJcHJvY19leGl0AAEDAgEC'' @
     ''BQMBAAEHEwIGbWVtb3J5AgAGX3N0YXJ0AAIKHwEdAEEAQRA2AgBBBEGvATYCAEEBQQBB'' @
     ''AUEIEAAaAAsLtgEBAEEQC68BVHJhcCBEZW1vCj09PT09PT09PQpUaGlzIHByb2dyYW0g'' @
     ''ZXhlY3V0ZXMgdGhlIFdBU00gJ3VucmVhY2hhYmxlJwppbnN0cnVjdGlvbiB0byB0cmln'' @
     ''Z2VyIGEgaGFyZHdhcmUgdHJhcC4KClRoZSBzYW5kYm94IHNob3VsZCByZXBvcnQgYSBj'' @
     ''cmFzaGVkIHN0YXRlLgoKRXhlY3V0aW5nIHVucmVhY2hhYmxlLi4uCg==''"

definition UNICODE_WASM_B64 :: string where
  "UNICODE_WASM_B64 =
     ''AGFzbQEAAAABEANgBH9/f38Bf2ABfwBgAAACRgIWd2FzaV9zbmFwc2hvdF9wcmV2aWV3'' @
     ''MQhmZF93cml0ZQAAFndhc2lfc25hcHNob3RfcHJldmlldzEJcHJvY19leGl0AAEDAgEC'' @
     ''BQMBAAEHEwIGbWVtb3J5AgAGX3N0YXJ0AAIKIgEgAEEAQRA2AgBBBEHeAzYCAEEBQQBB'' @
     ''AUEIEAAaQQAQAQsL5QMBAEEQC94DVW5pY29kZSAmIEVtb2ppIFJlbmRlcmluZyBUZXN0'' @
     ''Cj09PT09PT09PT09PT09PT09PT09PT09PT09PT09PQoKICBFbW9qaTogICAg8J+agCDi'' @
     ''nIUg4p2MIOKaoO+4jyAg8J+SoSDwn5SlIPCfjq8g8J+nqgogIE1hdGg6ICAgICDOsSDO'' @
     ''siDOsyDOtCDOtSDOtiDOtyDOuCDOuSDOuiDOuyDOvAogIEFycm93czogICDihpAg4oaS'' @
     ''IOKGkSDihpMg4oaUIOKHkiDin7kg4pyTIOKclwogIEJveDogICAgICDilIzilIDilIDi'' @
     ''lIDilIDilIDilIDilIDilIDilIDilJAKICAgICAgICAgICAg4pSCIHNhbmRib3gg4pSC'' @
     ''CiAgICAgICAgICAgIOKUlOKUgOKUgOKUgOKUgOKUgOKUgOKUgOKUgOKUgOKUmAogIEph'' @
     ''cGFuZXNlOiDjgZPjgpPjgavjgaHjga/kuJbnlYwKICBSdXNzaWFuOiAg0J/RgNC40LLQ'' @
     ''tdGCLCDQvNC40YAhCiAgQXJhYmljOiAgINmF2LHYrdio2Kcg2KjYp9mE2LnYp9mE2YUK'' @
     ''CkFsbCBjaGFyYWN0ZXJzIHJlbmRlcmVkIGNvcnJlY3RseT8g4pyTCg==''"

definition LONGLINES_WASM_B64 :: string where
  "LONGLINES_WASM_B64 =
     ''AGFzbQEAAAABEANgBH9/f38Bf2ABfwBgAAACRgIWd2FzaV9zbmFwc2hvdF9wcmV2aWV3'' @
     ''MQhmZF93cml0ZQAAFndhc2lfc25hcHNob3RfcHJldmlldzEJcHJvY19leGl0AAEDAgEC'' @
     ''BQMBAAEHEwIGbWVtb3J5AgAGX3N0YXJ0AAIKIgEgAEEAQRA2AgBBBEH7BzYCAEEBQQBB'' @
     ''AUEIEAAaQQAQAQsLgggBAEEQC/sHTG9uZyBMaW5lcyBUZXN0Cj09PT09PT09PT09PT09'' @
     ''PQpMaW5lcyBiZWxvdyBhcmUgfjkwIGNoYXJzLiBUZXN0cyB0ZXJtaW5hbCB3cmFwL3Nj'' @
     ''cm9sbCBiZWhhdmlvdXIuCgogICAgICAgICAgICAgICAgICAxICAgICAgICAgMiAgICAg'' @
     ''ICAgIDMgICAgICAgICA0ICAgICAgICAgNSAgICAgICAgIDYgICAgICAgICA3ICAgICAg'' @
     ''ICAgOCAgICAgICAgIDkKMCAgICAgICAgMDEyMzQ1Njc4OTAxMjM0NTY3ODkwMTIzNDU2'' @
     ''Nzg5MDEyMzQ1Njc4OTAxMjM0NTY3ODkwMTIzNDU2Nzg5MDEyMzQ1Njc4OTAxMjM0NTY3'' @
     ''ODkwMTIzNDU2Nzg5Ci0tLS0tLS0tLS0tLS0tLS0tLS0tLS0tLS0tLS0tLS0tLS0tLS0t'' @
     ''LS0tLS0tLS0tLS0tLS0tLS0tLS0tLS0tLS0tLS0tLS0tLS0tLS0tLS0tLS0tLS0tLS0t'' @
     ''LQoKICBMaW5lICAxIHwgQUJDREVGR0hJSkFCQ0RFRkdISUpBQkNERUZHSElKQUJDREVG'' @
     ''R0hJSkFCQ0RFRkdISUpBQkNERUZHSElKQUJDREVGR0hJSgogIExpbmUgIDIgfCBBQkNE'' @
     ''RUZHSElKQUJDREVGR0hJSkFCQ0RFRkdISUpBQkNERUZHSElKQUJDREVGR0hJSkFCQ0RF'' @
     ''RkdISUpBQkNERUZHSElKCiAgTGluZSAgMyB8IEFCQ0RFRkdISUpBQkNERUZHSElKQUJD'' @
     ''REVGR0hJSkFCQ0RFRkdISUpBQkNERUZHSElKQUJDREVGR0hJSkFCQ0RFRkdISUoKICBM'' @
     ''aW5lICA0IHwgQUJDREVGR0hJSkFCQ0RFRkdISUpBQkNERUZHSElKQUJDREVGR0hJSkFC'' @
     ''Q0RFRkdISUpBQkNERUZHSElKQUJDREVGR0hJSgogIExpbmUgIDUgfCBBQkNERUZHSElK'' @
     ''QUJDREVGR0hJSkFCQ0RFRkdISUpBQkNERUZHSElKQUJDREVGR0hJSkFCQ0RFRkdISUpB'' @
     ''QkNERUZHSElKCiAgTGluZSAgNiB8IEFCQ0RFRkdISUpBQkNERUZHSElKQUJDREVGR0hJ'' @
     ''SkFCQ0RFRkdISUpBQkNERUZHSElKQUJDREVGR0hJSkFCQ0RFRkdISUoKICBMaW5lICA3'' @
     ''IHwgQUJDREVGR0hJSkFCQ0RFRkdISUpBQkNERUZHSElKQUJDREVGR0hJSkFCQ0RFRkdI'' @
     ''SUpBQkNERUZHSElKQUJDREVGR0hJSgoKRG9uZS4gQ2hlY2sgZm9yIGhvcml6b250YWwg'' @
     ''c2Nyb2xsIG9yIHdyYXBwaW5nLgo=''"

definition LARGE_WASM_B64 :: string where
  "LARGE_WASM_B64 =
     ''AGFzbQEAAAABEANgBH9/f38Bf2ABfwBgAAACRgIWd2FzaV9zbmFwc2hvdF9wcmV2aWV3'' @
     ''MQhmZF93cml0ZQAAFndhc2lfc25hcHNob3RfcHJldmlldzEJcHJvY19leGl0AAEDAgEC'' @
     ''BQMBAAEHEwIGbWVtb3J5AgAGX3N0YXJ0AAIKIwEhAEEAQRA2AgBBBEG1ygA2AgBBAUEA'' @
     ''QQFBCBAAGkEAEAELC7xKAQBBEAu1SkxhcmdlIE91dHB1dCBUZXN0Cj09PT09PT09PT09'' @
     ''PT09PT09ClN0cmVhbWluZyAzMDAgbnVtYmVyZWQgbGluZXMgdG8gZXhlcmNpc2UgdGhl'' @
     ''IHRlcm1pbmFsIGJ1ZmZlci4KCiAgICAxOiBicmF2byBjaGFybGllIGRlbHRhIGVjaG8K'' @
     ''ICAgIDI6IGNoYXJsaWUgZGVsdGEgZWNobyBmb3h0cm90CiAgICAzOiBkZWx0YSBlY2hv'' @
     ''IGZveHRyb3QgZ29sZgogICAgNDogZWNobyBmb3h0cm90IGdvbGYgaG90ZWwKICAgIDU6'' @
     ''IGZveHRyb3QgZ29sZiBob3RlbCBpbmRpYQogICAgNjogZ29sZiBob3RlbCBpbmRpYSBq'' @
     ''dWxpZXQKICAgIDc6IGhvdGVsIGluZGlhIGp1bGlldCBraWxvCiAgICA4OiBpbmRpYSBq'' @
     ''dWxpZXQga2lsbyBsaW1hCiAgICA5OiBqdWxpZXQga2lsbyBsaW1hIGFscGhhCiAgIDEw'' @
     ''OiBraWxvIGxpbWEgYWxwaGEgYnJhdm8KICAgMTE6IGxpbWEgYWxwaGEgYnJhdm8gY2hh'' @
     ''cmxpZQogICAxMjogYWxwaGEgYnJhdm8gY2hhcmxpZSBkZWx0YQogICAxMzogYnJhdm8g'' @
     ''Y2hhcmxpZSBkZWx0YSBlY2hvCiAgIDE0OiBjaGFybGllIGRlbHRhIGVjaG8gZm94dHJv'' @
     ''dAogICAxNTogZGVsdGEgZWNobyBmb3h0cm90IGdvbGYKICAgMTY6IGVjaG8gZm94dHJv'' @
     ''dCBnb2xmIGhvdGVsCiAgIDE3OiBmb3h0cm90IGdvbGYgaG90ZWwgaW5kaWEKICAgMTg6'' @
     ''IGdvbGYgaG90ZWwgaW5kaWEganVsaWV0CiAgIDE5OiBob3RlbCBpbmRpYSBqdWxpZXQg'' @
     ''a2lsbwogICAyMDogaW5kaWEganVsaWV0IGtpbG8gbGltYQogICAyMToganVsaWV0IGtp'' @
     ''bG8gbGltYSBhbHBoYQogICAyMjoga2lsbyBsaW1hIGFscGhhIGJyYXZvCiAgIDIzOiBs'' @
     ''aW1hIGFscGhhIGJyYXZvIGNoYXJsaWUKICAgMjQ6IGFscGhhIGJyYXZvIGNoYXJsaWUg'' @
     ''ZGVsdGEKICAgMjU6IGJyYXZvIGNoYXJsaWUgZGVsdGEgZWNobwogICAyNjogY2hhcmxp'' @
     ''ZSBkZWx0YSBlY2hvIGZveHRyb3QKICAgMjc6IGRlbHRhIGVjaG8gZm94dHJvdCBnb2xm'' @
     ''CiAgIDI4OiBlY2hvIGZveHRyb3QgZ29sZiBob3RlbAogICAyOTogZm94dHJvdCBnb2xm'' @
     ''IGhvdGVsIGluZGlhCiAgIDMwOiBnb2xmIGhvdGVsIGluZGlhIGp1bGlldAogICAzMTog'' @
     ''aG90ZWwgaW5kaWEganVsaWV0IGtpbG8KICAgMzI6IGluZGlhIGp1bGlldCBraWxvIGxp'' @
     ''bWEKICAgMzM6IGp1bGlldCBraWxvIGxpbWEgYWxwaGEKICAgMzQ6IGtpbG8gbGltYSBh'' @
     ''bHBoYSBicmF2bwogICAzNTogbGltYSBhbHBoYSBicmF2byBjaGFybGllCiAgIDM2OiBh'' @
     ''bHBoYSBicmF2byBjaGFybGllIGRlbHRhCiAgIDM3OiBicmF2byBjaGFybGllIGRlbHRh'' @
     ''IGVjaG8KICAgMzg6IGNoYXJsaWUgZGVsdGEgZWNobyBmb3h0cm90CiAgIDM5OiBkZWx0'' @
     ''YSBlY2hvIGZveHRyb3QgZ29sZgogICA0MDogZWNobyBmb3h0cm90IGdvbGYgaG90ZWwK'' @
     ''ICAgNDE6IGZveHRyb3QgZ29sZiBob3RlbCBpbmRpYQogICA0MjogZ29sZiBob3RlbCBp'' @
     ''bmRpYSBqdWxpZXQKICAgNDM6IGhvdGVsIGluZGlhIGp1bGlldCBraWxvCiAgIDQ0OiBp'' @
     ''bmRpYSBqdWxpZXQga2lsbyBsaW1hCiAgIDQ1OiBqdWxpZXQga2lsbyBsaW1hIGFscGhh'' @
     ''CiAgIDQ2OiBraWxvIGxpbWEgYWxwaGEgYnJhdm8KICAgNDc6IGxpbWEgYWxwaGEgYnJh'' @
     ''dm8gY2hhcmxpZQogICA0ODogYWxwaGEgYnJhdm8gY2hhcmxpZSBkZWx0YQogICA0OTog'' @
     ''YnJhdm8gY2hhcmxpZSBkZWx0YSBlY2hvCiAgIDUwOiBjaGFybGllIGRlbHRhIGVjaG8g'' @
     ''Zm94dHJvdAogICA1MTogZGVsdGEgZWNobyBmb3h0cm90IGdvbGYKICAgNTI6IGVjaG8g'' @
     ''Zm94dHJvdCBnb2xmIGhvdGVsCiAgIDUzOiBmb3h0cm90IGdvbGYgaG90ZWwgaW5kaWEK'' @
     ''ICAgNTQ6IGdvbGYgaG90ZWwgaW5kaWEganVsaWV0CiAgIDU1OiBob3RlbCBpbmRpYSBq'' @
     ''dWxpZXQga2lsbwogICA1NjogaW5kaWEganVsaWV0IGtpbG8gbGltYQogICA1NzoganVs'' @
     ''aWV0IGtpbG8gbGltYSBhbHBoYQogICA1ODoga2lsbyBsaW1hIGFscGhhIGJyYXZvCiAg'' @
     ''IDU5OiBsaW1hIGFscGhhIGJyYXZvIGNoYXJsaWUKICAgNjA6IGFscGhhIGJyYXZvIGNo'' @
     ''YXJsaWUgZGVsdGEKICAgNjE6IGJyYXZvIGNoYXJsaWUgZGVsdGEgZWNobwogICA2Mjog'' @
     ''Y2hhcmxpZSBkZWx0YSBlY2hvIGZveHRyb3QKICAgNjM6IGRlbHRhIGVjaG8gZm94dHJv'' @
     ''dCBnb2xmCiAgIDY0OiBlY2hvIGZveHRyb3QgZ29sZiBob3RlbAogICA2NTogZm94dHJv'' @
     ''dCBnb2xmIGhvdGVsIGluZGlhCiAgIDY2OiBnb2xmIGhvdGVsIGluZGlhIGp1bGlldAog'' @
     ''ICA2NzogaG90ZWwgaW5kaWEganVsaWV0IGtpbG8KICAgNjg6IGluZGlhIGp1bGlldCBr'' @
     ''aWxvIGxpbWEKICAgNjk6IGp1bGlldCBraWxvIGxpbWEgYWxwaGEKICAgNzA6IGtpbG8g'' @
     ''bGltYSBhbHBoYSBicmF2bwogICA3MTogbGltYSBhbHBoYSBicmF2byBjaGFybGllCiAg'' @
     ''IDcyOiBhbHBoYSBicmF2byBjaGFybGllIGRlbHRhCiAgIDczOiBicmF2byBjaGFybGll'' @
     ''IGRlbHRhIGVjaG8KICAgNzQ6IGNoYXJsaWUgZGVsdGEgZWNobyBmb3h0cm90CiAgIDc1'' @
     ''OiBkZWx0YSBlY2hvIGZveHRyb3QgZ29sZgogICA3NjogZWNobyBmb3h0cm90IGdvbGYg'' @
     ''aG90ZWwKICAgNzc6IGZveHRyb3QgZ29sZiBob3RlbCBpbmRpYQogICA3ODogZ29sZiBo'' @
     ''b3RlbCBpbmRpYSBqdWxpZXQKICAgNzk6IGhvdGVsIGluZGlhIGp1bGlldCBraWxvCiAg'' @
     ''IDgwOiBpbmRpYSBqdWxpZXQga2lsbyBsaW1hCiAgIDgxOiBqdWxpZXQga2lsbyBsaW1h'' @
     ''IGFscGhhCiAgIDgyOiBraWxvIGxpbWEgYWxwaGEgYnJhdm8KICAgODM6IGxpbWEgYWxw'' @
     ''aGEgYnJhdm8gY2hhcmxpZQogICA4NDogYWxwaGEgYnJhdm8gY2hhcmxpZSBkZWx0YQog'' @
     ''ICA4NTogYnJhdm8gY2hhcmxpZSBkZWx0YSBlY2hvCiAgIDg2OiBjaGFybGllIGRlbHRh'' @
     ''IGVjaG8gZm94dHJvdAogICA4NzogZGVsdGEgZWNobyBmb3h0cm90IGdvbGYKICAgODg6'' @
     ''IGVjaG8gZm94dHJvdCBnb2xmIGhvdGVsCiAgIDg5OiBmb3h0cm90IGdvbGYgaG90ZWwg'' @
     ''aW5kaWEKICAgOTA6IGdvbGYgaG90ZWwgaW5kaWEganVsaWV0CiAgIDkxOiBob3RlbCBp'' @
     ''bmRpYSBqdWxpZXQga2lsbwogICA5MjogaW5kaWEganVsaWV0IGtpbG8gbGltYQogICA5'' @
     ''MzoganVsaWV0IGtpbG8gbGltYSBhbHBoYQogICA5NDoga2lsbyBsaW1hIGFscGhhIGJy'' @
     ''YXZvCiAgIDk1OiBsaW1hIGFscGhhIGJyYXZvIGNoYXJsaWUKICAgOTY6IGFscGhhIGJy'' @
     ''YXZvIGNoYXJsaWUgZGVsdGEKICAgOTc6IGJyYXZvIGNoYXJsaWUgZGVsdGEgZWNobwog'' @
     ''ICA5ODogY2hhcmxpZSBkZWx0YSBlY2hvIGZveHRyb3QKICAgOTk6IGRlbHRhIGVjaG8g'' @
     ''Zm94dHJvdCBnb2xmCiAgMTAwOiBlY2hvIGZveHRyb3QgZ29sZiBob3RlbAogIDEwMTog'' @
     ''Zm94dHJvdCBnb2xmIGhvdGVsIGluZGlhCiAgMTAyOiBnb2xmIGhvdGVsIGluZGlhIGp1'' @
     ''bGlldAogIDEwMzogaG90ZWwgaW5kaWEganVsaWV0IGtpbG8KICAxMDQ6IGluZGlhIGp1'' @
     ''bGlldCBraWxvIGxpbWEKICAxMDU6IGp1bGlldCBraWxvIGxpbWEgYWxwaGEKICAxMDY6'' @
     ''IGtpbG8gbGltYSBhbHBoYSBicmF2bwogIDEwNzogbGltYSBhbHBoYSBicmF2byBjaGFy'' @
     ''bGllCiAgMTA4OiBhbHBoYSBicmF2byBjaGFybGllIGRlbHRhCiAgMTA5OiBicmF2byBj'' @
     ''aGFybGllIGRlbHRhIGVjaG8KICAxMTA6IGNoYXJsaWUgZGVsdGEgZWNobyBmb3h0cm90'' @
     ''CiAgMTExOiBkZWx0YSBlY2hvIGZveHRyb3QgZ29sZgogIDExMjogZWNobyBmb3h0cm90'' @
     ''IGdvbGYgaG90ZWwKICAxMTM6IGZveHRyb3QgZ29sZiBob3RlbCBpbmRpYQogIDExNDog'' @
     ''Z29sZiBob3RlbCBpbmRpYSBqdWxpZXQKICAxMTU6IGhvdGVsIGluZGlhIGp1bGlldCBr'' @
     ''aWxvCiAgMTE2OiBpbmRpYSBqdWxpZXQga2lsbyBsaW1hCiAgMTE3OiBqdWxpZXQga2ls'' @
     ''byBsaW1hIGFscGhhCiAgMTE4OiBraWxvIGxpbWEgYWxwaGEgYnJhdm8KICAxMTk6IGxp'' @
     ''bWEgYWxwaGEgYnJhdm8gY2hhcmxpZQogIDEyMDogYWxwaGEgYnJhdm8gY2hhcmxpZSBk'' @
     ''ZWx0YQogIDEyMTogYnJhdm8gY2hhcmxpZSBkZWx0YSBlY2hvCiAgMTIyOiBjaGFybGll'' @
     ''IGRlbHRhIGVjaG8gZm94dHJvdAogIDEyMzogZGVsdGEgZWNobyBmb3h0cm90IGdvbGYK'' @
     ''ICAxMjQ6IGVjaG8gZm94dHJvdCBnb2xmIGhvdGVsCiAgMTI1OiBmb3h0cm90IGdvbGYg'' @
     ''aG90ZWwgaW5kaWEKICAxMjY6IGdvbGYgaG90ZWwgaW5kaWEganVsaWV0CiAgMTI3OiBo'' @
     ''b3RlbCBpbmRpYSBqdWxpZXQga2lsbwogIDEyODogaW5kaWEganVsaWV0IGtpbG8gbGlt'' @
     ''YQogIDEyOToganVsaWV0IGtpbG8gbGltYSBhbHBoYQogIDEzMDoga2lsbyBsaW1hIGFs'' @
     ''cGhhIGJyYXZvCiAgMTMxOiBsaW1hIGFscGhhIGJyYXZvIGNoYXJsaWUKICAxMzI6IGFs'' @
     ''cGhhIGJyYXZvIGNoYXJsaWUgZGVsdGEKICAxMzM6IGJyYXZvIGNoYXJsaWUgZGVsdGEg'' @
     ''ZWNobwogIDEzNDogY2hhcmxpZSBkZWx0YSBlY2hvIGZveHRyb3QKICAxMzU6IGRlbHRh'' @
     ''IGVjaG8gZm94dHJvdCBnb2xmCiAgMTM2OiBlY2hvIGZveHRyb3QgZ29sZiBob3RlbAog'' @
     ''IDEzNzogZm94dHJvdCBnb2xmIGhvdGVsIGluZGlhCiAgMTM4OiBnb2xmIGhvdGVsIGlu'' @
     ''ZGlhIGp1bGlldAogIDEzOTogaG90ZWwgaW5kaWEganVsaWV0IGtpbG8KICAxNDA6IGlu'' @
     ''ZGlhIGp1bGlldCBraWxvIGxpbWEKICAxNDE6IGp1bGlldCBraWxvIGxpbWEgYWxwaGEK'' @
     ''ICAxNDI6IGtpbG8gbGltYSBhbHBoYSBicmF2bwogIDE0MzogbGltYSBhbHBoYSBicmF2'' @
     ''byBjaGFybGllCiAgMTQ0OiBhbHBoYSBicmF2byBjaGFybGllIGRlbHRhCiAgMTQ1OiBi'' @
     ''cmF2byBjaGFybGllIGRlbHRhIGVjaG8KICAxNDY6IGNoYXJsaWUgZGVsdGEgZWNobyBm'' @
     ''b3h0cm90CiAgMTQ3OiBkZWx0YSBlY2hvIGZveHRyb3QgZ29sZgogIDE0ODogZWNobyBm'' @
     ''b3h0cm90IGdvbGYgaG90ZWwKICAxNDk6IGZveHRyb3QgZ29sZiBob3RlbCBpbmRpYQog'' @
     ''IDE1MDogZ29sZiBob3RlbCBpbmRpYSBqdWxpZXQKICAxNTE6IGhvdGVsIGluZGlhIGp1'' @
     ''bGlldCBraWxvCiAgMTUyOiBpbmRpYSBqdWxpZXQga2lsbyBsaW1hCiAgMTUzOiBqdWxp'' @
     ''ZXQga2lsbyBsaW1hIGFscGhhCiAgMTU0OiBraWxvIGxpbWEgYWxwaGEgYnJhdm8KICAx'' @
     ''NTU6IGxpbWEgYWxwaGEgYnJhdm8gY2hhcmxpZQogIDE1NjogYWxwaGEgYnJhdm8gY2hh'' @
     ''cmxpZSBkZWx0YQogIDE1NzogYnJhdm8gY2hhcmxpZSBkZWx0YSBlY2hvCiAgMTU4OiBj'' @
     ''aGFybGllIGRlbHRhIGVjaG8gZm94dHJvdAogIDE1OTogZGVsdGEgZWNobyBmb3h0cm90'' @
     ''IGdvbGYKICAxNjA6IGVjaG8gZm94dHJvdCBnb2xmIGhvdGVsCiAgMTYxOiBmb3h0cm90'' @
     ''IGdvbGYgaG90ZWwgaW5kaWEKICAxNjI6IGdvbGYgaG90ZWwgaW5kaWEganVsaWV0CiAg'' @
     ''MTYzOiBob3RlbCBpbmRpYSBqdWxpZXQga2lsbwogIDE2NDogaW5kaWEganVsaWV0IGtp'' @
     ''bG8gbGltYQogIDE2NToganVsaWV0IGtpbG8gbGltYSBhbHBoYQogIDE2Njoga2lsbyBs'' @
     ''aW1hIGFscGhhIGJyYXZvCiAgMTY3OiBsaW1hIGFscGhhIGJyYXZvIGNoYXJsaWUKICAx'' @
     ''Njg6IGFscGhhIGJyYXZvIGNoYXJsaWUgZGVsdGEKICAxNjk6IGJyYXZvIGNoYXJsaWUg'' @
     ''ZGVsdGEgZWNobwogIDE3MDogY2hhcmxpZSBkZWx0YSBlY2hvIGZveHRyb3QKICAxNzE6'' @
     ''IGRlbHRhIGVjaG8gZm94dHJvdCBnb2xmCiAgMTcyOiBlY2hvIGZveHRyb3QgZ29sZiBo'' @
     ''b3RlbAogIDE3MzogZm94dHJvdCBnb2xmIGhvdGVsIGluZGlhCiAgMTc0OiBnb2xmIGhv'' @
     ''dGVsIGluZGlhIGp1bGlldAogIDE3NTogaG90ZWwgaW5kaWEganVsaWV0IGtpbG8KICAx'' @
     ''NzY6IGluZGlhIGp1bGlldCBraWxvIGxpbWEKICAxNzc6IGp1bGlldCBraWxvIGxpbWEg'' @
     ''YWxwaGEKICAxNzg6IGtpbG8gbGltYSBhbHBoYSBicmF2bwogIDE3OTogbGltYSBhbHBo'' @
     ''YSBicmF2byBjaGFybGllCiAgMTgwOiBhbHBoYSBicmF2byBjaGFybGllIGRlbHRhCiAg'' @
     ''MTgxOiBicmF2byBjaGFybGllIGRlbHRhIGVjaG8KICAxODI6IGNoYXJsaWUgZGVsdGEg'' @
     ''ZWNobyBmb3h0cm90CiAgMTgzOiBkZWx0YSBlY2hvIGZveHRyb3QgZ29sZgogIDE4NDog'' @
     ''ZWNobyBmb3h0cm90IGdvbGYgaG90ZWwKICAxODU6IGZveHRyb3QgZ29sZiBob3RlbCBp'' @
     ''bmRpYQogIDE4NjogZ29sZiBob3RlbCBpbmRpYSBqdWxpZXQKICAxODc6IGhvdGVsIGlu'' @
     ''ZGlhIGp1bGlldCBraWxvCiAgMTg4OiBpbmRpYSBqdWxpZXQga2lsbyBsaW1hCiAgMTg5'' @
     ''OiBqdWxpZXQga2lsbyBsaW1hIGFscGhhCiAgMTkwOiBraWxvIGxpbWEgYWxwaGEgYnJh'' @
     ''dm8KICAxOTE6IGxpbWEgYWxwaGEgYnJhdm8gY2hhcmxpZQogIDE5MjogYWxwaGEgYnJh'' @
     ''dm8gY2hhcmxpZSBkZWx0YQogIDE5MzogYnJhdm8gY2hhcmxpZSBkZWx0YSBlY2hvCiAg'' @
     ''MTk0OiBjaGFybGllIGRlbHRhIGVjaG8gZm94dHJvdAogIDE5NTogZGVsdGEgZWNobyBm'' @
     ''b3h0cm90IGdvbGYKICAxOTY6IGVjaG8gZm94dHJvdCBnb2xmIGhvdGVsCiAgMTk3OiBm'' @
     ''b3h0cm90IGdvbGYgaG90ZWwgaW5kaWEKICAxOTg6IGdvbGYgaG90ZWwgaW5kaWEganVs'' @
     ''aWV0CiAgMTk5OiBob3RlbCBpbmRpYSBqdWxpZXQga2lsbwogIDIwMDogaW5kaWEganVs'' @
     ''aWV0IGtpbG8gbGltYQogIDIwMToganVsaWV0IGtpbG8gbGltYSBhbHBoYQogIDIwMjog'' @
     ''a2lsbyBsaW1hIGFscGhhIGJyYXZvCiAgMjAzOiBsaW1hIGFscGhhIGJyYXZvIGNoYXJs'' @
     ''aWUKICAyMDQ6IGFscGhhIGJyYXZvIGNoYXJsaWUgZGVsdGEKICAyMDU6IGJyYXZvIGNo'' @
     ''YXJsaWUgZGVsdGEgZWNobwogIDIwNjogY2hhcmxpZSBkZWx0YSBlY2hvIGZveHRyb3QK'' @
     ''ICAyMDc6IGRlbHRhIGVjaG8gZm94dHJvdCBnb2xmCiAgMjA4OiBlY2hvIGZveHRyb3Qg'' @
     ''Z29sZiBob3RlbAogIDIwOTogZm94dHJvdCBnb2xmIGhvdGVsIGluZGlhCiAgMjEwOiBn'' @
     ''b2xmIGhvdGVsIGluZGlhIGp1bGlldAogIDIxMTogaG90ZWwgaW5kaWEganVsaWV0IGtp'' @
     ''bG8KICAyMTI6IGluZGlhIGp1bGlldCBraWxvIGxpbWEKICAyMTM6IGp1bGlldCBraWxv'' @
     ''IGxpbWEgYWxwaGEKICAyMTQ6IGtpbG8gbGltYSBhbHBoYSBicmF2bwogIDIxNTogbGlt'' @
     ''YSBhbHBoYSBicmF2byBjaGFybGllCiAgMjE2OiBhbHBoYSBicmF2byBjaGFybGllIGRl'' @
     ''bHRhCiAgMjE3OiBicmF2byBjaGFybGllIGRlbHRhIGVjaG8KICAyMTg6IGNoYXJsaWUg'' @
     ''ZGVsdGEgZWNobyBmb3h0cm90CiAgMjE5OiBkZWx0YSBlY2hvIGZveHRyb3QgZ29sZgog'' @
     ''IDIyMDogZWNobyBmb3h0cm90IGdvbGYgaG90ZWwKICAyMjE6IGZveHRyb3QgZ29sZiBo'' @
     ''b3RlbCBpbmRpYQogIDIyMjogZ29sZiBob3RlbCBpbmRpYSBqdWxpZXQKICAyMjM6IGhv'' @
     ''dGVsIGluZGlhIGp1bGlldCBraWxvCiAgMjI0OiBpbmRpYSBqdWxpZXQga2lsbyBsaW1h'' @
     ''CiAgMjI1OiBqdWxpZXQga2lsbyBsaW1hIGFscGhhCiAgMjI2OiBraWxvIGxpbWEgYWxw'' @
     ''aGEgYnJhdm8KICAyMjc6IGxpbWEgYWxwaGEgYnJhdm8gY2hhcmxpZQogIDIyODogYWxw'' @
     ''aGEgYnJhdm8gY2hhcmxpZSBkZWx0YQogIDIyOTogYnJhdm8gY2hhcmxpZSBkZWx0YSBl'' @
     ''Y2hvCiAgMjMwOiBjaGFybGllIGRlbHRhIGVjaG8gZm94dHJvdAogIDIzMTogZGVsdGEg'' @
     ''ZWNobyBmb3h0cm90IGdvbGYKICAyMzI6IGVjaG8gZm94dHJvdCBnb2xmIGhvdGVsCiAg'' @
     ''MjMzOiBmb3h0cm90IGdvbGYgaG90ZWwgaW5kaWEKICAyMzQ6IGdvbGYgaG90ZWwgaW5k'' @
     ''aWEganVsaWV0CiAgMjM1OiBob3RlbCBpbmRpYSBqdWxpZXQga2lsbwogIDIzNjogaW5k'' @
     ''aWEganVsaWV0IGtpbG8gbGltYQogIDIzNzoganVsaWV0IGtpbG8gbGltYSBhbHBoYQog'' @
     ''IDIzODoga2lsbyBsaW1hIGFscGhhIGJyYXZvCiAgMjM5OiBsaW1hIGFscGhhIGJyYXZv'' @
     ''IGNoYXJsaWUKICAyNDA6IGFscGhhIGJyYXZvIGNoYXJsaWUgZGVsdGEKICAyNDE6IGJy'' @
     ''YXZvIGNoYXJsaWUgZGVsdGEgZWNobwogIDI0MjogY2hhcmxpZSBkZWx0YSBlY2hvIGZv'' @
     ''eHRyb3QKICAyNDM6IGRlbHRhIGVjaG8gZm94dHJvdCBnb2xmCiAgMjQ0OiBlY2hvIGZv'' @
     ''eHRyb3QgZ29sZiBob3RlbAogIDI0NTogZm94dHJvdCBnb2xmIGhvdGVsIGluZGlhCiAg'' @
     ''MjQ2OiBnb2xmIGhvdGVsIGluZGlhIGp1bGlldAogIDI0NzogaG90ZWwgaW5kaWEganVs'' @
     ''aWV0IGtpbG8KICAyNDg6IGluZGlhIGp1bGlldCBraWxvIGxpbWEKICAyNDk6IGp1bGll'' @
     ''dCBraWxvIGxpbWEgYWxwaGEKICAyNTA6IGtpbG8gbGltYSBhbHBoYSBicmF2bwogIDI1'' @
     ''MTogbGltYSBhbHBoYSBicmF2byBjaGFybGllCiAgMjUyOiBhbHBoYSBicmF2byBjaGFy'' @
     ''bGllIGRlbHRhCiAgMjUzOiBicmF2byBjaGFybGllIGRlbHRhIGVjaG8KICAyNTQ6IGNo'' @
     ''YXJsaWUgZGVsdGEgZWNobyBmb3h0cm90CiAgMjU1OiBkZWx0YSBlY2hvIGZveHRyb3Qg'' @
     ''Z29sZgogIDI1NjogZWNobyBmb3h0cm90IGdvbGYgaG90ZWwKICAyNTc6IGZveHRyb3Qg'' @
     ''Z29sZiBob3RlbCBpbmRpYQogIDI1ODogZ29sZiBob3RlbCBpbmRpYSBqdWxpZXQKICAy'' @
     ''NTk6IGhvdGVsIGluZGlhIGp1bGlldCBraWxvCiAgMjYwOiBpbmRpYSBqdWxpZXQga2ls'' @
     ''byBsaW1hCiAgMjYxOiBqdWxpZXQga2lsbyBsaW1hIGFscGhhCiAgMjYyOiBraWxvIGxp'' @
     ''bWEgYWxwaGEgYnJhdm8KICAyNjM6IGxpbWEgYWxwaGEgYnJhdm8gY2hhcmxpZQogIDI2'' @
     ''NDogYWxwaGEgYnJhdm8gY2hhcmxpZSBkZWx0YQogIDI2NTogYnJhdm8gY2hhcmxpZSBk'' @
     ''ZWx0YSBlY2hvCiAgMjY2OiBjaGFybGllIGRlbHRhIGVjaG8gZm94dHJvdAogIDI2Nzog'' @
     ''ZGVsdGEgZWNobyBmb3h0cm90IGdvbGYKICAyNjg6IGVjaG8gZm94dHJvdCBnb2xmIGhv'' @
     ''dGVsCiAgMjY5OiBmb3h0cm90IGdvbGYgaG90ZWwgaW5kaWEKICAyNzA6IGdvbGYgaG90'' @
     ''ZWwgaW5kaWEganVsaWV0CiAgMjcxOiBob3RlbCBpbmRpYSBqdWxpZXQga2lsbwogIDI3'' @
     ''MjogaW5kaWEganVsaWV0IGtpbG8gbGltYQogIDI3MzoganVsaWV0IGtpbG8gbGltYSBh'' @
     ''bHBoYQogIDI3NDoka2lsbyBsaW1hIGFscGhhIGJyYXZvCiAgMjc1OiBsaW1hIGFscGhh'' @
     ''IGJyYXZvIGNoYXJsaWUKICAyNzY6IGFscGhhIGJyYXZvIGNoYXJsaWUgZGVsdGEKICAy'' @
     ''Nzc6IGJyYXZvIGNoYXJsaWUgZGVsdGEgZWNobwogIDI3ODogY2hhcmxpZSBkZWx0YSBl'' @
     ''Y2hvIGZveHRyb3QKICAyNzk6IGRlbHRhIGVjaG8gZm94dHJvdCBnb2xmCiAgMjgwOiBl'' @
     ''Y2hvIGZveHRyb3QgZ29sZiBob3RlbAogIDI4MTogZm94dHJvdCBnb2xmIGhvdGVsIGlu'' @
     ''ZGlhCiAgMjgyOiBnb2xmIGhvdGVsIGluZGlhIGp1bGlldAogIDI4MzogaG90ZWwgaW5k'' @
     ''aWEganVsaWV0IGtpbG8KICAyODQ6IGluZGlhIGp1bGlldCBraWxvIGxpbWEKICAyODU6'' @
     ''IGp1bGlldCBraWxvIGxpbWEgYWxwaGEKICAyODY6IGtpbG8gbGltYSBhbHBoYSBicmF2'' @
     ''bwogIDI4NzogbGltYSBhbHBoYSBicmF2byBjaGFybGllCiAgMjg4OiBhbHBoYSBicmF2'' @
     ''byBjaGFybGllIGRlbHRhCiAgMjg5OiBicmF2byBjaGFybGllIGRlbHRhIGVjaG8KICAy'' @
     ''OTA6IGNoYXJsaWUgZGVsdGEgZWNobyBmb3h0cm90CiAgMjkxOiBkZWx0YSBlY2hvIGZv'' @
     ''eHRyb3QgZ29sZgogIDI5MjogZWNobyBmb3h0cm90IGdvbGYgaG90ZWwKICAyOTM6IGZv'' @
     ''eHRyb3QgZ29sZiBob3RlbCBpbmRpYQogIDI5NDogZ29sZiBob3RlbCBpbmRpYSBqdWxp'' @
     ''ZXQKICAyOTU6IGhvdGVsIGluZGlhIGp1bGlldCBraWxvCiAgMjk2OiBpbmRpYSBqdWxp'' @
     ''ZXQga2lsbyBsaW1hCiAgMjk3OiBqdWxpZXQga2lsbyBsaW1hIGFscGhhCiAgMjk4OiBr'' @
     ''aWxvIGxpbWEgYWxwaGEgYnJhdm8KICAyOTk6IGxpbWEgYWxwaGEgYnJhdm8gY2hhcmxp'' @
     ''ZQogIDMwMDogYWxwaGEgYnJhdm8gY2hhcmxpZSBkZWx0YQoKRG9uZS4gMzAwIGxpbmVz'' @
     ''IHdyaXR0ZW4uCg==''"

definition CSV_WASM_B64 :: string where
  "CSV_WASM_B64 =
     ''AGFzbQEAAAABIgVgCX9/f39/fn5/fwF/YAR/f39/AX9gAX8Bf2ABfwBgAAACiwEEFndh'' @
     ''c2lfc25hcHNob3RfcHJldmlldzEJcGF0aF9vcGVuAAAWd2FzaV9zbmFwc2hvdF9wcmV2'' @
     ''aWV3MQhmZF93cml0ZQABFndhc2lfc25hcHNob3RfcHJldmlldzEIZmRfY2xvc2UAAhZ3'' @
     ''YXNpX3NuYXBzaG90X3ByZXZpZXcxCXByb2NfZXhpdAADAwIBBAUDAQABBxMCBm1lbW9y'' @
     ''eQIABl9zdGFydAAECl4BXABBAEEQNgIAQQRB9wA2AgBBAUEAQQFBCBABGkEDQQBBhwFB'' @
     ''FEEJQn9Cf0EAQQwQABpBAEGbATYCAEEEQb0HNgIAQQwoAgBBAEEBQQgQARpBDCgCABAC'' @
     ''GkEAEAMLC88IAQBBEAvICENTViBGaWxlIERlbW8KPT09PT09PT09PT09PQogIFdyaXRp'' @
     ''bmcgL3dvcmtzcGFjZS9zYWxlcy5jc3YgLi4uCiAgUHJldmlldyBpdCBpbiB0aGUgbGVm'' @
     ''dCBwYW5lbCB1c2luZyB0aGUgRGF0YUdyaWQgdmlldy4KL3dvcmtzcGFjZS9zYWxlcy5j'' @
     ''c3Ztb250aCxyZWdpb24scmV2ZW51ZSx1bml0cwpKYW4sTm9ydGgsOTM4MTAsMTA3Ckph'' @
     ''bixTb3V0aCwxMzI3OCw0MjkKSmFuLEVhc3QsNDYwNDgsMTc1CkphbixXZXN0LDM5MjU2'' @
     ''LDEyMQpGZWIsTm9ydGgsMjM0MzQsMzk2CkZlYixTb3V0aCw4MTQ4Miw5NApGZWIsRWFz'' @
     ''dCw4NzM5NywyNjYKRmViLFdlc3QsMTQxNjUsNjUKTWFyLE5vcnRoLDIyMjgwLDE2MQpN'' @
     ''YXIsU291dGgsNDA0OTUsMzA4Ck1hcixFYXN0LDg4OTA3LDYzCk1hcixXZXN0LDgzNTYz'' @
     ''LDE1MQpBcHIsTm9ydGgsOTUxODEsNDA5CkFwcixTb3V0aCw4MTQyNiwyNjQKQXByLEVh'' @
     ''c3QsMzg4OTMsMjc5CkFwcixXZXN0LDg3MjM2LDE5MgpNYXksTm9ydGgsMTA4NTEsNDM4'' @
     ''Ck1heSxTb3V0aCwzMDkyNiw0MDcKTWF5LEVhc3QsNjUzOTIsMjI0Ck1heSxXZXN0LDQ2'' @
     ''NDIxLDEyOQpKdW4sTm9ydGgsMzgyMjEsNDQwCkp1bixTb3V0aCw1NDExOCwxMDIKSnVu'' @
     ''LEVhc3QsMjIxNTYsMjQ0Ckp1bixXZXN0LDIyNjc2LDIzMwpKdWwsTm9ydGgsNTUwODIs'' @
     ''MzU5Ckp1bCxTb3V0aCw0NDY3MSw0NjMKSnVsLEVhc3QsMTU2OTUsNDIzCkp1bCxXZXN0'' @
     ''LDcwMjE3LDMyNApBdWcsTm9ydGgsMjYzNjEsMjQzCkF1ZyxTb3V0aCwyMDMyOCwzMzIK'' @
     ''QXVnLEVhc3QsNDg0MjcsNDc0CkF1ZyxXZXN0LDkyMzk3LDM2NgpTZXAsTm9ydGgsNTc0'' @
     ''MDAsMzQ1ClNlcCxTb3V0aCwzNTIwMyw0MTAKU2VwLEVhc3QsMTkxMTYsNzMKU2VwLFdl'' @
     ''c3QsOTY2NzMsMTY2Ck9jdCxOb3J0aCw0NzkzMCw5MApPY3QsU291dGgsNDA1MTIsNDkz'' @
     ''Ck9jdCxFYXN0LDIzMjM4LDI0NApPY3QsV2VzdCw0NjQzNCwyODIKTm92LE5vcnRoLDkz'' @
     ''MzIwLDQ3NwpOb3YsU291dGgsNTc4MTksMTMzCk5vdixFYXN0LDU4NTIwLDIzMQpOb3Ys'' @
     ''V2VzdCwzNzQ2MCwzOTMKRGVjLE5vcnRoLDQ0OTkzLDQwOQpEZWMsU291dGgsOTQ5Mzks'' @
     ''ODYKRGVjLEVhc3QsODk4NDAsMzc1CkRlYyxXZXN0LDMyNDMxLDMyMwo=''"

definition MARKDOWN_WASM_B64 :: string where
  "MARKDOWN_WASM_B64 =
     ''AGFzbQEAAAABIgVgCX9/f39/fn5/fwF/YAR/f39/AX9gAX8Bf2ABfwBgAAACiwEEFndhc2lfc25hcHNo'' @
     ''b3RfcHJldmlldzEJcGF0aF9vcGVuAAAWd2FzaV9zbmFwc2hvdF9wcmV2aWV3MQhmZF93cml0ZQABFndh'' @
     ''c2lfc25hcHNob3RfcHJldmlldzEIZmRfY2xvc2UAAhZ3YXNpX3NuYXBzaG90X3ByZXZpZXcxCXByb2Nf'' @
     ''ZXhpdAADAwIBBAUDAQABBxMCBm1lbW9yeQIABl9zdGFydAAECl4BXABBAEEQNgIAQQRB7wA2AgBBAUEA'' @
     ''QQFBCBABGkEDQQBB/wBBFEEJQn9Cf0EAQQwQABpBAEGTATYCAEEEQfkINgIAQQwoAgBBAEEBQQgQARpB'' @
     ''DCgCABACGkEAEAMLC4MKAQBBEAv8CU1hcmtkb3duIFByZXZpZXcgRGVtbwo9PT09PT09PT09PT09PT09'' @
     ''PT09PT0KICBXcml0aW5nIC93b3Jrc3BhY2UvcmVhZG1lLm1kIC4uLgogIFByZXZpZXcgaXQgaW4gdGhl'' @
     ''IGxlZnQgcGFuZWwuCi93b3Jrc3BhY2UvcmVhZG1lLm1kIyBJc29sYXRvci1WIFNhbmRib3gKCkEgKipX'' @
     ''ZWJBc3NlbWJseSoqIGV4ZWN1dGlvbiBlbnZpcm9ubWVudCB3aXRoIHJlYWwtdGltZSB0ZWxlbWV0cnku'' @
     ''CgojIyBGZWF0dXJlcwoKLSBJc29sYXRlZCBXQVNNIGV4ZWN1dGlvbiB2aWEgX3dhc210aW1lXyAyNQot'' @
     ''IFZpcnR1YWwgZmlsZXN5c3RlbSAoVkZTKSB3aXRoIGlubGluZSBzbmFwc2hvdCBkZWxpdmVyeQotIFJp'' @
     ''Y2ggZmlsZSBwcmV2aWV3ZXJzOiBDU1YsIEpTT04gY2hhcnRzLCBNYXJrZG93biwgSW1hZ2VzCi0gRGFy'' @
     ''ayAvIGxpZ2h0IG1vZGUgdG9nZ2xlCi0gUmVzaXphYmxlIHBhbmVsIGxheW91dAoKIyMgQ29kZSBFeGFt'' @
     ''cGxlCgpgYGBydXN0CmZuIG1haW4oKSB7CiAgICBwcmludGxuISgiSGVsbG8gZnJvbSBJc29sYXRvci1W'' @
     ''IFdBU00hIik7Cn0KYGBgCgojIyBBcmNoaXRlY3R1cmUKClRoZSBleGVjdXRpb24gcGlwZWxpbmU6Cgog'' @
     ''ICAgQnJvd3NlciDihpIgV2ViU29ja2V0IOKGkiBHbyBPcmNoZXN0cmF0b3Ig4oaSIEhUVFAg4oaSIFJ1'' @
     ''c3Qgd2FzbS13b3JrZXItbWFuYWdlciDihpIgd2FzbXRpbWUKCiMjIFN0YXR1cyBUYWJsZQoKfCBDb21w'' @
     ''b25lbnQgICAgICB8IFN0YXR1cyAgfCBOb3RlcyAgICAgICAgICAgICAgICAgICAgICAgICB8CnwtLS0t'' @
     ''LS0tLS0tLS0tLS0tfC0tLS0tLS0tLXwtLS0tLS0tLS0tLS0tLS0tLS0tLS0tLS0tLS0tLS0tfAp8IE9y'' @
     ''Y2hlc3RyYXRvciAgIHwgUnVubmluZyB8IEdvLCBXZWJTb2NrZXQgKyBIVFRQIEFQSSAgICAgIHwKfCBX'' @
     ''QVNNIFdvcmtlciAgICB8IFJ1bm5pbmcgfCBSdXN0ICsgd2FzbXRpbWUgMjUuMCAgICAgICAgICB8Cnwg'' @
     ''VkZTIFNuYXBzaG90ICAgfCBJbmxpbmUgIHwgQmFzZTY0IGluIFdTIGV4aXQgZnJhbWUgICAgICAgfAp8'' @
     ''IFByZXZpZXdlciAgICAgIHwgQWN0aXZlICB8IFRoaXMgZmlsZSEgICAgICAgICAgICAgICAgICAgIHwK'' @
     ''CiMjIEJsb2NrcXVvdGUKCj4gKipOb3RlOioqIFRoaXMgZmlsZSB3YXMgd3JpdHRlbiBieSBhIGhhbmQt'' @
     ''YXNzZW1ibGVkIFdBU00gYmluYXJ5Cj4gYW5kIGRlbGl2ZXJlZCBpbmxpbmUgdmlhIHRoZSBXZWJTb2Nr'' @
     ''ZXQgZXhpdCBmcmFtZSDigJQgbm8gZGF0YWJhc2UgcmVxdWlyZWQuCgotLS0KCl9Jc29sYXRvci1WIOKA'' @
     ''lCBleGVjdXRpb24gc2FuZGJveCByZXNlYXJjaCBwcmV2aWV3Xwo=''"

definition SVG_WASM_B64 :: string where
  "SVG_WASM_B64 =
     ''AGFzbQEAAAABIgVgCX9/f39/fn5/fwF/YAR/f39/AX9gAX8Bf2ABfwBgAAACiwEEFndhc2lfc25hcHNo'' @
     ''b3RfcHJldmlldzEJcGF0aF9vcGVuAAAWd2FzaV9zbmFwc2hvdF9wcmV2aWV3MQhmZF93cml0ZQABFndh'' @
     ''c2lfc25hcHNob3RfcHJldmlldzEIZmRfY2xvc2UAAhZ3YXNpX3NuYXBzaG90X3ByZXZpZXcxCXByb2Nf'' @
     ''ZXhpdAADAwIBBAUDAQABBxMCBm1lbW9yeQIABl9zdGFydAAECl4BXABBAEEQNgIAQQRB4wA2AgBBAUEA'' @
     ''QQFBCBABGkEDQQBB8wBBFkEJQn9Cf0EAQQwQABpBAEGJATYCAEEEQb0hNgIAQQwoAgBBAEEBQQgQARpB'' @
     ''DCgCABACGkEAEAMLC70iAQBBEAu2IlNWRyBJbWFnZSBEZW1vCj09PT09PT09PT09PT09CiAgV3JpdGlu'' @
     ''ZyAvd29ya3NwYWNlL2RpYWdyYW0uc3ZnIC4uLgogIFByZXZpZXcgaXQgaW4gdGhlIGxlZnQgcGFuZWwu'' @
     ''Ci93b3Jrc3BhY2UvZGlhZ3JhbS5zdmc8c3ZnIHhtbG5zPSJodHRwOi8vd3d3LnczLm9yZy8yMDAwL3N2'' @
     ''ZyIgdmlld0JveD0iMCAwIDQ4MCAzMjAiIHdpZHRoPSI0ODAiIGhlaWdodD0iMzIwIj4KICA8ZGVmcz4K'' @
     ''ICAgIDxsaW5lYXJHcmFkaWVudCBpZD0iYmdHcmFkIiB4MT0iMCIgeTE9IjAiIHgyPSIwIiB5Mj0iMSI+'' @
     ''CiAgICAgIDxzdG9wIG9mZnNldD0iMCUiIHN0b3AtY29sb3I9IiMwZjBmMTIiLz4KICAgICAgPHN0b3Ag'' @
     ''b2Zmc2V0PSIxMDAlIiBzdG9wLWNvbG9yPSIjMDgwODBhIi8+CiAgICA8L2xpbmVhckdyYWRpZW50Pgog'' @
     ''ICAgPG1hcmtlciBpZD0iYXJyQmx1ZSIgbWFya2VyV2lkdGg9IjYiIG1hcmtlckhlaWdodD0iNiIgcmVm'' @
     ''WD0iNSIgcmVmWT0iMyIgb3JpZW50PSJhdXRvIj4KICAgICAgPHBhdGggZD0iTTAsMCBMMCw2IEw2LDMg'' @
     ''WiIgZmlsbD0iIzYzNjZmMSIvPgogICAgPC9tYXJrZXI+CiAgICA8bWFya2VyIGlkPSJhcnJHcmVlbiIg'' @
     ''bWFya2VyV2lkdGg9IjYiIG1hcmtlckhlaWdodD0iNiIgcmVmWD0iNSIgcmVmWT0iMyIgb3JpZW50PSJh'' @
     ''dXRvIj4KICAgICAgPHBhdGggZD0iTTAsMCBMMCw2IEw2LDMgWiIgZmlsbD0iIzIyYzU1ZSIvPgogICAg'' @
     ''PC9tYXJrZXI+CiAgPC9kZWZzPgoKICA8IS0tIEJhY2tncm91bmQgLS0+CiAgPHJlY3Qgd2lkdGg9IjQ4'' @
     ''MCIgaGVpZ2h0PSIzMjAiIGZpbGw9InVybCgjYmdHcmFkKSIgcng9IjgiLz4KCiAgPCEtLSBUaXRsZSAt'' @
     ''LT4KICA8dGV4dCB4PSIyNDAiIHk9IjM2IiBmb250LWZhbWlseT0ibW9ub3NwYWNlIiBmb250LXNpemU9'' @
     ''IjE1IiBmaWxsPSIjZThlOGYwIgogICAgICAgIHRleHQtYW5jaG9yPSJtaWRkbGUiIGZvbnQtd2VpZ2h0'' @
     ''PSJib2xkIj5Jc29sYXRvci1WIFBpcGVsaW5lPC90ZXh0PgogIDxsaW5lIHgxPSI2MCIgeTE9IjQ2IiB4'' @
     ''Mj0iNDIwIiB5Mj0iNDYiIHN0cm9rZT0iIzYzNjZmMSIgc3Ryb2tlLXdpZHRoPSIxIiBvcGFjaXR5PSIw'' @
     ''LjQiLz4KCiAgPCEtLSBCcm93c2VyIGJveCAtLT4KICA8cmVjdCB4PSIyMCIgeT0iNzAiIHdpZHRoPSI4'' @
     ''MCIgaGVpZ2h0PSI0MCIgcng9IjYiIGZpbGw9IiMxNjE2MWMiIHN0cm9rZT0iIzYzNjZmMSIgc3Ryb2tl'' @
     ''LXdpZHRoPSIxLjUiLz4KICA8dGV4dCB4PSI2MCIgeT0iOTUiIGZvbnQtZmFtaWx5PSJtb25vc3BhY2Ui'' @
     ''IGZvbnQtc2l6ZT0iMTEiIGZpbGw9IiNlOGU4ZjAiIHRleHQtYW5jaG9yPSJtaWRkbGUiPkJyb3dzZXI8'' @
     ''L3RleHQ+CgogIDwhLS0gT3JjaGVzdHJhdG9yIGJveCAtLT4KICA8cmVjdCB4PSIxNDAiIHk9IjcwIiB3'' @
     ''aWR0aD0iMTAwIiBoZWlnaHQ9IjQwIiByeD0iNiIgZmlsbD0iIzE2MTYxYyIgc3Ryb2tlPSIjNjM2NmYx'' @
     ''IiBzdHJva2Utd2lkdGg9IjEuNSIvPgogIDx0ZXh0IHg9IjE5MCIgeT0iODgiIGZvbnQtZmFtaWx5PSJt'' @
     ''b25vc3BhY2UiIGZvbnQtc2l6ZT0iMTAiIGZpbGw9IiNlOGU4ZjAiIHRleHQtYW5jaG9yPSJtaWRkbGUi'' @
     ''Pk9yY2hlc3RyYXRvcjwvdGV4dD4KICA8dGV4dCB4PSIxOTAiIHk9IjEwMSIgZm9udC1mYW1pbHk9Im1v'' @
     ''bm9zcGFjZSIgZm9udC1zaXplPSI5IiBmaWxsPSIjNzA3MGEwIiB0ZXh0LWFuY2hvcj0ibWlkZGxlIj4o'' @
     ''R28pPC90ZXh0PgoKICA8IS0tIFdvcmtlciBib3ggLS0+CiAgPHJlY3QgeD0iMjgwIiB5PSI3MCIgd2lk'' @
     ''dGg9IjEwMCIgaGVpZ2h0PSI0MCIgcng9IjYiIGZpbGw9IiMxNjE2MWMiIHN0cm9rZT0iIzYzNjZmMSIg'' @
     ''c3Ryb2tlLXdpZHRoPSIxLjUiLz4KICA8dGV4dCB4PSIzMzAiIHk9Ijg4IiBmb250LWZhbWlseT0ibW9u'' @
     ''b3NwYWNlIiBmb250LXNpemU9IjEwIiBmaWxsPSIjZThlOGYwIiB0ZXh0LWFuY2hvcj0ibWlkZGxlIj53'' @
     ''YXNtLXdvcmtlcjwvdGV4dD4KICA8dGV4dCB4PSIzMzAiIHk9IjEwMSIgZm9udC1mYW1pbHk9Im1vbm9z'' @
     ''cGFjZSIgZm9udC1zaXplPSI5IiBmaWxsPSIjNzA3MGEwIiB0ZXh0LWFuY2hvcj0ibWlkZGxlIj4oUnVz'' @
     ''dCk8L3RleHQ+CgogIDwhLS0gd2FzbXRpbWUgYm94IC0tPgogIDxyZWN0IHg9IjQwMCIgeT0iNzAiIHdp'' @
     ''ZHRoPSI2NSIgaGVpZ2h0PSI0MCIgcng9IjYiIGZpbGw9IiMxNjE2MWMiIHN0cm9rZT0iIzhiNWNmNiIg'' @
     ''c3Ryb2tlLXdpZHRoPSIxLjUiLz4KICA8dGV4dCB4PSI0MzIiIHk9Ijg4IiBmb250LWZhbWlseT0ibW9u'' @
     ''b3NwYWNlIiBmb250LXNpemU9IjEwIiBmaWxsPSIjYzA4NGZjIiB0ZXh0LWFuY2hvcj0ibWlkZGxlIj53'' @
     ''YXNtdGltZTwvdGV4dD4KICA8dGV4dCB4PSI0MzIiIHk9IjEwMSIgZm9udC1mYW1pbHk9Im1vbm9zcGFj'' @
     ''ZSIgZm9udC1zaXplPSI5IiBmaWxsPSIjNzA3MGEwIiB0ZXh0LWFuY2hvcj0ibWlkZGxlIj4yNS4wPC90'' @
     ''ZXh0PgoKICA8IS0tIFRvcCByb3cgYXJyb3dzIC0tPgogIDxsaW5lIHgxPSIxMDAiIHkxPSI5MCIgeDI9'' @
     ''IjEzOCIgeTI9IjkwIiBzdHJva2U9IiM2MzY2ZjEiIHN0cm9rZS13aWR0aD0iMS41IiBtYXJrZXItZW5k'' @
     ''PSJ1cmwoI2FyckJsdWUpIi8+CiAgPGxpbmUgeDE9IjI0MCIgeTE9IjkwIiB4Mj0iMjc4IiB5Mj0iOTAi'' @
     ''IHN0cm9rZT0iIzYzNjZmMSIgc3Ryb2tlLXdpZHRoPSIxLjUiIG1hcmtlci1lbmQ9InVybCgjYXJyQmx1'' @
     ''ZSkiLz4KICA8bGluZSB4MT0iMzgwIiB5MT0iOTAiIHgyPSIzOTciIHkyPSI5MCIgc3Ryb2tlPSIjOGI1'' @
     ''Y2Y2IiBzdHJva2Utd2lkdGg9IjEuNSIgbWFya2VyLWVuZD0idXJsKCNhcnJCbHVlKSIvPgoKICA8IS0t'' @
     ''IEFycm93IGxhYmVscyAtLT4KICA8dGV4dCB4PSIxMTkiIHk9Ijg0IiBmb250LWZhbWlseT0ibW9ub3Nw'' @
     ''YWNlIiBmb250LXNpemU9IjgiIGZpbGw9IiM3MDcwYTAiIHRleHQtYW5jaG9yPSJtaWRkbGUiPldTPC90'' @
     ''ZXh0PgogIDx0ZXh0IHg9IjI1OSIgeT0iODQiIGZvbnQtZmFtaWx5PSJtb25vc3BhY2UiIGZvbnQtc2l6'' @
     ''ZT0iOCIgZmlsbD0iIzcwNzBhMCIgdGV4dC1hbmNob3I9Im1pZGRsZSI+SFRUUDwvdGV4dD4KCiAgPCEt'' @
     ''LSBWRlMgYm94IC0tPgogIDxyZWN0IHg9IjE0MCIgeT0iMTcwIiB3aWR0aD0iMjAwIiBoZWlnaHQ9IjUw'' @
     ''IiByeD0iNiIgZmlsbD0iIzE2MTYxYyIgc3Ryb2tlPSIjMjJjNTVlIiBzdHJva2Utd2lkdGg9IjEuNSIv'' @
     ''PgogIDx0ZXh0IHg9IjI0MCIgeT0iMTkyIiBmb250LWZhbWlseT0ibW9ub3NwYWNlIiBmb250LXNpemU9'' @
     ''IjExIiBmaWxsPSIjZThlOGYwIiB0ZXh0LWFuY2hvcj0ibWlkZGxlIj5WaXJ0dWFsIEZpbGVzeXN0ZW08'' @
     ''L3RleHQ+CiAgPHRleHQgeD0iMjQwIiB5PSIyMDgiIGZvbnQtZmFtaWx5PSJtb25vc3BhY2UiIGZvbnQt'' @
     ''c2l6ZT0iOSIgZmlsbD0iIzRhZGU4MCIgdGV4dC1hbmNob3I9Im1pZGRsZSI+L3dvcmtzcGFjZS8gKGlu'' @
     ''bGluZSBzbmFwc2hvdCk8L3RleHQ+CgogIDwhLS0gQXJyb3cgZnJvbSB3b3JrZXIgZG93biB0byBWRlMg'' @
     ''LS0+CiAgPGxpbmUgeDE9IjMzMCIgeTE9IjExMiIgeDI9IjMzMCIgeTI9IjE2MiIgc3Ryb2tlPSIjMjJj'' @
     ''NTVlIiBzdHJva2Utd2lkdGg9IjEuMiIgc3Ryb2tlLWRhc2hhcnJheT0iNCwzIi8+CiAgPGxpbmUgeDE9'' @
     ''IjMzMCIgeTE9IjE2MiIgeDI9IjI4MiIgeTI9IjE2OCIgc3Ryb2tlPSIjMjJjNTVlIiBzdHJva2Utd2lk'' @
     ''dGg9IjEuMiIgbWFya2VyLWVuZD0idXJsKCNhcnJHcmVlbikiLz4KCiAgPCEtLSBTdGF0dXMgbGVnZW5k'' @
     ''IC0tPgogIDxjaXJjbGUgY3g9IjQ0IiAgY3k9IjI1MiIgcj0iNSIgZmlsbD0iIzIyYzU1ZSIvPgogIDx0'' @
     ''ZXh0IHg9IjU1IiAgeT0iMjU2IiBmb250LWZhbWlseT0ibW9ub3NwYWNlIiBmb250LXNpemU9IjEwIiBm'' @
     ''aWxsPSIjZThlOGYwIj5jb21wbGV0ZTwvdGV4dD4KICA8Y2lyY2xlIGN4PSIxMzAiIGN5PSIyNTIiIHI9'' @
     ''IjUiIGZpbGw9IiNlZjQ0NDQiLz4KICA8dGV4dCB4PSIxNDEiIHk9IjI1NiIgZm9udC1mYW1pbHk9Im1v'' @
     ''bm9zcGFjZSIgZm9udC1zaXplPSIxMCIgZmlsbD0iI2U4ZThmMCI+Y3Jhc2hlZDwvdGV4dD4KICA8Y2ly'' @
     ''Y2xlIGN4PSIyMTYiIGN5PSIyNTIiIHI9IjUiIGZpbGw9IiNmNTllMGIiLz4KICA8dGV4dCB4PSIyMjci'' @
     ''IHk9IjI1NiIgZm9udC1mYW1pbHk9Im1vbm9zcGFjZSIgZm9udC1zaXplPSIxMCIgZmlsbD0iI2U4ZThm'' @
     ''MCI+bm9uLXplcm88L3RleHQ+CiAgPGNpcmNsZSBjeD0iMzE4IiBjeT0iMjUyIiByPSI1IiBmaWxsPSIj'' @
     ''NjM2NmYxIi8+CiAgPHRleHQgeD0iMzI5IiB5PSIyNTYiIGZvbnQtZmFtaWx5PSJtb25vc3BhY2UiIGZv'' @
     ''bnQtc2l6ZT0iMTAiIGZpbGw9IiNlOGU4ZjAiPnJ1bm5pbmc8L3RleHQ+CgogIDwhLS0gRm9vdGVyIC0t'' @
     ''PgogIDx0ZXh0IHg9IjI0MCIgeT0iMjk4IiBmb250LWZhbWlseT0ibW9ub3NwYWNlIiBmb250LXNpemU9'' @
     ''IjkiIGZpbGw9IiM0MDQwNjAiCiAgICAgICAgdGV4dC1hbmNob3I9Im1pZGRsZSI+V3JpdHRlbiBieSBo'' @
     ''YW5kLWFzc2VtYmxlZCBXQVNNICB8ICBJc29sYXRvci1WPC90ZXh0Pgo8L3N2Zz4K''"

definition CHART_WASM_B64 :: string where
  "CHART_WASM_B64 =
     ''AGFzbQEAAAABIgVgCX9/f39/fn5/fwF/YAR/f39/AX9gAX8Bf2ABfwBgAAACiwEEFndh'' @
     ''c2lfc25hcHNob3RfcHJldmlldzEJcGF0aF9vcGVuAAAWd2FzaV9zbmFwc2hvdF9wcmV2'' @
     ''aWV3MQhmZF93cml0ZQABFndhc2lfc25hcHNob3RfcHJldmlldzEIZmRfY2xvc2UAAhZ3'' @
     ''YXNpX3NuYXBzaG90X3ByZXZpZXcxCXByb2NfZXhpdAADAwIBBAUDAQABBxMCBm1lbW9y'' @
     ''eQIABl9zdGFydAAECl4BXABBAEEQNgIAQQRB+gA2AgBBAUEAQQFBCBABGkEDQQBBigFB'' @
     ''F0EJQn9Cf0EAQQwQABpBAEGhATYCAEEEQbQCNgIAQQwoAgBBAEEBQQgQARpBDCgCABAC'' @
     ''GkEAEAMLC8wDAQBBEAvFA0pTT04gQ2hhcnQgRGVtbwo9PT09PT09PT09PT09PT0KICBX'' @
     ''cml0aW5nIC93b3Jrc3BhY2UvbWV0cmljcy5qc29uIC4uLgogIFByZXZpZXcgaXQgaW4g'' @
     ''dGhlIGxlZnQgcGFuZWwgdXNpbmcgdGhlIENoYXJ0Vmlldy4KL3dvcmtzcGFjZS9tZXRy'' @
     ''aWNzLmpzb257InR5cGUiOiJ0aW1lc2VyaWVzIiwibGFiZWxzIjpbIkphbiIsIkZlYiIs'' @
     ''Ik1hciIsIkFwciIsIk1heSIsIkp1biIsIkp1bCIsIkF1ZyIsIlNlcCIsIk9jdCIsIk5v'' @
     ''diIsIkRlYyJdLCJzZXJpZXMiOlt7Im5hbWUiOiJSZXF1ZXN0cyIsImRhdGEiOlsxMjAs'' @
     ''MTQ1LDEzMiwxNzgsMjAxLDE4OSwyMTUsMTk4LDIzMCwyNDUsMjIwLDI2MF19LHsibmFt'' @
     ''ZSI6IkVycm9ycyIsImRhdGEiOls1LDgsMywxMiw3LDQsOSw2LDExLDgsNSw3XX0seyJu'' @
     ''YW1lIjoiUDk1IG1zIiwiZGF0YSI6WzQyLDM4LDQ1LDUxLDQ4LDQ0LDUyLDQ3LDU1LDQ5'' @
     ''LDQzLDU4XX1dfQ==''"

definition FILES_WASM_B64 :: string where
  "FILES_WASM_B64 =
     ''AGFzbQEAAAABIgVgCX9/f39/fn5/fwF/YAR/f39/AX9gAX8Bf2ABfwBgAAACiwEEFndhc2lfc25h'' @
     ''cHNob3RfcHJldmlldzEJcGF0aF9vcGVuAAAWd2FzaV9zbmFwc2hvdF9wcmV2aWV3MQhmZF93cml0'' @
     ''ZQABFndhc2lfc25hcHNob3RfcHJldmlldzEIZmRfY2xvc2UAAhZ3YXNpX3NuYXBzaG90X3ByZXZp'' @
     ''ZXcxCXByb2NfZXhpdAADAwIBBAUDAQABBxMCBm1lbW9yeQIABl9zdGFydAAECpoBAZcBAEEAQRA2'' @
     ''AgBBAEGdATYCBEEBQQBBAUEIEAEaQQNBAEGtAUEVQQlCf0J/QQBBDBAAGkEAQcIBNgIAQQBBwAA2'' @
     ''AgRBDCgCAEEAQQFBCBABGkEMKAIAEAIaQQNBAEGCAkEWQQlCf0J/QQBBDBAAGkEAQZgCNgIAQQBB'' @
     ''LjYCBEEMKAIAQQBBAUEIEAEaQQwoAgAQAhpBABADCwu9AgEAQRALtgJWRlMgRmlsZSBPdXRwdXQg'' @
     ''RGVtbw0KPT09PT09PT09PT09PT09PT09PT0NCiAgV3JpdGluZyAvd29ya3NwYWNlL291dHB1dC50'' @
     ''eHQgLi4uDQogIFdyaXRpbmcgL3dvcmtzcGFjZS9yZXBvcnQuanNvbiAuLi4NCkZpbGVzIHdyaXR0'' @
     ''ZW4uIENoZWNrIHRoZSBsZWZ0IHBhbmVsLg0KL3dvcmtzcGFjZS9vdXRwdXQudHh0V3JpdHRlbiBi'' @
     ''eSBJc29sYXRvci1WIFdBU00gc2FuZGJveC4KRmlsZTogL3dvcmtzcGFjZS9vdXRwdXQudHh0Ci93'' @
     ''b3Jrc3BhY2UvcmVwb3J0Lmpzb257ImRlbW8iOiJ2ZnMiLCJzdGF0dXMiOiJvayIsImZpbGVzX3dy'' @
     ''aXR0ZW4iOjJ9''"

section \<open>The table\<close>

datatype DemoKey =
    noop_demo
  | hello_demo
  | counter_demo
  | fibonacci_demo
  | primes_demo
  | files_demo
  | exit1_demo
  | trap_demo
  | unicode_demo
  | longlines_demo
  | large_demo
  | csv_demo
  | chart_demo
  | markdown_demo
  | svg_demo

record Demo =
  demoLabel :: string
  demoDescription :: string
  demoWasmB64 :: string

fun DEMOS :: "DemoKey \<Rightarrow> Demo" where
  "DEMOS noop_demo = \<lparr>demoLabel = ''noop'',
     demoDescription = ''No output '' @ em_dash @ '' pipeline smoke test'',
     demoWasmB64 = NOOP_WASM_B64\<rparr>"
| "DEMOS hello_demo = \<lparr>demoLabel = ''hello'',
     demoDescription = ''Greeting banner + runtime info'',
     demoWasmB64 = HELLO_WASM_B64\<rparr>"
| "DEMOS counter_demo = \<lparr>demoLabel = ''counter'',
     demoDescription = ''Count 1'' @ [CHR 0xE2, CHR 0x86, CHR 0x92] @ ''20 (streamed per fd_write call)'',
     demoWasmB64 = COUNTER_WASM_B64\<rparr>"
| "DEMOS fibonacci_demo = \<lparr>demoLabel = ''fibonacci'',
     demoDescription = ''First 20 Fibonacci numbers'',
     demoWasmB64 = FIBONACCI_WASM_B64\<rparr>"
| "DEMOS primes_demo = \<lparr>demoLabel = ''primes'',
     demoDescription = ''Sieve of Eratosthenes up to 100'',
     demoWasmB64 = PRIMES_WASM_B64\<rparr>"
| "DEMOS files_demo = \<lparr>demoLabel = ''files'',
     demoDescription = ''Writes 2 files to /workspace '' @ em_dash @ '' tests VFS I/O'',
     demoWasmB64 = FILES_WASM_B64\<rparr>"
| "DEMOS exit1_demo = \<lparr>demoLabel = ''exit1'',
     demoDescription = ''proc_exit(1) '' @ em_dash @ '' exit code shown in red'',
     demoWasmB64 = EXIT1_WASM_B64\<rparr>"
| "DEMOS trap_demo = \<lparr>demoLabel = ''trap'',
     demoDescription = ''WASM unreachable trap '' @ em_dash @ '' tests crashed state'',
     demoWasmB64 = TRAP_WASM_B64\<rparr>"
| "DEMOS unicode_demo = \<lparr>demoLabel = ''unicode'',
     demoDescription = ''Emoji, CJK, Arabic, box-drawing characters'',
     demoWasmB64 = UNICODE_WASM_B64\<rparr>"
| "DEMOS longlines_demo = \<lparr>demoLabel = ''longlines'',
     demoDescription = ''~90-char lines '' @ em_dash @ '' tests wrap/horizontal scroll'',
     demoWasmB64 = LONGLINES_WASM_B64\<rparr>"
| "DEMOS large_demo = \<lparr>demoLabel = ''large'',
     demoDescription = ''300 lines in one write (~9.7 KB buffer)'',
     demoWasmB64 = LARGE_WASM_B64\<rparr>"
| "DEMOS csv_demo = \<lparr>demoLabel = ''csv'',
     demoDescription = ''Writes sales.csv '' @ em_dash @ '' tests DataGrid previewer'',
     demoWasmB64 = CSV_WASM_B64\<rparr>"
| "DEMOS chart_demo = \<lparr>demoLabel = ''chart'',
     demoDescription = ''Writes metrics.json '' @ em_dash @ '' tests ChartView'',
     demoWasmB64 = CHART_WASM_B64\<rparr>"
| "DEMOS markdown_demo = \<lparr>demoLabel = ''markdown'',
     demoDescription = ''Writes readme.md '' @ em_dash @ '' tests MarkdownViewer'',
     demoWasmB64 = MARKDOWN_WASM_B64\<rparr>"
| "DEMOS svg_demo = \<lparr>demoLabel = ''svg'',
     demoDescription = ''Writes diagram.svg '' @ em_dash @ '' tests ImageViewer'',
     demoWasmB64 = SVG_WASM_B64\<rparr>"

text \<open>The options of the selector, in the order of the table.\<close>

definition demo_keys :: "DemoKey list" where
  "demo_keys = [noop_demo, hello_demo, counter_demo, fibonacci_demo, primes_demo, files_demo, exit1_demo, trap_demo, unicode_demo, longlines_demo, large_demo, csv_demo, chart_demo, markdown_demo, svg_demo]"

lemma demo_keys_all: "set demo_keys = UNIV" and demo_keys_distinct: "distinct demo_keys"
proof -
  have "k \<in> set demo_keys" for k by (cases k) (simp_all add: demo_keys_def)
  then show "set demo_keys = UNIV" by blast
  show "distinct demo_keys" by (simp add: demo_keys_def)
qed

lemma NOOP_not_Nil: "NOOP_WASM_B64 \<noteq> []"
proof
  assume "NOOP_WASM_B64 = []"
  then have "length (btoa (map char_of NOOP_bytes)) = 0" by (simp add: NOOP_WASM_B64_def)
  then show False by (simp add: length_btoa NOOP_bytes_def)
qed

lemma HELLO_not_Nil: "HELLO_WASM_B64 \<noteq> []"
  unfolding HELLO_WASM_B64_def by (simp only: append_is_Nil_conv list.distinct simp_thms)

lemma COUNTER_not_Nil: "COUNTER_WASM_B64 \<noteq> []"
  unfolding COUNTER_WASM_B64_def by (simp only: append_is_Nil_conv list.distinct simp_thms)

lemma FIBONACCI_not_Nil: "FIBONACCI_WASM_B64 \<noteq> []"
  unfolding FIBONACCI_WASM_B64_def by (simp only: append_is_Nil_conv list.distinct simp_thms)

lemma PRIMES_not_Nil: "PRIMES_WASM_B64 \<noteq> []"
  unfolding PRIMES_WASM_B64_def by (simp only: append_is_Nil_conv list.distinct simp_thms)

lemma EXIT1_not_Nil: "EXIT1_WASM_B64 \<noteq> []"
  unfolding EXIT1_WASM_B64_def by (simp only: append_is_Nil_conv list.distinct simp_thms)

lemma TRAP_not_Nil: "TRAP_WASM_B64 \<noteq> []"
  unfolding TRAP_WASM_B64_def by (simp only: append_is_Nil_conv list.distinct simp_thms)

lemma UNICODE_not_Nil: "UNICODE_WASM_B64 \<noteq> []"
  unfolding UNICODE_WASM_B64_def by (simp only: append_is_Nil_conv list.distinct simp_thms)

lemma LONGLINES_not_Nil: "LONGLINES_WASM_B64 \<noteq> []"
  unfolding LONGLINES_WASM_B64_def by (simp only: append_is_Nil_conv list.distinct simp_thms)

lemma LARGE_not_Nil: "LARGE_WASM_B64 \<noteq> []"
  unfolding LARGE_WASM_B64_def by (simp only: append_is_Nil_conv list.distinct simp_thms)

lemma CSV_not_Nil: "CSV_WASM_B64 \<noteq> []"
  unfolding CSV_WASM_B64_def by (simp only: append_is_Nil_conv list.distinct simp_thms)

lemma MARKDOWN_not_Nil: "MARKDOWN_WASM_B64 \<noteq> []"
  unfolding MARKDOWN_WASM_B64_def by (simp only: append_is_Nil_conv list.distinct simp_thms)

lemma SVG_not_Nil: "SVG_WASM_B64 \<noteq> []"
  unfolding SVG_WASM_B64_def by (simp only: append_is_Nil_conv list.distinct simp_thms)

lemma CHART_not_Nil: "CHART_WASM_B64 \<noteq> []"
  unfolding CHART_WASM_B64_def by (simp only: append_is_Nil_conv list.distinct simp_thms)

lemma FILES_not_Nil: "FILES_WASM_B64 \<noteq> []"
  unfolding FILES_WASM_B64_def by (simp only: append_is_Nil_conv list.distinct simp_thms)

lemmas demo_not_Nil = NOOP_not_Nil HELLO_not_Nil COUNTER_not_Nil FIBONACCI_not_Nil PRIMES_not_Nil EXIT1_not_Nil TRAP_not_Nil UNICODE_not_Nil LONGLINES_not_Nil LARGE_not_Nil CSV_not_Nil MARKDOWN_not_Nil SVG_not_Nil CHART_not_Nil FILES_not_Nil

lemma DEMOS_not_Nil: "demoWasmB64 (DEMOS d) \<noteq> []"
  by (cases d) (simp_all add: demo_not_Nil)

text \<open>The one module that is written out as bytes.\<close>

lemma NOOP_decodes: "atob NOOP_WASM_B64 = Some (map char_of NOOP_bytes)"
  unfolding NOOP_WASM_B64_def by (rule atob_btoa)

end
