(* ===== verification/FileTree.thy ===== *)
theory FileTree
  imports Prelude "HOL-Library.AList"
begin

text \<open>
  \<open>frontend/components/VirtualFileTree.tsx\<close>, first half: the entries of a VFS snapshot, the tree
  \<open>buildTree\<close> makes of them, and the rows the recursive renderer shows.

  \<open>buildTree\<close> mutates arrays that are shared between the root, the directory objects and the local
  \<open>dirMap\<close>. The model keeps them in an explicit store (\<open>heap\<close>) of children arrays, addressed by the
  path of the directory that owns the array (the empty string for the root). \<open>buildTree_refines\<close>
  shows that the store algorithm computes plain insertion into a tree; the properties of the tree
  are then proved on that.
\<close>

section \<open>Entries and nodes\<close>

record VFSEntry =
  entryPath :: string
  entrySize :: "nat option"
  entryGhost :: "bool option"

datatype TreeNode =
    FileNode (nodeName: string) (nodePath: string) bool "nat option"
  | DirNode (nodeName: string) (nodePath: string) (children: "TreeNode list")

text \<open>A node as it sits in a children array: a directory is a reference to the array it owns.\<close>

datatype NodeRef =
    FileRef string string bool "nat option"
  | DirRef string string

type_synonym heap = "(string \<times> NodeRef list) list"

section \<open>buildTree\<close>

definition push :: "string \<Rightarrow> NodeRef \<Rightarrow> heap \<Rightarrow> heap" where
  "push p n h = (case map_of h p of None \<Rightarrow> h | Some cs \<Rightarrow> AList.update p (cs @ [n]) h)"

text \<open>The inner loop: every ancestor directory exists; returns the array to push the file to.\<close>

fun ensure_dirs :: "heap \<Rightarrow> string \<Rightarrow> string list \<Rightarrow> heap \<times> string" where
  "ensure_dirs h cumulativePath [] = (h, cumulativePath)"
| "ensure_dirs h cumulativePath (segment # segments) =
     (let cum = cumulativePath @ ''/'' @ segment;
          h' = (if map_of h cum = None
                then push cumulativePath (DirRef segment cum) (AList.update cum [] h)
                else h)
      in ensure_dirs h' cum segments)"

text \<open>\<open>path.replace(/^\//, "")\<close>\<close>

definition strip_slash :: "string \<Rightarrow> string" where
  "strip_slash p = (if starts_with ''/'' p then drop 1 p else p)"

definition path_parts :: "string \<Rightarrow> string list" where
  "path_parts p = split_on (CHR ''/'') (strip_slash p)"

definition add_entry :: "heap \<Rightarrow> VFSEntry \<Rightarrow> heap" where
  "add_entry h entry =
     (let parts = path_parts (entryPath entry);
          filename = last parts;
          dirParts = butlast parts;
          (h', parent) = ensure_dirs h [] dirParts
      in push parent (FileRef filename (entryPath entry)
           (case entryGhost entry of None \<Rightarrow> False | Some g \<Rightarrow> g) (entrySize entry)) h')"

text \<open>Reading the linked arrays as a tree. The depth is bounded by the length of the longest path.\<close>

fun materialise :: "nat \<Rightarrow> heap \<Rightarrow> string \<Rightarrow> TreeNode list" where
  "materialise 0 h p = []"
| "materialise (Suc k) h p = (case map_of h p of None \<Rightarrow> [] | Some cs \<Rightarrow>
     map (\<lambda>n. case n of FileRef nm q g sz \<Rightarrow> FileNode nm q g sz
                | DirRef nm q \<Rightarrow> DirNode nm q (materialise k h q)) cs)"

definition heap_depth :: "heap \<Rightarrow> nat" where
  "heap_depth h = Suc (sum_list (map (length \<circ> fst) h))"

text \<open>\<open>localeCompare\<close> depends on the locale of the browser, so it is an argument.\<close>

definition buildTree :: "(string \<Rightarrow> string \<Rightarrow> int) \<Rightarrow> VFSEntry list \<Rightarrow> TreeNode list" where
  "buildTree localeCompare entries =
     (let sorted = js_sort (\<lambda>a b. localeCompare (entryPath a) (entryPath b)) entries;
          h = foldl add_entry [([], [])] sorted
      in materialise (heap_depth h) h [])"

section \<open>Insertion into a tree\<close>

definition has_dir :: "string \<Rightarrow> TreeNode list \<Rightarrow> bool" where
  "has_dir q ns \<longleftrightarrow> (\<exists>n \<in> set ns. case n of DirNode _ p _ \<Rightarrow> p = q | FileNode _ _ _ _ \<Rightarrow> False)"

definition update_dir :: "string \<Rightarrow> (TreeNode list \<Rightarrow> TreeNode list) \<Rightarrow> TreeNode list \<Rightarrow> TreeNode list" where
  "update_dir q f ns = map (\<lambda>n. case n of
       DirNode nm p cs \<Rightarrow> if p = q then DirNode nm p (f cs) else n
     | FileNode _ _ _ _ \<Rightarrow> n) ns"

fun insert_node :: "string \<Rightarrow> string list \<Rightarrow> TreeNode \<Rightarrow> TreeNode list \<Rightarrow> TreeNode list" where
  "insert_node cum [] f ns = ns @ [f]"
| "insert_node cum (seg # segs) f ns =
     (let q = cum @ ''/'' @ seg in
      if has_dir q ns then update_dir q (insert_node q segs f) ns
      else ns @ [DirNode seg q (insert_node q segs f [])])"

definition entry_node :: "VFSEntry \<Rightarrow> TreeNode" where
  "entry_node e = FileNode (last (path_parts (entryPath e))) (entryPath e)
     (case entryGhost e of None \<Rightarrow> False | Some g \<Rightarrow> g) (entrySize e)"

definition insert_entry :: "TreeNode list \<Rightarrow> VFSEntry \<Rightarrow> TreeNode list" where
  "insert_entry ns e = insert_node [] (butlast (path_parts (entryPath e))) (entry_node e) ns"

section \<open>The store algorithm implements it\<close>

abbreviation slash_free :: "string \<Rightarrow> bool" where
  "slash_free s \<equiv> CHR ''/'' \<notin> set s"

text \<open>
  Every directory reference in an array belongs to a subdirectory of the array's owner, and every
  array but the root's is referenced from its parent's.
\<close>

definition heap_wf :: "heap \<Rightarrow> bool" where
  "heap_wf h \<longleftrightarrow> map_of h [] \<noteq> None \<and>
     (\<forall>p cs n q. map_of h p = Some cs \<longrightarrow> DirRef n q \<in> set cs \<longrightarrow>
        q = p @ ''/'' @ n \<and> slash_free n \<and> map_of h q \<noteq> None) \<and>
     (\<forall>p n. slash_free n \<longrightarrow> map_of h (p @ ''/'' @ n) \<noteq> None \<longrightarrow>
        (\<exists>cs. map_of h p = Some cs \<and> DirRef n (p @ ''/'' @ n) \<in> set cs))"

text \<open>\<open>r\<close> is \<open>p\<close> or lies below it.\<close>

definition below :: "string \<Rightarrow> string \<Rightarrow> bool" where
  "below p r \<longleftrightarrow> (\<exists>s. r = p @ s \<and> (s = [] \<or> hd s = CHR ''/''))"

lemma below_refl [simp]: "below p p"
  by (simp add: below_def)

lemma below_child: "below (p @ ''/'' @ n) r \<Longrightarrow> below p r"
  by (auto simp: below_def)

lemma below_length: "below p r \<Longrightarrow> length p \<le> length r"
  by (auto simp: below_def)

lemma takeWhile_slash: "slash_free n \<Longrightarrow> s = [] \<or> hd s = CHR ''/'' \<Longrightarrow>
    takeWhile (\<lambda>c. c \<noteq> CHR ''/'') (n @ s) = n"
  by (induction n; cases s) auto

lemma slash_split:
  "\<lbrakk>slash_free n; slash_free m; n @ CHR ''/'' # a = m @ CHR ''/'' # b\<rbrakk> \<Longrightarrow> n = m \<and> a = b"
  by (induction n arbitrary: m; case_tac m) auto

lemma below_siblings:
  assumes "below (p @ ''/'' @ n) r" "below (p @ ''/'' @ m) r" "slash_free n" "slash_free m"
  shows "n = m"
proof -
  obtain s t where eq: "n @ s = m @ t" and s: "s = [] \<or> hd s = CHR ''/''" and t: "t = [] \<or> hd t = CHR ''/''"
    using assms(1,2) by (auto simp: below_def)
  have "takeWhile (\<lambda>c. c \<noteq> CHR ''/'') (n @ s) = n"
    using assms(3) s by (rule takeWhile_slash)
  moreover have "takeWhile (\<lambda>c. c \<noteq> CHR ''/'') (m @ t) = m"
    using assms(4) t by (rule takeWhile_slash)
  ultimately show ?thesis using eq by metis
qed

lemma child_path_inject:
  assumes "p @ ''/'' @ n = q @ ''/'' @ m" "slash_free n" "slash_free m"
  shows "p = q \<and> n = m"
proof -
  have "rev n @ CHR ''/'' # rev p = rev m @ CHR ''/'' # rev q"
    using arg_cong[OF assms(1), of rev] by simp
  with assms(2,3) have "rev n = rev m \<and> rev p = rev q"
    by (intro slash_split) auto
  then show ?thesis by simp
qed

lemma map_of_AList_update: "map_of (AList.update k v al) = (map_of al)(k \<mapsto> v)"
  by (simp add: update_conv')

lemma map_of_push:
  "map_of (push p n h) r = (case map_of h p of None \<Rightarrow> map_of h r
     | Some cs \<Rightarrow> if r = p then Some (cs @ [n]) else map_of h r)"
  by (simp add: push_def map_of_AList_update split: option.split)

lemma push_dom: "map_of (push p n h) r \<noteq> None \<longleftrightarrow> map_of h r \<noteq> None"
  by (auto simp: map_of_push split: option.split)

text \<open>The steps of the inner loop touch only arrays below the current path.\<close>

lemma ensure_dirs_frame:
  "\<not> below p r \<Longrightarrow> map_of (fst (ensure_dirs h p segs)) r = map_of h r"
proof (induction segs arbitrary: h p)
  case (Cons seg segs)
  then have "\<not> below (p @ ''/'' @ seg) r" "r \<noteq> p" "r \<noteq> p @ ''/'' @ seg"
    using below_child by (auto simp: below_def)
  with Cons.IH[of "p @ ''/'' @ seg"] show ?case
    by (auto simp: Let_def map_of_push map_of_AList_update split: option.split)
qed simp


lemma ensure_dirs_parent: "snd (ensure_dirs h p segs) = p @ concat (map (\<lambda>s. ''/'' @ s) segs)"
  by (induction segs arbitrary: h p) (simp_all add: Let_def)

text \<open>The heap after one entry has been added at directory \<open>p\<close>, and what it may have changed.\<close>

definition add_at :: "heap \<Rightarrow> string \<Rightarrow> string list \<Rightarrow> NodeRef \<Rightarrow> heap" where
  "add_at h p segs n = (case ensure_dirs h p segs of (h', parent) \<Rightarrow> push parent n h')"

definition open_dir :: "heap \<Rightarrow> string \<Rightarrow> string \<Rightarrow> heap" where
  "open_dir h p seg = (let q = p @ ''/'' @ seg in
     if map_of h q = None then push p (DirRef seg q) (AList.update q [] h) else h)"

lemma add_at_Nil: "add_at h p [] n = push p n h"
  by (simp add: add_at_def)

lemma add_at_Cons: "add_at h p (seg # segs) n = add_at (open_dir h p seg) (p @ ''/'' @ seg) segs n"
  by (simp add: add_at_def open_dir_def Let_def)

lemma add_at_frame: "\<not> below p r \<Longrightarrow> map_of (add_at h p segs n) r = map_of h r"
proof -
  assume r: "\<not> below p r"
  obtain h' q where e: "ensure_dirs h p segs = (h', q)" by fastforce
  have "q = p @ concat (map (\<lambda>s. ''/'' @ s) segs)" using ensure_dirs_parent[of h p segs] e by simp
  then have "below p q" by (cases segs) (auto simp: below_def)
  with r have "r \<noteq> q" by auto
  with ensure_dirs_frame[OF r, of h segs] e show ?thesis
    by (auto simp: add_at_def map_of_push split: option.split)
qed

lemma map_of_open_dir:
  assumes "map_of h p = Some cs"
  shows "map_of (open_dir h p seg) r =
    (if map_of h (p @ ''/'' @ seg) \<noteq> None then map_of h r
     else if r = p then Some (cs @ [DirRef seg (p @ ''/'' @ seg)])
     else if r = p @ ''/'' @ seg then Some [] else map_of h r)"
  using assms by (simp add: open_dir_def Let_def map_of_push map_of_AList_update)

lemma add_at_dom_mono: "map_of h r \<noteq> None \<Longrightarrow> map_of (add_at h p segs n) r \<noteq> None"
proof (induction segs arbitrary: h p)
  case Nil
  then show ?case by (simp only: add_at_Nil push_dom not_False_eq_True)
next
  case (Cons seg segs)
  have "map_of (open_dir h p seg) r \<noteq> None"
    using Cons.prems push_dom[of p _ "AList.update (p @ ''/'' @ seg) [] h" r]
    by (auto simp: open_dir_def Let_def map_of_AList_update)
  with Cons.IH show ?case by (simp add: add_at_Cons)
qed

lemma heap_wfD:
  assumes "heap_wf h"
  shows "map_of h p = Some cs \<Longrightarrow> DirRef n q \<in> set cs \<Longrightarrow>
      q = p @ ''/'' @ n \<and> slash_free n \<and> map_of h q \<noteq> None"
    and "slash_free n \<Longrightarrow> map_of h (p @ ''/'' @ n) \<noteq> None \<Longrightarrow>
      \<exists>cs. map_of h p = Some cs \<and> DirRef n (p @ ''/'' @ n) \<in> set cs"
  using assms unfolding heap_wf_def by blast+

lemma push_file_wf:
  assumes wf: "heap_wf h"
  shows "heap_wf (push p (FileRef a b c d) h)"
proof -
  let ?h = "push p (FileRef a b c d) h"
  have sub: "\<exists>es. map_of h r = Some es \<and> (\<forall>n q. DirRef n q \<in> set ds \<longleftrightarrow> DirRef n q \<in> set es)"
    if "map_of ?h r = Some ds" for r ds
    using that by (auto simp: map_of_push split: option.splits if_splits)
  have sup: "\<exists>ds. map_of ?h r = Some ds \<and> set es \<subseteq> set ds" if "map_of h r = Some es" for r es
    using that by (auto simp: map_of_push split: option.splits)
  show ?thesis unfolding heap_wf_def push_dom
  proof (intro conjI allI impI)
    show "map_of h [] \<noteq> None" using wf by (simp add: heap_wf_def)
  next
    fix r ds n q assume r: "map_of ?h r = Some ds" and n: "DirRef n q \<in> set ds"
    from sub[OF r] n obtain es where "map_of h r = Some es" "DirRef n q \<in> set es" by blast
    from heap_wfD(1)[OF wf this]
    show "q = r @ ''/'' @ n" "slash_free n" "map_of h q \<noteq> None" by blast+
  next
    fix r n assume "slash_free n" "map_of h (r @ ''/'' @ n) \<noteq> None"
    from heap_wfD(2)[OF wf this] obtain es
      where "map_of h r = Some es" "DirRef n (r @ ''/'' @ n) \<in> set es" by blast
    with sup[of r es] show "\<exists>ds. map_of ?h r = Some ds \<and> DirRef n (r @ ''/'' @ n) \<in> set ds"
      by blast
  qed
qed

lemma open_dir_wf:
  assumes wf: "heap_wf h" and p: "map_of h p = Some cs" and seg: "slash_free seg"
  shows "heap_wf (open_dir h p seg)"
proof (cases "map_of h (p @ ''/'' @ seg) = None")
  case False
  then show ?thesis using wf by (auto simp: open_dir_def Let_def)
next
  case True
  let ?q = "p @ ''/'' @ seg" and ?h = "open_dir h p seg"
  have m: "map_of ?h r = (if r = p then Some (cs @ [DirRef seg ?q]) else if r = ?q then Some []
      else map_of h r)" for r
    using True by (simp add: map_of_open_dir[OF p])
  have no_below: "map_of h (?q @ ''/'' @ n) = None" if "slash_free n" for n
    using heap_wfD(2)[OF wf that, of ?q] True by fastforce
  show ?thesis unfolding heap_wf_def
  proof (intro conjI allI impI)
    show "map_of ?h [] \<noteq> None" using wf by (auto simp: m heap_wf_def)
  next
    fix r ds n q assume r: "map_of ?h r = Some ds" and n: "DirRef n q \<in> set ds"
    have "q = r @ ''/'' @ n \<and> slash_free n \<and> (q = ?q \<or> map_of h q \<noteq> None)"
    proof (cases "r = p")
      case True
      with r n have "DirRef n q \<in> set cs \<or> (n = seg \<and> q = ?q)" by (auto simp: m)
      with True heap_wfD(1)[OF wf p, of n q] seg show ?thesis by auto
    next
      case False
      with r n have "map_of h r = Some ds" by (auto simp: m split: if_splits)
      from heap_wfD(1)[OF wf this n] show ?thesis by blast
    qed
    then show "q = r @ ''/'' @ n" "slash_free n" "map_of ?h q \<noteq> None" by (auto simp: m)
  next
    fix r n assume n: "slash_free n" and r: "map_of ?h (r @ ''/'' @ n) \<noteq> None"
    show "\<exists>ds. map_of ?h r = Some ds \<and> DirRef n (r @ ''/'' @ n) \<in> set ds"
    proof (cases "r @ ''/'' @ n = ?q")
      case True
      then have "r = p \<and> n = seg" using child_path_inject n seg by blast
      then show ?thesis by (simp add: m)
    next
      case False
      with r p have "map_of h (r @ ''/'' @ n) \<noteq> None" by (auto simp: m split: if_splits)
      from heap_wfD(2)[OF wf n this] obtain ds
        where ds: "map_of h r = Some ds" "DirRef n (r @ ''/'' @ n) \<in> set ds" by blast
      moreover have "r \<noteq> ?q" using no_below[OF n] \<open>map_of h (r @ ''/'' @ n) \<noteq> None\<close> by blast
      ultimately show ?thesis using p by (auto simp: m)
    qed
  qed
qed

lemma add_at_wf:
  "\<lbrakk>heap_wf h; map_of h p \<noteq> None; \<And>s. s \<in> set segs \<Longrightarrow> slash_free s\<rbrakk> \<Longrightarrow>
    heap_wf (add_at h p segs (FileRef a b c d))"
proof (induction segs arbitrary: h p)
  case Nil
  then show ?case by (simp add: add_at_Nil push_file_wf)
next
  case (Cons seg segs)
  then obtain cs where cs: "map_of h p = Some cs" by auto
  have "heap_wf (open_dir h p seg)" using open_dir_wf[OF Cons.prems(1) cs] Cons.prems(3) by simp
  moreover have "map_of (open_dir h p seg) (p @ ''/'' @ seg) \<noteq> None"
    by (simp add: map_of_open_dir[OF cs])
  ultimately show ?case using Cons by (simp add: add_at_Cons)
qed


text \<open>A subtree depends only on the arrays below its directory.\<close>

lemma materialise_frame:
  assumes "heap_wf h" "\<And>r. below p r \<Longrightarrow> map_of h' r = map_of h r"
  shows "materialise k h' p = materialise k h p"
  using assms(2)
proof (induction k arbitrary: p)
  case (Suc k)
  have "materialise k h' q = materialise k h q"
    if "map_of h p = Some cs" "DirRef n q \<in> set cs" for cs n q
  proof (rule Suc.IH)
    fix r assume "below q r"
    moreover have "q = p @ ''/'' @ n" using heap_wfD(1)[OF assms(1) that] by simp
    ultimately show "map_of h' r = map_of h r" using Suc.prems below_child by simp
  qed
  then show ?case using Suc.prems[of p]
    by (auto split: option.split NodeRef.split)
qed simp

abbreviation ref_node :: "nat \<Rightarrow> heap \<Rightarrow> NodeRef \<Rightarrow> TreeNode" where
  "ref_node k h n \<equiv> (case n of FileRef nm q g sz \<Rightarrow> FileNode nm q g sz
     | DirRef nm q \<Rightarrow> DirNode nm q (materialise k h q))"

lemma add_at_other_subtree:
  assumes "heap_wf h" "map_of h p = Some cs" "DirRef n q \<in> set cs" "n \<noteq> seg" "slash_free seg"
  shows "materialise k (add_at h (p @ ''/'' @ seg) segs f) q = materialise k h q"
proof (rule materialise_frame[OF assms(1)])
  fix r assume r: "below q r"
  have q: "q = p @ ''/'' @ n" "slash_free n" using heap_wfD(1)[OF assms(1-3)] by auto
  then have "\<not> below (p @ ''/'' @ seg) r"
    using below_siblings[of p n r seg] r assms(4,5) by blast
  then show "map_of (add_at h (p @ ''/'' @ seg) segs f) r = map_of h r" by (rule add_at_frame)
qed

lemma not_below_parent: "\<not> below (p @ ''/'' @ seg) p"
  using below_length[of "p @ ''/'' @ seg" p] by auto

lemma materialise_add_at:
  assumes "heap_wf h" "map_of h p \<noteq> None" "\<And>s. s \<in> set segs \<Longrightarrow> slash_free s"
    and "\<And>r. map_of (add_at h p segs (FileRef a b c d)) r \<noteq> None \<Longrightarrow> length r < length p + k"
  shows "materialise k (add_at h p segs (FileRef a b c d)) p =
    insert_node p segs (FileNode a b c d) (materialise k h p)"
  using assms
proof (induction segs arbitrary: h p k)
  case Nil
  obtain cs where cs: "map_of h p = Some cs" using Nil.prems(2) by auto
  let ?h = "push p (FileRef a b c d) h"
  have "map_of ?h p \<noteq> None" using cs by (simp add: map_of_push)
  then obtain k' where k: "k = Suc k'"
    using Nil.prems(4)[of p] by (cases k) (auto simp: add_at_Nil)
  have "materialise k' ?h q = materialise k' h q" if "DirRef n q \<in> set cs" for n q
  proof (rule materialise_frame[OF Nil.prems(1)])
    fix r assume "below q r"
    moreover have "q = p @ ''/'' @ n" using heap_wfD(1)[OF Nil.prems(1) cs that] by simp
    ultimately have "r \<noteq> p" using not_below_parent by blast
    then show "map_of ?h r = map_of h r" by (simp add: map_of_push split: option.split)
  qed
  then show ?case using cs by (auto simp: k add_at_Nil map_of_push split: NodeRef.split)
next
  case (Cons seg segs)
  let ?f = "FileRef a b c d" and ?q = "p @ ''/'' @ seg"
  let ?h1 = "open_dir h p seg"
  let ?h2 = "add_at ?h1 ?q segs ?f"
  have h2: "add_at h p (seg # segs) ?f = ?h2" by (rule add_at_Cons)
  have seg: "slash_free seg" using Cons.prems(3) by simp
  obtain cs where cs: "map_of h p = Some cs" using Cons.prems(2) by auto
  have wf1: "heap_wf ?h1" using open_dir_wf[OF Cons.prems(1) cs seg] .
  have q1: "map_of ?h1 ?q \<noteq> None" by (simp add: map_of_open_dir[OF cs])
  have p1: "map_of ?h1 p \<noteq> None" by (simp add: map_of_open_dir[OF cs] cs)
  have "map_of ?h2 p \<noteq> None" using p1 by (rule add_at_dom_mono)
  then obtain k' where k: "k = Suc k'"
    using Cons.prems(4)[of p] h2 by (cases k) auto
  have IH: "materialise k' ?h2 ?q = insert_node ?q segs (FileNode a b c d) (materialise k' ?h1 ?q)"
  proof (rule Cons.IH[OF wf1 q1])
    show "\<And>s. s \<in> set segs \<Longrightarrow> slash_free s" using Cons.prems(3) by simp
    fix r assume "map_of ?h2 r \<noteq> None"
    then have "length r < length p + k" using Cons.prems(4) h2 by simp
    then show "length r < length ?q + k'" using k by simp
  qed
  have p2: "map_of ?h2 p = map_of ?h1 p" by (rule add_at_frame) (rule not_below_parent)
  have other: "materialise k' ?h2 q = materialise k' ?h1 q"
    if "map_of ?h1 p = Some ds" "DirRef n q \<in> set ds" "n \<noteq> seg" for n q ds
    using add_at_other_subtree[OF wf1 that seg] .
  show ?case
  proof (cases "map_of h ?q = None")
    case False
    then have h1: "?h1 = h" by (auto simp: open_dir_def Let_def)
    have node: "ref_node k' ?h2 n = (case ref_node k' h n of
        DirNode nm r ts \<Rightarrow> if r = ?q then DirNode nm r (insert_node ?q segs (FileNode a b c d) ts)
          else ref_node k' h n
      | FileNode _ _ _ _ \<Rightarrow> ref_node k' h n)" if n: "n \<in> set cs" for n
    proof (cases n)
      case (DirRef nm r)
      with n have r: "r = p @ ''/'' @ nm" "slash_free nm"
        using heap_wfD(1)[OF Cons.prems(1) cs] by auto
      show ?thesis
      proof (cases "nm = seg")
        case True
        with DirRef r IH h1 show ?thesis by simp
      next
        case False
        with other[of cs nm r] DirRef r n h1 cs show ?thesis by simp
      qed
    qed simp
    have "has_dir ?q (materialise k h p)"
      using heap_wfD(2)[OF Cons.prems(1) seg False] cs
      by (force simp: has_dir_def k)
    moreover have eq: "map (ref_node k' ?h2) cs =
        update_dir ?q (insert_node ?q segs (FileNode a b c d)) (map (ref_node k' h) cs)"
      unfolding update_dir_def map_map by (rule map_cong[OF refl]) (subst node, simp_all)
    ultimately show ?thesis using p2 cs eq[unfolded h1 append_Cons append_Nil]
      by (simp add: h2 h1 k Let_def)
  next
    case True
    have p1': "map_of ?h1 p = Some (cs @ [DirRef seg ?q])"
      using True by (simp add: map_of_open_dir[OF cs])
    have not_q: "nm \<noteq> seg \<and> r \<noteq> ?q" if "DirRef nm r \<in> set cs" for nm r
      using heap_wfD(1)[OF Cons.prems(1) cs that] True by auto
    have h1_sub: "materialise k' ?h1 r = materialise k' h r" if "DirRef nm r \<in> set cs" for nm r
    proof (rule materialise_frame[OF Cons.prems(1)])
      fix x assume x: "below r x"
      have r: "r = p @ ''/'' @ nm" "slash_free nm"
        using heap_wfD(1)[OF Cons.prems(1) cs that] by auto
      have "x \<noteq> p" using x r(1) not_below_parent by blast
      moreover have "x \<noteq> ?q"
        using below_siblings[of p nm x seg] x r seg not_q[OF that] by auto
      ultimately show "map_of ?h1 x = map_of h x" by (simp add: map_of_open_dir[OF cs])
    qed
    have node: "ref_node k' ?h2 n = ref_node k' h n" if "n \<in> set cs" for n
      using other[OF p1'] not_q h1_sub that by (cases n) auto
    have empty: "materialise k' ?h1 ?q = []"
      using True by (cases k') (simp_all add: map_of_open_dir[OF cs])
    have "\<not> has_dir ?q (materialise k h p)"
      using cs not_q by (auto simp: has_dir_def k split: NodeRef.splits)
    then show ?thesis using p2 p1' node[unfolded append_Cons append_Nil] IH empty cs
      by (simp add: h2 k Let_def)
  qed
qed


lemma add_entry_eq:
  "add_entry h e = add_at h [] (butlast (path_parts (entryPath e)))
     (FileRef (last (path_parts (entryPath e))) (entryPath e)
       (case entryGhost e of None \<Rightarrow> False | Some g \<Rightarrow> g) (entrySize e))"
  by (simp add: add_entry_def add_at_def Let_def)

lemma path_parts_not_Nil [simp]: "path_parts p \<noteq> []"
  by (simp add: path_parts_def)

lemma path_parts_slash_free: "s \<in> set (path_parts p) \<Longrightarrow> slash_free s"
  by (auto simp: path_parts_def dest: split_on_no_sep)

lemma butlast_parts_slash_free: "s \<in> set (butlast (path_parts p)) \<Longrightarrow> slash_free s"
  by (auto dest: in_set_butlastD path_parts_slash_free)

lemma add_entry_wf: "heap_wf h \<Longrightarrow> heap_wf (add_entry h e)"
  unfolding add_entry_eq
  by (rule add_at_wf) (auto simp: heap_wf_def dest: butlast_parts_slash_free)

lemma add_entry_dom_mono: "map_of h r \<noteq> None \<Longrightarrow> map_of (add_entry h e) r \<noteq> None"
  unfolding add_entry_eq by (rule add_at_dom_mono)

lemma foldl_add_entry_dom_mono: "map_of h r \<noteq> None \<Longrightarrow> map_of (foldl add_entry h es) r \<noteq> None"
  by (induction es arbitrary: h) (simp_all add: add_entry_dom_mono del: not_None_eq)

lemma materialise_foldl:
  assumes "heap_wf h" "\<And>r. map_of (foldl add_entry h es) r \<noteq> None \<Longrightarrow> length r < k"
  shows "materialise k (foldl add_entry h es) [] = foldl insert_entry (materialise k h []) es"
  using assms
proof (induction es arbitrary: h)
  case (Cons e es)
  have "map_of h [] \<noteq> None" using Cons.prems(1) by (simp add: heap_wf_def)
  then have "materialise k (add_entry h e) [] = insert_entry (materialise k h []) e"
    unfolding add_entry_eq insert_entry_def entry_node_def
  proof (intro materialise_add_at)
    show "heap_wf h" by (rule Cons.prems(1))
    show "\<And>s. s \<in> set (butlast (path_parts (entryPath e))) \<Longrightarrow> slash_free s"
      by (rule butlast_parts_slash_free)
    fix r
    assume "map_of (add_at h [] (butlast (path_parts (entryPath e)))
        (FileRef (last (path_parts (entryPath e))) (entryPath e)
          (case entryGhost e of None \<Rightarrow> False | Some g \<Rightarrow> g) (entrySize e))) r \<noteq> None"
    then have "map_of (foldl add_entry (add_entry h e) es) r \<noteq> None"
      unfolding add_entry_eq[symmetric] by (rule foldl_add_entry_dom_mono)
    then show "length r < length [] + k" using Cons.prems(2) by simp
  qed
  with Cons.IH[OF add_entry_wf[OF Cons.prems(1)]] Cons.prems(2) show ?case by simp
qed simp

lemma heap_depth_enough: "map_of h r \<noteq> None \<Longrightarrow> length r < heap_depth h"
proof -
  assume "map_of h r \<noteq> None"
  then have "r \<in> fst ` set h" by (simp add: map_of_eq_None_iff)
  then have "length r \<in> set (map (length \<circ> fst) h)" by auto
  then have "length r \<le> sum_list (map (length \<circ> fst) h)" by (intro member_le_sum_list) simp_all
  then show ?thesis by (simp add: heap_depth_def)
qed

lemma buildTree_eq:
  "buildTree lc es = foldl insert_entry [] (js_sort (\<lambda>a b. lc (entryPath a) (entryPath b)) es)"
proof -
  let ?es = "js_sort (\<lambda>a b. lc (entryPath a) (entryPath b)) es"
  let ?h = "foldl add_entry [([], [])] ?es"
  have wf: "heap_wf [([], [])]" by (simp add: heap_wf_def)
  have "materialise (heap_depth ?h) ?h [] = foldl insert_entry (materialise (heap_depth ?h) [([], [])] []) ?es"
    by (rule materialise_foldl[OF wf heap_depth_enough])
  moreover have "materialise k [([], [])] [] = []" for k by (cases k) simp_all
  ultimately show ?thesis by (simp add: buildTree_def Let_def)
qed


section \<open>Rendering\<close>

definition formatBytes :: "nat \<Rightarrow> string" where
  "formatBytes n = (if n < 1024 then nat_str n @ '' B''
     else if n < 1024 * 1024 then toFixed1 n 1024 @ '' KB''
     else toFixed1 n (1024 * 1024) @ '' MB'')"

text \<open>
  \<open>EXT_ICONS[ext]\<close> also finds what every object inherits: of the property names of
  \<open>Object.prototype\<close>, two consist of lower-case characters. What they give is not an icon component.
\<close>

datatype FileIconKind = IFileCode | IFileText | IFileImage | IDatabase | IBox | IFile | INotAnIcon

definition inherited_keys :: "string list" where
  "inherited_keys = [''constructor'', ''__proto__'']"

definition EXT_ICONS :: "(string \<times> FileIconKind) list" where
  "EXT_ICONS =
     [(''rs'', IFileCode), (''ts'', IFileCode), (''tsx'', IFileCode), (''js'', IFileCode), (''jsx'', IFileCode),
      (''py'', IFileCode), (''go'', IFileCode), (''c'', IFileCode), (''cpp'', IFileCode), (''h'', IFileCode),
      (''toml'', IFileText), (''json'', IFileText), (''yaml'', IFileText), (''yml'', IFileText), (''md'', IFileText),
      (''txt'', IFileText), (''log'', IFileText),
      (''png'', IFileImage), (''jpg'', IFileImage), (''jpeg'', IFileImage), (''gif'', IFileImage), (''svg'', IFileImage),
      (''csv'', IDatabase), (''sqlite'', IDatabase), (''db'', IDatabase),
      (''wasm'', IBox)]"

definition FileIcon :: "string \<Rightarrow> FileIconKind" where
  "FileIcon name = (case map_of EXT_ICONS (file_ext name) of
       None \<Rightarrow> if file_ext name \<in> set inherited_keys then INotAnIcon else IFile
     | Some i \<Rightarrow> i)"

text \<open>
  A row of the tree, without its styling: directories carry their path (the argument of the toggle),
  indentation in pixels, open state and name; files their path (title and argument of the
  selection), indentation, selection mark, icon, name, size label and the \<open>pending\<close> badge.
\<close>

datatype Row =
    DirRow string nat bool string
  | FileRow string nat bool FileIconKind string "string option" bool

definition file_row :: "nat \<Rightarrow> string option \<Rightarrow> string \<Rightarrow> string \<Rightarrow> bool \<Rightarrow> nat option \<Rightarrow> Row" where
  "file_row depth selected name path ghost sz =
     FileRow path (depth * 12 + 8) (selected = Some path) (FileIcon name) name
       (map_option formatBytes sz) ghost"

fun TreeNodes :: "nat \<Rightarrow> string set \<Rightarrow> string option \<Rightarrow> TreeNode list \<Rightarrow> Row list" where
  "TreeNodes depth expanded selected [] = []"
| "TreeNodes depth expanded selected (FileNode name path ghost sz # ns) =
     file_row depth selected name path ghost sz # TreeNodes depth expanded selected ns"
| "TreeNodes depth expanded selected (DirNode name path cs # ns) =
     DirRow path (depth * 12 + 8) (path \<in> expanded) name #
       (if path \<in> expanded then TreeNodes (depth + 1) expanded selected cs else []) @
     TreeNodes depth expanded selected ns"

section \<open>The shape of the tree\<close>

fun files_of :: "TreeNode \<Rightarrow> TreeNode list" where
  "files_of (FileNode a b c d) = [FileNode a b c d]"
| "files_of (DirNode nm p cs) = concat (map files_of cs)"

fun dirs_of :: "TreeNode \<Rightarrow> string list" where
  "dirs_of (FileNode a b c d) = []"
| "dirs_of (DirNode nm p cs) = p # concat (map dirs_of cs)"

definition sub_dirs :: "TreeNode list \<Rightarrow> string list" where
  "sub_dirs ns = concat (map (\<lambda>n. case n of DirNode _ p _ \<Rightarrow> [p] | FileNode _ _ _ _ \<Rightarrow> []) ns)"

text \<open>
  A node in the directory \<open>cum\<close>: its path is that of the directory extended by its name, no two
  directories of one level have the same path, and no directory is empty.
\<close>

fun node_wf :: "string \<Rightarrow> TreeNode \<Rightarrow> bool" where
  "node_wf cum (FileNode nm p g sz) \<longleftrightarrow> slash_free nm \<and> ''/'' @ strip_slash p = cum @ ''/'' @ nm"
| "node_wf cum (DirNode nm p cs) \<longleftrightarrow> slash_free nm \<and> p = cum @ ''/'' @ nm \<and> cs \<noteq> [] \<and>
     (\<forall>c \<in> set cs. node_wf p c) \<and> distinct (sub_dirs cs)"

definition forest_wf :: "string \<Rightarrow> TreeNode list \<Rightarrow> bool" where
  "forest_wf cum ns \<longleftrightarrow> (\<forall>n \<in> set ns. node_wf cum n) \<and> distinct (sub_dirs ns)"

lemma node_wf_DirNode:
  "node_wf cum (DirNode nm p cs) \<longleftrightarrow>
     slash_free nm \<and> p = cum @ ''/'' @ nm \<and> cs \<noteq> [] \<and> forest_wf p cs"
  by (auto simp: forest_wf_def)

lemma forest_wf_member: "forest_wf cum ns \<Longrightarrow> n \<in> set ns \<Longrightarrow> node_wf cum n"
  by (simp add: forest_wf_def)

lemma sub_dirs_simps [simp]:
  "sub_dirs [] = []"
  "sub_dirs (FileNode a b c d # ns) = sub_dirs ns"
  "sub_dirs (DirNode nm p cs # ns) = p # sub_dirs ns"
  "sub_dirs (ns @ ms) = sub_dirs ns @ sub_dirs ms"
  by (simp_all add: sub_dirs_def)

lemma has_dir_iff: "has_dir q ns \<longleftrightarrow> q \<in> set (sub_dirs ns)"
proof (induction ns)
  case Nil
  then show ?case by (simp add: has_dir_def)
next
  case (Cons n ns)
  then show ?case by (cases n) (auto simp: has_dir_def)
qed

lemma sub_dirs_member: "q \<in> set (sub_dirs ns) \<Longrightarrow> \<exists>nm cs. DirNode nm q cs \<in> set ns"
proof (induction ns)
  case (Cons n ns)
  then show ?case by (cases n) auto
qed simp

lemma update_dir_absent: "\<not> has_dir q ns \<Longrightarrow> update_dir q f ns = ns"
  unfolding update_dir_def has_dir_def by (rule map_idI) (force split: TreeNode.split)

text \<open>Where a directory is present it is present once, and updating it changes that node only.\<close>

lemma dir_split:
  assumes "has_dir q ns" "distinct (sub_dirs ns)"
  obtains as nm cs bs where "ns = as @ DirNode nm q cs # bs"
    "update_dir q f ns = as @ DirNode nm q (f cs) # bs"
proof -
  from assms(1) have "\<exists>nm cs. DirNode nm q cs \<in> set ns"
    unfolding has_dir_iff by (rule sub_dirs_member)
  then obtain nm cs where "DirNode nm q cs \<in> set ns" by blast
  then obtain as bs where ns: "ns = as @ DirNode nm q cs # bs" by (meson split_list)
  with assms(2) have "\<not> has_dir q as" "\<not> has_dir q bs" by (auto simp: has_dir_iff)
  then have "update_dir q f as = as" "update_dir q f bs = bs" by (simp_all add: update_dir_absent)
  then have "update_dir q f ns = as @ DirNode nm q (f cs) # bs" by (simp add: ns update_dir_def)
  with ns that show ?thesis by blast
qed

lemma insert_node_not_Nil [simp]: "insert_node cum segs f ns \<noteq> []"
  by (cases segs) (auto simp: Let_def update_dir_def has_dir_def)

lemma sub_dirs_wf: "forest_wf cum ns \<Longrightarrow> p \<in> set (sub_dirs ns) \<Longrightarrow> \<exists>nm. slash_free nm \<and> p = cum @ ''/'' @ nm"
  by (induction ns rule: list.induct) (auto simp: forest_wf_def sub_dirs_def split: TreeNode.splits)

abbreviation dir_path :: "string \<Rightarrow> string list \<Rightarrow> string" where
  "dir_path cum segs \<equiv> cum @ concat (map (\<lambda>s. ''/'' @ s) segs)"

lemma insert_node_wf:
  "\<lbrakk>forest_wf cum ns; \<And>s. s \<in> set segs \<Longrightarrow> slash_free s; node_wf (dir_path cum segs) (FileNode a b c d)\<rbrakk> \<Longrightarrow>
    forest_wf cum (insert_node cum segs (FileNode a b c d) ns)"
proof (induction segs arbitrary: cum ns)
  case Nil
  then show ?case by (auto simp: forest_wf_def)
next
  case (Cons seg segs)
  let ?q = "cum @ ''/'' @ seg" and ?f = "FileNode a b c d"
  have sub: "forest_wf ?q (insert_node ?q segs ?f cs)" if "forest_wf ?q cs" for cs
    using Cons.IH[OF that] Cons.prems(2,3) by simp
  show ?case
  proof (cases "has_dir ?q ns")
    case True
    have "distinct (sub_dirs ns)" using Cons.prems(1) by (simp add: forest_wf_def)
    then obtain as nm cs bs where ns: "ns = as @ DirNode nm ?q cs # bs"
      and upd: "update_dir ?q (insert_node ?q segs ?f) ns
        = as @ DirNode nm ?q (insert_node ?q segs ?f cs) # bs"
      using dir_split[OF True] by metis
    have "node_wf cum (DirNode nm ?q cs)" by (rule forest_wf_member[OF Cons.prems(1)]) (simp add: ns)
    then have "node_wf cum (DirNode nm ?q (insert_node ?q segs ?f cs))"
      using sub[of cs] by (auto simp: node_wf_DirNode simp del: node_wf.simps)
    with True upd Cons.prems(1) show ?thesis
      by (auto simp: forest_wf_def ns Let_def simp del: node_wf.simps)
  next
    case False
    have "node_wf cum (DirNode seg ?q (insert_node ?q segs ?f []))"
      using sub[of "[]"] Cons.prems(2) by (simp add: node_wf_DirNode forest_wf_def del: node_wf.simps)
    with False Cons.prems(1) show ?thesis
      by (auto simp: forest_wf_def Let_def has_dir_iff simp del: node_wf.simps)
  qed
qed

lemma insert_node_files:
  "forest_wf cum ns \<Longrightarrow> mset (concat (map files_of (insert_node cum segs (FileNode a b c d) ns)))
    = add_mset (FileNode a b c d) (mset (concat (map files_of ns)))"
proof (induction segs arbitrary: cum ns)
  case Nil
  then show ?case by simp
next
  case (Cons seg segs)
  let ?q = "cum @ ''/'' @ seg" and ?f = "FileNode a b c d"
  show ?case
  proof (cases "has_dir ?q ns")
    case True
    have "distinct (sub_dirs ns)" using Cons.prems(1) by (simp add: forest_wf_def)
    then obtain as nm cs bs where ns: "ns = as @ DirNode nm ?q cs # bs"
      and upd: "update_dir ?q (insert_node ?q segs ?f) ns
        = as @ DirNode nm ?q (insert_node ?q segs ?f cs) # bs"
      using dir_split[OF True] by metis
    have "node_wf cum (DirNode nm ?q cs)" by (rule forest_wf_member[OF Cons.prems(1)]) (simp add: ns)
    then have "forest_wf ?q cs" by (auto simp: node_wf_DirNode simp del: node_wf.simps)
    from Cons.IH[OF this] True upd ns show ?thesis by (simp add: Let_def)
  next
    case False
    have "forest_wf ?q []" by (simp add: forest_wf_def)
    from Cons.IH[OF this] False show ?thesis by (simp add: Let_def)
  qed
qed

lemma concat_slashes: "ps \<noteq> [] \<Longrightarrow> concat (map (\<lambda>s. ''/'' @ s) ps) = ''/'' @ join ''/'' ps"
proof (induction ps)
  case (Cons p ps)
  then show ?case by (cases "ps = []") (simp_all add: join_Cons)
qed simp

lemma path_parts_path: "concat (map (\<lambda>s. ''/'' @ s) (path_parts p)) = ''/'' @ strip_slash p"
  by (subst concat_slashes) (simp_all add: path_parts_def)

lemma entry_node_wf: "node_wf (dir_path [] (butlast (path_parts (entryPath e)))) (entry_node e)"
proof -
  let ?ps = "path_parts (entryPath e)"
  have "''/'' @ strip_slash (entryPath e) = concat (map (\<lambda>s. ''/'' @ s) (butlast ?ps @ [last ?ps]))"
    by (simp only: append_butlast_last_id path_parts_not_Nil path_parts_path not_False_eq_True)
  moreover have "slash_free (last ?ps)"
    by (rule path_parts_slash_free[OF last_in_set[OF path_parts_not_Nil]])
  ultimately show ?thesis
    unfolding entry_node_def node_wf.simps map_append concat_append by simp
qed

lemma insert_entry_wf: "forest_wf [] ns \<Longrightarrow> forest_wf [] (insert_entry ns e)"
  using insert_node_wf[of "[]" ns "butlast (path_parts (entryPath e))"] entry_node_wf[of e]
    path_parts_slash_free in_set_butlastD
  by (metis entry_node_def insert_entry_def)

lemma foldl_insert_entry:
  "forest_wf [] ns \<Longrightarrow> forest_wf [] (foldl insert_entry ns es) \<and>
     mset (concat (map files_of (foldl insert_entry ns es)))
       = mset (concat (map files_of ns)) + image_mset entry_node (mset es)"
proof (induction es arbitrary: ns)
  case (Cons e es)
  have "mset (concat (map files_of (insert_entry ns e)))
      = add_mset (entry_node e) (mset (concat (map files_of ns)))"
    unfolding insert_entry_def entry_node_def by (rule insert_node_files[OF Cons.prems])
  with Cons.IH[OF insert_entry_wf[OF Cons.prems]] show ?case by simp
qed simp

lemma buildTree_shape:
  "forest_wf [] (buildTree lc es)"
  "mset (concat (map files_of (buildTree lc es))) = image_mset entry_node (mset es)"
  using foldl_insert_entry[of "[]" "js_sort (\<lambda>a b. lc (entryPath a) (entryPath b)) es"]
  by (simp_all add: buildTree_eq forest_wf_def)

text \<open>The comparison by code units, one of the orders \<open>localeCompare\<close> may be.\<close>

fun byte_compare :: "string \<Rightarrow> string \<Rightarrow> int" where
  "byte_compare [] [] = 0"
| "byte_compare [] (d # ds) = -1"
| "byte_compare (c # cs) [] = 1"
| "byte_compare (c # cs) (d # ds) =
     (if c = d then byte_compare cs ds else if (of_char c :: nat) < of_char d then -1 else 1)"

lemma byte_compare_total: "byte_compare a b \<le> 0 \<or> byte_compare b a \<le> 0"
proof (induction a b rule: byte_compare.induct)
  case (4 c cs d ds)
  have "c = d \<or> (of_char c :: nat) < of_char d \<or> (of_char d :: nat) < of_char c"
    by (metis linorder_neqE_nat of_char_eq_iff)
  with 4 show ?case by auto
qed simp_all

lemma byte_compare_trans: "byte_compare a b \<le> 0 \<Longrightarrow> byte_compare b c \<le> 0 \<Longrightarrow> byte_compare a c \<le> 0"
proof (induction a b arbitrary: c rule: byte_compare.induct)
  case (1 c)
  then show ?case by (cases c) auto
next
  case (2 d ds c)
  then show ?case by (cases c) auto
next
  case (3 x xs c)
  then show ?case by simp
next
  case (4 x xs y ys c)
  then show ?case by (cases c) (auto split: if_splits)
qed

lemma consistent_byte_compare: "consistent_cmp byte_compare"
  unfolding consistent_cmp_def using byte_compare_total byte_compare_trans by blast

section \<open>Which files are visible\<close>

text \<open>
  A file is visible when every directory above it is expanded. \<open>open_from expanded cum segs\<close> reads
  that off the remaining path components below the directory \<open>cum\<close>.
\<close>

fun open_from :: "string set \<Rightarrow> string \<Rightarrow> string list \<Rightarrow> bool" where
  "open_from expanded cum (seg # seg' # segs) \<longleftrightarrow>
     cum @ ''/'' @ seg \<in> expanded \<and> open_from expanded (cum @ ''/'' @ seg) (seg' # segs)"
| "open_from expanded cum _ \<longleftrightarrow> True"

definition visible :: "string set \<Rightarrow> VFSEntry \<Rightarrow> bool" where
  "visible expanded e \<longleftrightarrow> open_from expanded [] (path_parts (entryPath e))"

definition entry_row :: "string option \<Rightarrow> VFSEntry \<Rightarrow> Row" where
  "entry_row selected e = file_row (length (path_parts (entryPath e)) - 1) selected
     (last (path_parts (entryPath e))) (entryPath e)
     (case entryGhost e of None \<Rightarrow> False | Some g \<Rightarrow> g) (entrySize e)"

definition file_rows :: "Row list \<Rightarrow> Row list" where
  "file_rows rows = filter (\<lambda>r. case r of FileRow _ _ _ _ _ _ _ \<Rightarrow> True | DirRow _ _ _ _ \<Rightarrow> False) rows"

lemma file_rows_simps [simp]:
  "file_rows [] = []"
  "file_rows (rs @ rs') = file_rows rs @ file_rows rs'"
  "file_rows (DirRow a b c d # rs) = file_rows rs"
  "file_rows (file_row dp sel nm p g sz # rs) = file_row dp sel nm p g sz # file_rows rs"
  by (simp_all add: file_rows_def file_row_def)

text \<open>The row of a file node, placed by its own path.\<close>

definition node_row :: "string option \<Rightarrow> TreeNode \<Rightarrow> Row" where
  "node_row selected n = (case n of
       FileNode nm p g sz \<Rightarrow> file_row (length (path_parts p) - 1) selected nm p g sz
     | DirNode nm p cs \<Rightarrow> DirRow p 0 False nm)"

lemma node_row_entry_node: "node_row selected (entry_node e) = entry_row selected e"
  by (simp add: node_row_def entry_node_def entry_row_def)

lemma path_parts_dir_path:
  assumes "''/'' @ strip_slash p = dir_path [] segs @ ''/'' @ nm" "\<And>s. s \<in> set segs \<Longrightarrow> slash_free s" "slash_free nm"
  shows "path_parts p = segs @ [nm]"
proof -
  have "''/'' @ strip_slash p = concat (map (\<lambda>s. ''/'' @ s) (segs @ [nm]))" using assms(1) by simp
  also have "\<dots> = ''/'' @ join ''/'' (segs @ [nm])" by (rule concat_slashes) simp
  finally have "strip_slash p = join ''/'' (segs @ [nm])" by simp
  with assms(2,3) show ?thesis unfolding path_parts_def
    by (metis Un_iff append_is_Nil_conv empty_iff list.distinct(1) list.set(1) set_ConsD set_append split_on_join)
qed

lemma files_of_below:
  "\<lbrakk>node_wf (dir_path [] pre) n; \<And>s. s \<in> set pre \<Longrightarrow> slash_free s; f \<in> set (files_of n)\<rbrakk> \<Longrightarrow>
     \<exists>rest. rest \<noteq> [] \<and> path_parts (nodePath f) = pre @ rest"
proof (induction n arbitrary: pre)
  case (FileNode nm p g sz)
  then show ?case using path_parts_dir_path[of p pre nm] by auto
next
  case (DirNode nm p cs)
  from DirNode.prems(3) obtain c where c: "c \<in> set cs" "f \<in> set (files_of c)" by auto
  with DirNode.prems(1) have "node_wf (dir_path [] (pre @ [nm])) c" "slash_free nm" by auto
  with DirNode.IH[OF c(1), of "pre @ [nm]"] DirNode.prems(2) c(2) show ?case by auto
qed

lemma files_of_dir_below:
  assumes "node_wf (dir_path [] pre) (DirNode nm p cs)" "\<And>s. s \<in> set pre \<Longrightarrow> slash_free s"
    "f \<in> set (concat (map files_of cs))"
  shows "\<exists>seg segs. path_parts (nodePath f) = pre @ nm # seg # segs"
proof -
  from assms(3) obtain c where c: "c \<in> set cs" "f \<in> set (files_of c)" by auto
  with assms(1) have "node_wf (dir_path [] (pre @ [nm])) c" "slash_free nm" by auto
  with files_of_below[of "pre @ [nm]" c f] assms(2) c(2)
  obtain rest where "rest \<noteq> []" "path_parts (nodePath f) = pre @ nm # rest" by auto
  then show ?thesis by (cases rest) auto
qed

abbreviation shown :: "string set \<Rightarrow> string list \<Rightarrow> TreeNode \<Rightarrow> bool" where
  "shown expanded pre f \<equiv> open_from expanded (dir_path [] pre) (drop (length pre) (path_parts (nodePath f)))"

lemma TreeNodes_append:
  "TreeNodes d E sel (ns @ ms) = TreeNodes d E sel ns @ TreeNodes d E sel ms"
  by (induction d E sel ns rule: TreeNodes.induct) simp_all

lemma TreeNodes_concat: "TreeNodes d E sel ns = concat (map (\<lambda>n. TreeNodes d E sel [n]) ns)"
proof (induction ns)
  case (Cons n ns)
  have "TreeNodes d E sel (n # ns) = TreeNodes d E sel [n] @ TreeNodes d E sel ns"
    using TreeNodes_append[of d E sel "[n]" ns] by simp
  with Cons show ?case by simp
qed simp

lemma file_rows_concat: "file_rows (concat rss) = concat (map file_rows rss)"
  by (induction rss) simp_all

lemma filter_map_concat:
  "(\<And>c. c \<in> set cs \<Longrightarrow> f c = map g (filter P (h c))) \<Longrightarrow>
     concat (map f cs) = map g (filter P (concat (map h cs)))"
  by (induction cs) simp_all

lemma node_rows:
  "\<lbrakk>node_wf (dir_path [] pre) n; \<And>s. s \<in> set pre \<Longrightarrow> slash_free s\<rbrakk> \<Longrightarrow>
     file_rows (TreeNodes (length pre) E sel [n]) = map (node_row sel) (filter (shown E pre) (files_of n))"
proof (induction n arbitrary: pre)
  case (FileNode nm p g sz)
  then have "path_parts p = pre @ [nm]" by (intro path_parts_dir_path) auto
  then show ?case by (simp add: node_row_def)
next
  case (DirNode nm p cs)
  let ?pre = "pre @ [nm]"
  have p: "p = dir_path [] ?pre" "slash_free nm" using DirNode.prems(1) by auto
  have "shown E pre f \<longleftrightarrow> p \<in> E \<and> shown E ?pre f" if "f \<in> set (concat (map files_of cs))" for f
    using files_of_dir_below[OF DirNode.prems that] p by auto
  then have filt: "filter (shown E pre) (files_of (DirNode nm p cs))
      = (if p \<in> E then filter (shown E ?pre) (concat (map files_of cs)) else [])"
    unfolding files_of.simps by (cases "p \<in> E") (simp_all only: filter_empty_conv if_True if_False simp_thms ball_triv cong: filter_cong)
  have "file_rows (TreeNodes (length ?pre) E sel [c]) = map (node_row sel) (filter (shown E ?pre) (files_of c))"
    if "c \<in> set cs" for c
    using DirNode.IH[OF that, of ?pre] DirNode.prems p that by auto
  then have "file_rows (TreeNodes (length ?pre) E sel cs)
      = map (node_row sel) (filter (shown E ?pre) (concat (map files_of cs)))"
    unfolding TreeNodes_concat[of _ _ _ cs] file_rows_concat map_map comp_def by (rule filter_map_concat)
  with filt show ?case by simp
qed

lemma forest_rows:
  assumes "forest_wf [] ns"
  shows "file_rows (TreeNodes 0 E sel ns) = map (node_row sel) (filter (shown E []) (concat (map files_of ns)))"
  unfolding TreeNodes_concat[of _ _ _ ns] file_rows_concat map_map comp_def
  using assms by (intro filter_map_concat) (simp add: forest_wf_def node_rows[of "[]", simplified])

text \<open>C5: \<open>buildTree\<close>, which links shared children arrays through \<open>dirMap\<close>, computes exactly this: the
  entries, in the order of \<open>localeCompare\<close> on their paths, inserted one after the other into a tree,
  each in the directory its path names, creating the missing directories on the way. In particular
  it always terminates with a finite tree and the arrays never form a cycle.\<close>

theorem buildTree_refines:
  "buildTree lc es = foldl insert_entry [] (js_sort (\<lambda>a b. lc (entryPath a) (entryPath b)) es)"
  by (rule buildTree_eq)

text \<open>C22: the tree of a snapshot is well formed: each file and directory node lies in the directory
  its path names, no directory occurs twice among its siblings, and none is empty.\<close>

theorem buildTree_wf: "forest_wf [] (buildTree lc es)"
  by (rule buildTree_shape)

lemma tree_file_rows:
  "mset (file_rows (TreeNodes 0 expanded selected (buildTree lc es)))
     = image_mset (entry_row selected) (filter_mset (visible expanded) (mset es))"
proof -
  have "shown expanded [] (entry_node e) = visible expanded e" for e
    by (simp add: visible_def entry_node_def)
  then have "filter_mset (shown expanded []) (image_mset entry_node (mset es))
      = image_mset entry_node (filter_mset (visible expanded) (mset es))"
    by (simp add: filter_mset_image_mset)
  then show ?thesis
    unfolding forest_rows[OF buildTree_shape(1)] mset_map mset_filter buildTree_shape(2)
    by (simp add: multiset.map_comp comp_def node_row_entry_node)
qed

text \<open>C7: whatever directories are expanded, the file rows on display are exactly the entries of the
  snapshot all of whose ancestor directories are expanded, each once, with its own name, size,
  badge and selection mark, and indented by the number of its ancestors. In particular no entry is
  lost or duplicated by the tree.\<close>

theorem tree_shows_visible_entries:
  "mset (file_rows (TreeNodes 0 expanded selected (buildTree lc es)))
     = image_mset (entry_row selected) (filter_mset (visible expanded) (mset es))"
  by (rule tree_file_rows)

lemma buildTree_not_Nil: "es \<noteq> [] \<Longrightarrow> buildTree lc es \<noteq> []"
  using buildTree_shape(2)[of lc es] by (cases "buildTree lc es = []") auto

text \<open>the comment in \<open>buildTree\<close> that sorting by path puts directories before files does not
  hold: a file sorted before a directory of the same level stays before it.\<close>

theorem buildTree_file_before_dir:
  "consistent_cmp byte_compare \<and>
   buildTree byte_compare
     [\<lparr>entryPath = ''/b/c'', entrySize = None, entryGhost = None\<rparr>,
      \<lparr>entryPath = ''/a.txt'', entrySize = None, entryGhost = None\<rparr>]
   = [FileNode ''a.txt'' ''/a.txt'' False None,
      DirNode ''b'' ''/b'' [FileNode ''c'' ''/b/c'' False None]]"
  by (rule conjI[OF consistent_byte_compare]) code_simp

end
