(* ===== verification/Polling.thy ===== *)
theory Polling
  imports Machine
begin

text \<open>
  The contract of the console's three self-rescheduling polls (\<open>VirtualFileTree.tsx\<close>,
  \<open>AgentVitals.tsx\<close>, \<open>OrchestratorStatus.tsx\<close>). Each waits a delay between requests, doubles it up to
  a cap when the orchestrator cannot be reached and resets it when a request succeeds.
  \<open>capped_backoff\<close> is the delay sequence, \<open>poller\<close> the loop that uses it; the components interpret
  both on their own definitions.
\<close>

locale capped_backoff =
  fixes reset :: nat and cap :: nat and bump :: "nat \<Rightarrow> nat"
  assumes reset_pos: "0 < reset"
    and reset_le_cap: "reset \<le> cap"
    and bump_eq: "\<lbrakk>reset \<le> d; d \<le> cap\<rbrakk> \<Longrightarrow> bump d = min (d * 2) cap"
begin

definition in_range :: "nat \<Rightarrow> bool" where
  "in_range d \<longleftrightarrow> reset \<le> d \<and> d \<le> cap"

lemma reset_in_range [simp]: "in_range reset"
  by (simp add: in_range_def reset_le_cap)

lemma cap_in_range [simp]: "in_range cap"
  by (simp add: in_range_def reset_le_cap)

lemma bump_in_range: "in_range d \<Longrightarrow> in_range (bump d)"
  using reset_le_cap by (auto simp: in_range_def bump_eq)

lemma bump_grows: "in_range d \<Longrightarrow> d < cap \<Longrightarrow> d < bump d"
  using reset_pos by (auto simp: in_range_def bump_eq)

lemma bump_iter: "(bump ^^ n) reset = min (reset * 2 ^ n) cap"
proof (induction n)
  case 0
  then show ?case using reset_le_cap by simp
next
  case (Suc n)
  have "1 * reset \<le> 2 ^ n * reset" by (rule mult_le_mono1) simp
  then have "in_range (min (reset * 2 ^ n) cap)"
    using reset_le_cap by (simp add: in_range_def mult.commute)
  with Suc show ?case by (auto simp: in_range_def bump_eq min_def)
qed

lemma bump_iter_cap: "cap \<le> reset * 2 ^ n \<Longrightarrow> (bump ^^ n) reset = cap"
  by (simp add: bump_iter)

end

locale poller = capped_backoff +
  fixes delay :: "'s \<Rightarrow> nat" and step :: "'s \<Rightarrow> 'e \<Rightarrow> 's" and live :: "'s \<Rightarrow> bool"
    and ok :: "'e \<Rightarrow> bool" and down :: "'e \<Rightarrow> bool"
  assumes live_step: "live s \<Longrightarrow> live (step s e)"
    and step_ok: "\<lbrakk>live s; ok e\<rbrakk> \<Longrightarrow> delay (step s e) = reset"
    and step_down: "\<lbrakk>live s; down e\<rbrakk> \<Longrightarrow> delay (step s e) = bump (delay s)"
    and step_other: "\<lbrakk>live s; \<not> ok e; \<not> down e\<rbrakk> \<Longrightarrow>
      delay (step s e) = delay s \<or> delay (step s e) = cap"

sublocale poller \<subseteq> machine step live
  by unfold_locales (rule live_step)

context poller
begin

lemma step_in_range: "\<lbrakk>live s; in_range (delay s)\<rbrakk> \<Longrightarrow> in_range (delay (step s e))"
  by (metis bump_in_range cap_in_range reset_in_range step_down step_ok step_other)

text \<open>The delay stays between the reset value and the cap, whatever the server does.\<close>

lemma run_in_range: "\<lbrakk>live s; in_range (delay s)\<rbrakk> \<Longrightarrow> in_range (delay (foldl step s es))"
  by (rule guarded_run) (auto intro: step_in_range)

lemmas live_run = inv_run

lemma delay_run_down:
  "\<lbrakk>live s; \<And>e. e \<in> set es \<Longrightarrow> down e\<rbrakk> \<Longrightarrow> delay (foldl step s es) = (bump ^^ length es) (delay s)"
  by (induction es arbitrary: s) (simp_all add: live_step step_down funpow_swap1)

text \<open>After a success, the n-th failure in a row leaves the delay at the capped doubling.\<close>

lemma delay_after_failures:
  assumes "live s" "ok e" "\<And>d. d \<in> set ds \<Longrightarrow> down d"
  shows "delay (foldl step s (es @ e # ds)) = min (reset * 2 ^ length ds) cap"
proof -
  let ?s = "foldl step s es"
  have "live ?s" using assms(1) by (rule live_run)
  then have "delay (foldl step (step ?s e) ds) = (bump ^^ length ds) reset"
    using assms delay_run_down[of "step ?s e" ds] by (simp add: live_step step_ok)
  then show ?thesis by (simp add: bump_iter)
qed

end

end
