(* ===== verification/TreeSync.thy ===== *)
theory TreeSync
  imports FileTree Polling
begin

text \<open>
  \<open>frontend/components/VirtualFileTree.tsx\<close>, second half: the reducer, the polling of the VFS
  listing, its replication between browser tabs through Automerge and a BroadcastChannel, and what
  is shown.

  Automerge is a third-party package. Its operations are the fields of the record \<open>automerge\<close>, an
  argument of the definitions; what a property relies on is stated as a hypothesis on them.

  Each run of the session effect has its own closure variables, a \<open>loader\<close>. A request in flight
  belongs to the loader that sent it, so a response may arrive for a loader whose session is gone.
  The state \<open>vft\<close> keeps the loaders of all runs, the current one last.
\<close>

section \<open>Fetching the listing\<close>

datatype FetchResult =
    FetchOk "VFSEntry list"
  | FetchFailed (networkError: bool) (fetchStatus: "nat option")

definition vfs_url :: "string \<Rightarrow> string" where
  "vfs_url sessionId = ''/api/v1/vfs/'' @ encodeURIComponent sessionId"

fun fetchVFSEntries :: "(string \<times> nat option) list http \<Rightarrow> FetchResult" where
  "fetchVFSEntries (FetchThrows err) = FetchFailed True None"
| "fetchVFSEntries (Response status body) =
     (if \<not> res_ok status then FetchFailed False (Some status)
      else case body of
        None \<Rightarrow> FetchFailed True None
      | Some json \<Rightarrow> FetchOk (map (\<lambda>(p, sz). \<lparr>entryPath = p, entrySize = sz, entryGhost = None\<rparr>) json))"

definition TREE_POLL_BASE_MS :: nat where "TREE_POLL_BASE_MS = 3000"
definition TREE_POLL_MAX_MS :: nat where "TREE_POLL_MAX_MS = 60000"

lemmas tree_consts = TREE_POLL_BASE_MS_def TREE_POLL_MAX_MS_def

section \<open>The reducer\<close>

datatype Action =
    SET_ENTRIES "VFSEntry list"
  | TOGGLE_DIR string
  | SET_OFFLINE bool
  | SET_VFS_DISABLED

record TreeState =
  stEntries :: "VFSEntry list"
  stExpanded :: "string set"
  stOffline :: bool
  stVfsDisabled :: bool

fun reducer :: "TreeState \<Rightarrow> Action \<Rightarrow> TreeState" where
  "reducer state (SET_ENTRIES entries) = state\<lparr>stEntries := entries\<rparr>"
| "reducer state (TOGGLE_DIR path) =
     (let nxt = stExpanded state in
      state\<lparr>stExpanded := (if path \<in> nxt then nxt - {path} else insert path nxt)\<rparr>)"
| "reducer state (SET_OFFLINE offline) = state\<lparr>stOffline := offline\<rparr>"
| "reducer state SET_VFS_DISABLED = state\<lparr>stVfsDisabled := True\<rparr>"

section \<open>The replicated document\<close>

record DocEntry =
  docPath :: string
  docSize :: nat
  docGhost :: bool

record ('d, 'c) automerge =
  am_init :: 'd
  am_change :: "'d \<Rightarrow> DocEntry list \<Rightarrow> 'd"
  am_entries :: "'d \<Rightarrow> DocEntry list"
  am_getChanges :: "'d \<Rightarrow> 'd \<Rightarrow> 'c list option"
  am_applyChanges :: "'d \<Rightarrow> 'c list \<Rightarrow> 'd option"

definition broadcastChannelName :: "string \<Rightarrow> string" where
  "broadcastChannelName sessionId = ''vfs-sync:'' @ sessionId"

text \<open>A message on the channel: a patch, or anything else.\<close>

datatype 'c bc_message = AutomergePatch "'c list" | OtherMessage

record loader =
  ldSession :: string
  ldCancelled :: bool
  firstLoad :: bool
  ldBackoffMs :: nat
  ldTimer :: "nat option"

record ('d, 'c) vft =
  tstate :: TreeState
  docRef :: 'd
  selectedRef :: "string option"
  posted :: "(string \<times> 'c bc_message) list"
  loaders :: "loader list"

definition initial_tree :: TreeState where
  "initial_tree = \<lparr>stEntries = [], stExpanded = {}, stOffline = False, stVfsDisabled = False\<rparr>"

definition empty_doc :: "('d, 'c) automerge \<Rightarrow> 'd" where
  "empty_doc am = am_change am (am_init am) []"

definition vft_init :: "('d, 'c) automerge \<Rightarrow> ('d, 'c) vft" where
  "vft_init am = \<lparr>tstate = initial_tree, docRef = empty_doc am, selectedRef = None, posted = [], loaders = []\<rparr>"

definition dispatch :: "Action \<Rightarrow> ('d, 'c) vft \<Rightarrow> ('d, 'c) vft" where
  "dispatch a s = s\<lparr>tstate := reducer (tstate s) a\<rparr>"

definition from_doc :: "DocEntry \<Rightarrow> VFSEntry" where
  "from_doc e = \<lparr>entryPath = docPath e, entrySize = Some (docSize e), entryGhost = Some (docGhost e)\<rparr>"

definition to_doc :: "VFSEntry \<Rightarrow> DocEntry" where
  "to_doc e = \<lparr>docPath = entryPath e,
     docSize = (case entrySize e of None \<Rightarrow> 0 | Some n \<Rightarrow> n),
     docGhost = (case entryGhost e of None \<Rightarrow> False | Some g \<Rightarrow> g)\<rparr>"

definition applyRemoteEntries ::
  "('d, 'c) automerge \<Rightarrow> string \<Rightarrow> VFSEntry list \<Rightarrow> ('d, 'c) vft \<Rightarrow> ('d, 'c) vft" where
  "applyRemoteEntries am sessionId incoming s =
     (let prev = docRef s;
          nxt = am_change am prev (map to_doc incoming);
          s1 = s\<lparr>docRef := nxt\<rparr>;
          s2 = (case am_getChanges am prev nxt of
                  Some (c # cs) \<Rightarrow>
                    s1\<lparr>posted := posted s1 @ [(broadcastChannelName sessionId, AutomergePatch (c # cs))]\<rparr>
                | _ \<Rightarrow> s1)
      in dispatch (SET_ENTRIES (map from_doc (am_entries am (docRef s2)))) s2)"

definition bc_onmessage ::
  "('d, 'c) automerge \<Rightarrow> 'c bc_message \<Rightarrow> ('d, 'c) vft \<Rightarrow> ('d, 'c) vft" where
  "bc_onmessage am msg s = (case msg of
       OtherMessage \<Rightarrow> s
     | AutomergePatch changes \<Rightarrow>
         (case am_applyChanges am (docRef s) changes of
            None \<Rightarrow> s
          | Some merged \<Rightarrow>
              dispatch (SET_ENTRIES (map from_doc (am_entries am merged))) (s\<lparr>docRef := merged\<rparr>)))"

section \<open>The session effect\<close>

definition new_loader :: "string \<Rightarrow> loader" where
  "new_loader sessionId = \<lparr>ldSession = sessionId, ldCancelled = False, firstLoad = True,
     ldBackoffMs = TREE_POLL_BASE_MS div 2, ldTimer = None\<rparr>"

definition tree_bump :: "nat \<Rightarrow> nat" where
  "tree_bump ms = min (ms * 2) TREE_POLL_MAX_MS"

text \<open>The body of \<open>load\<close> once the response is there.\<close>

definition load ::
  "('d, 'c) automerge \<Rightarrow> loader \<Rightarrow> (string \<times> nat option) list http \<Rightarrow> ('d, 'c) vft \<Rightarrow> loader \<times> ('d, 'c) vft" where
  "load am ld response s =
     (let result = fetchVFSEntries response in
      if ldCancelled ld then (ld, s)
      else let (ld', s') =
        (case result of
           FetchOk entries \<Rightarrow>
             (let ld1 = ld\<lparr>ldBackoffMs := TREE_POLL_BASE_MS div 2\<rparr>;
                  s1 = dispatch (SET_OFFLINE False) s;
                  s2 = applyRemoteEntries am (ldSession ld) entries s1
              in if firstLoad ld1
                 then (ld1\<lparr>firstLoad := False\<rparr>,
                       dispatch (TOGGLE_DIR ''/output'') (dispatch (TOGGLE_DIR ''/src'') s2))
                 else (ld1, s2))
         | FetchFailed netErr status \<Rightarrow>
             if status = Some 503
             then (ld\<lparr>ldBackoffMs := TREE_POLL_MAX_MS\<rparr>, dispatch SET_VFS_DISABLED s)
             else if netErr \<or> (case status of None \<Rightarrow> False | Some n \<Rightarrow> n \<ge> 500)
             then (ld\<lparr>ldBackoffMs := tree_bump (ldBackoffMs ld)\<rparr>, dispatch (SET_OFFLINE True) s)
             else (ld, s))
      in (ld'\<lparr>ldTimer := Some (ldBackoffMs ld')\<rparr>, s'))"

definition cleanup :: "loader \<Rightarrow> loader" where
  "cleanup ld = ld\<lparr>ldCancelled := True, ldTimer := None\<rparr>"

text \<open>A change of the \<open>sessionId\<close> prop: the cleanup of the previous run, then the effect. An empty
  session id is falsy.\<close>

definition session_effect ::
  "('d, 'c) automerge \<Rightarrow> string option \<Rightarrow> ('d, 'c) vft \<Rightarrow> ('d, 'c) vft" where
  "session_effect am sessionId s =
     (let s1 = s\<lparr>loaders := map cleanup (loaders s)\<rparr> in
      case sessionId of
        Some (c # cs) \<Rightarrow> s1\<lparr>loaders := loaders s1 @ [new_loader (c # cs)]\<rparr>
      | _ \<Rightarrow> (dispatch (SET_ENTRIES []) s1)\<lparr>docRef := empty_doc am\<rparr>)"

datatype 'c vft_event =
    LoadDone nat "(string \<times> nat option) list http"
  | Message nat "'c bc_message"
  | SetSession "string option"
  | HandleToggle string
  | HandleSelect string

text \<open>Events name the loader they belong to; a closed channel delivers nothing.\<close>

fun vft_step :: "('d, 'c) automerge \<Rightarrow> ('d, 'c) vft \<Rightarrow> 'c vft_event \<Rightarrow> ('d, 'c) vft" where
  "vft_step am s (LoadDone i response) =
     (if i < length (loaders s) then
        (let (ld, s') = load am (loaders s ! i) response s in s'\<lparr>loaders := (loaders s')[i := ld]\<rparr>)
      else s)"
| "vft_step am s (Message i msg) =
     (if i < length (loaders s) \<and> \<not> ldCancelled (loaders s ! i) then bc_onmessage am msg s else s)"
| "vft_step am s (SetSession sid) = session_effect am sid s"
| "vft_step am s (HandleToggle path) = dispatch (TOGGLE_DIR path) s"
| "vft_step am s (HandleSelect path) = s\<lparr>selectedRef := Some path\<rparr>"

section \<open>What is shown\<close>

datatype TreeView =
    NoActiveSession
  | OfflinePlaceholder
  | VfsDisabledNotice
  | Shimmer
  | TreeRows (offlineBanner: bool) (viewRows: "Row list")

definition displayEntries :: "VFSEntry list option \<Rightarrow> TreeState \<Rightarrow> VFSEntry list" where
  "displayEntries inlineEntries st =
     (case inlineEntries of Some (e # es) \<Rightarrow> e # es | _ \<Rightarrow> stEntries st)"

definition VirtualFileTree ::
  "(string \<Rightarrow> string \<Rightarrow> int) \<Rightarrow> string option \<Rightarrow> VFSEntry list option \<Rightarrow> ('d, 'c) vft \<Rightarrow> TreeView" where
  "VirtualFileTree lc sessionId inlineEntries s =
     (let st = tstate s; tree = buildTree lc (displayEntries inlineEntries st) in
      if sessionId = None \<or> sessionId = Some [] then NoActiveSession
      else if tree = [] then
        if stOffline st then OfflinePlaceholder
        else if stVfsDisabled st then VfsDisabledNotice
        else Shimmer
      else TreeRows (stOffline st) (TreeNodes 0 (stExpanded st) (selectedRef s) tree))"

section \<open>The loader alone\<close>

fun load_ok :: "(string \<times> nat option) list http \<Rightarrow> bool" where
  "load_ok (Response status (Some js)) \<longleftrightarrow> res_ok status"
| "load_ok _ \<longleftrightarrow> False"

text \<open>Unreachable, an unreadable body, or a server error other than 503.\<close>

fun load_down :: "(string \<times> nat option) list http \<Rightarrow> bool" where
  "load_down (FetchThrows e) \<longleftrightarrow> True"
| "load_down (Response status body) \<longleftrightarrow> res_ok status \<and> body = None \<or> status \<ge> 500 \<and> status \<noteq> 503"

lemma load_loader:
  assumes "\<not> ldCancelled ld"
  shows "fst (load am ld r s) =
    (let d = (if load_ok r then TREE_POLL_BASE_MS div 2 else if load_down r then tree_bump (ldBackoffMs ld)
              else if \<exists>b. r = Response 503 b then TREE_POLL_MAX_MS else ldBackoffMs ld)
     in ld\<lparr>ldBackoffMs := d, ldTimer := Some d, firstLoad := firstLoad ld \<and> \<not> load_ok r\<rparr>)"
proof (cases r)
  case (FetchThrows e)
  with assms show ?thesis by (simp add: load_def Let_def)
next
  case (Response st b)
  show ?thesis
  proof (cases "res_ok st")
    case True
    then have "st < 500" by (simp add: res_ok_def)
    with True Response assms show ?thesis by (cases b) (auto simp: load_def Let_def)
  next
    case False
    with Response assms show ?thesis by (cases b) (auto simp: load_def Let_def res_ok_def)
  qed
qed

lemma load_cancelled [simp]: "ldCancelled (fst (load am ld r s)) = ldCancelled ld"
  by (cases "ldCancelled ld") (simp_all add: load_loader Let_def, simp add: load_def)

lemma load_down_not_ok: "load_down r \<Longrightarrow> \<not> load_ok r"
  by (cases r rule: load_ok.cases) (auto simp: res_ok_def)

interpretation treep: poller "TREE_POLL_BASE_MS div 2" TREE_POLL_MAX_MS tree_bump ldBackoffMs
    "\<lambda>ld r. fst (load am ld r s)" "\<lambda>ld. \<not> ldCancelled ld" load_ok load_down for am s
  by unfold_locales (auto simp: tree_bump_def tree_consts load_loader Let_def load_down_not_ok)

lemma load_loader_indep: "fst (load am ld r s) = fst (load am ld r s')"
proof (cases "ldCancelled ld")
  case False
  then show ?thesis by (simp add: load_loader)
qed (simp add: load_def)

lemma load_snd_loaders [simp]: "loaders (snd (load am ld r s)) = loaders s"
  by (auto simp: load_def Let_def dispatch_def applyRemoteEntries_def split: FetchResult.split list.split option.split)

lemma vft_step_LoadDone:
  "i < length (loaders s) \<Longrightarrow> vft_step am s (LoadDone i r) =
     (snd (load am (loaders s ! i) r s))\<lparr>loaders := (loaders s)[i := fst (load am (loaders s ! i) r s)]\<rparr>"
  by (simp add: case_prod_beta Let_def)

lemma vft_LoadDone_run:
  "i < length (loaders s) \<Longrightarrow>
     i < length (loaders (foldl (vft_step am) s (map (LoadDone i) rs))) \<and>
     loaders (foldl (vft_step am) s (map (LoadDone i) rs)) ! i
       = foldl (\<lambda>ld r. fst (load am ld r s0)) (loaders s ! i) rs"
proof (induction rs arbitrary: s)
  case (Cons r rs)
  show ?case using Cons.IH[of "vft_step am s (LoadDone i r)"] Cons.prems
    by (simp add: vft_step_LoadDone load_loader_indep[of am _ r s s0] del: vft_step.simps)
qed simp

section \<open>Stale events\<close>

text \<open>Only the run of the effect for the current session is live.\<close>

definition vft_inv :: "('d, 'c) vft \<Rightarrow> bool" where
  "vft_inv s \<longleftrightarrow> (\<forall>i < length (loaders s) - 1. ldCancelled (loaders s ! i)) \<and>
     (\<forall>ld \<in> set (loaders s). ldCancelled ld \<longrightarrow> ldTimer ld = None)"

lemma dispatch_loaders [simp]: "loaders (dispatch a s) = loaders s"
  by (simp add: dispatch_def)

lemma bc_onmessage_loaders [simp]: "loaders (bc_onmessage am msg s) = loaders s"
  by (simp add: bc_onmessage_def split: bc_message.split option.split)

lemma load_when_cancelled: "ldCancelled ld \<Longrightarrow> load am ld r s = (ld, s)"
  by (simp add: load_def)

lemma vft_inv_LoadDone: "vft_inv s \<Longrightarrow> vft_inv (vft_step am s (LoadDone i r))"
proof (cases "i < length (loaders s)")
  case True
  assume inv: "vft_inv s"
  let ?ld = "fst (load am (loaders s ! i) r s)"
  have "ldTimer ?ld = None" if "ldCancelled ?ld"
  proof -
    have c: "ldCancelled (loaders s ! i)" using that by simp
    with inv True have "ldTimer (loaders s ! i) = None" by (auto simp: vft_inv_def)
    with c show ?thesis by (simp add: load_when_cancelled)
  qed
  with inv True show ?thesis
    by (auto simp: vft_inv_def vft_step_LoadDone nth_list_update dest: subsetD[OF set_update_subset_insert]
          simp del: vft_step.simps)
qed simp

lemma vft_inv_SetSession: "vft_inv (session_effect am sid s)"
proof -
  have "\<exists>new. loaders (session_effect am sid s) = map cleanup (loaders s) @ new \<and>
      (new = [] \<or> (\<exists>sid. new = [new_loader sid]))"
    by (auto simp: session_effect_def Let_def split: option.split list.split)
  then show ?thesis
    by (auto simp: vft_inv_def cleanup_def new_loader_def nth_append)
qed

lemma vft_inv_step: "vft_inv s \<Longrightarrow> vft_inv (vft_step am s e)"
proof (cases e)
  case (LoadDone i r)
  assume "vft_inv s"
  with LoadDone show ?thesis by (simp only: vft_inv_LoadDone)
next
  case (SetSession sid)
  then show ?thesis by (simp add: vft_inv_SetSession)
qed (auto simp: vft_inv_def)

interpretation vft_machine: started_machine "vft_step am" vft_inv "vft_init am" for am
proof unfold_locales
  show "vft_inv (vft_init am)" by (simp add: vft_inv_def vft_init_def)
qed (rule vft_inv_step)

section \<open>Properties\<close>

lemma load_success:
  assumes "\<not> ldCancelled ld" "res_ok st"
  shows "tstate (snd (load am ld (Response st (Some js)) s)) =
    (let t = (tstate s)\<lparr>stOffline := False,
         stEntries := map from_doc (am_entries am (am_change am (docRef s) (map (\<lambda>(p, sz). to_doc
           \<lparr>entryPath = p, entrySize = sz, entryGhost = None\<rparr>) js)))\<rparr>
     in if firstLoad ld then reducer (reducer t (TOGGLE_DIR ''/src'')) (TOGGLE_DIR ''/output'') else t)"
  using assms
  by (simp add: load_def Let_def applyRemoteEntries_def dispatch_def comp_def case_prod_beta'
        split: option.split list.split)

lemma load_selected [simp]: "selectedRef (snd (load am ld r s)) = selectedRef s"
  by (auto simp: load_def Let_def dispatch_def applyRemoteEntries_def split: FetchResult.split list.split option.split)

lemma buildTree_empty [simp]: "buildTree lc es = [] \<longleftrightarrow> es = []"
proof
  assume "buildTree lc es = []"
  with buildTree_shape(2)[of lc es] show "es = []" by simp
next
  assume "es = []"
  then show "buildTree lc es = []" by (simp add: buildTree_eq js_sort_def)
qed

definition listed :: "string \<times> nat option \<Rightarrow> VFSEntry" where
  "listed e = \<lparr>entryPath = fst e,
     entrySize = Some (case snd e of None \<Rightarrow> 0 | Some n \<Rightarrow> n), entryGhost = Some False\<rparr>"

lemma from_to_doc [simp]:
  "from_doc (to_doc \<lparr>entryPath = fst x, entrySize = snd x, entryGhost = None\<rparr>) = listed x"
  by (simp add: from_doc_def to_doc_def listed_def)

text \<open>A replica that keeps its list and sends it whole, for the concrete runs below.\<close>

definition plain_doc :: "(DocEntry list, DocEntry list) automerge" where
  "plain_doc = \<lparr>am_init = [], am_change = (\<lambda>d es. es), am_entries = (\<lambda>d. d),
     am_getChanges = (\<lambda>d d'. if d = d' then Some [] else Some [d']),
     am_applyChanges = (\<lambda>d cs. if cs = [] then None else Some (last cs))\<rparr>"

definition demo_tree :: "(DocEntry list, DocEntry list) vft" where
  "demo_tree = session_effect plain_doc (Some ''s1'') (vft_init plain_doc)"

lemma demo_tree_loaders [simp]:
  "loaders demo_tree = [new_loader ''s1'']" "stExpanded (tstate demo_tree) = {}"
  "stOffline (tstate demo_tree) = False"
  by (simp_all add: demo_tree_def session_effect_def vft_init_def Let_def initial_tree_def)

lemma new_loader_simps [simp]: "\<not> ldCancelled (new_loader sid)" "firstLoad (new_loader sid)"
  by (simp_all add: new_loader_def)

text \<open>C9: A listing that arrives for the current session is what the tree then shows, provided that
  reading an Automerge document gives what was last assigned to it: the entries are those of the
  response with a missing size shown as 0 and none pending, the offline mark is cleared, and the next
  request follows after 1500 ms. An empty listing leaves the placeholder shimmer (or the notice that
  persistence is disabled) in place.\<close>

theorem tree_shows_listing:
  assumes law: "\<And>d es. am_entries am (am_change am d es) = es"
    and i: "i < length (loaders s)" and live: "\<not> ldCancelled (loaders s ! i)" and ok: "res_ok st"
    and sid: "sid = c # cs" and s': "s' = vft_step am s (LoadDone i (Response st (Some js)))"
  shows "stEntries (tstate s') = map listed js \<and> \<not> stOffline (tstate s') \<and>
    ldTimer (loaders s' ! i) = Some 1500 \<and>
    VirtualFileTree lc (Some sid) None s' =
      (if js = [] then if stVfsDisabled (tstate s) then VfsDisabledNotice else Shimmer
       else TreeRows False
         (TreeNodes 0 (stExpanded (tstate s')) (selectedRef s) (buildTree lc (map listed js))))"
proof -
  note eq = vft_step_LoadDone[OF i, of am "Response st (Some js)", folded s']
  have t: "tstate s' = tstate (snd (load am (loaders s ! i) (Response st (Some js)) s))"
    "selectedRef s' = selectedRef s"
    by (simp_all add: eq)
  have e: "stEntries (tstate s') = map listed js" "\<not> stOffline (tstate s')"
    "stVfsDisabled (tstate s') = stVfsDisabled (tstate s)"
    unfolding t load_success[OF live ok] by (simp_all add: Let_def law comp_def case_prod_beta')
  have "ldTimer (loaders s' ! i) = Some 1500"
    using i live ok by (simp add: eq load_loader Let_def tree_consts)
  with e t(2) sid show ?thesis
    by (simp add: VirtualFileTree_def Let_def displayEntries_def)
qed

theorem tree_shows_listing_witness:
  "stEntries (tstate (vft_step plain_doc demo_tree (LoadDone 0 (Response 200 (Some [(''/src/main.rs'', Some 12)])))))
   = [\<lparr>entryPath = ''/src/main.rs'', entrySize = Some 12, entryGhost = Some False\<rparr>]"
proof -
  have law: "\<And>d es. am_entries plain_doc (am_change plain_doc d es) = es" by (simp add: plain_doc_def)
  show ?thesis
    using tree_shows_listing[OF law, of 0 demo_tree 200 _ _ _ _ "[(''/src/main.rs'', Some 12)]", OF _ _ _ refl refl]
    by (simp add: res_ok_def listed_def del: vft_step.simps)
qed

text \<open>C10: In every reachable state, whatever order sessions change and responses and messages arrive
  in: a response to a request of an earlier session, or a message on an earlier session's channel,
  changes nothing at all, and no poll timer of an earlier session is left.\<close>

theorem tree_ignores_stale_events:
  assumes s: "s = foldl (vft_step am) (vft_init am) es" and i: "Suc i < length (loaders s)"
  shows "vft_step am s (LoadDone i r) = s \<and> vft_step am s (Message i m) = s \<and>
    ldTimer (loaders s ! i) = None"
proof -
  have "vft_inv s" unfolding s by (rule vft_machine.reachable_inv)
  with i have c: "ldCancelled (loaders s ! i)" "ldTimer (loaders s ! i) = None"
    by (auto simp: vft_inv_def)
  then have "vft_step am s (LoadDone i r) = s"
    using i by (simp add: vft_step_LoadDone load_when_cancelled del: vft_step.simps)
  with c show ?thesis by simp
qed

theorem tree_ignores_stale_events_witness:
  "vft_step plain_doc (foldl (vft_step plain_doc) (vft_init plain_doc) [SetSession (Some ''a''), SetSession (Some ''b'')])
     (LoadDone 0 (Response 200 (Some [(''/x'', None)])))
   = foldl (vft_step plain_doc) (vft_init plain_doc) [SetSession (Some ''a''), SetSession (Some ''b'')]"
  using tree_ignores_stale_events[OF refl, of 0 plain_doc "[SetSession (Some ''a''), SetSession (Some ''b'')]"]
  by (simp add: session_effect_def vft_init_def Let_def del: vft_step.simps(1,2))

text \<open>After a successful listing, the \<open>n\<close>-th failure in a row (unreachable, unreadable, or a server
  error other than 503) schedules the next request of that session after \<open>min (1500 * 2^n) 60000\<close> ms,
  whatever came before; so the interval after a success is half of \<open>POLL_BASE_MS\<close>.\<close>

theorem tree_backoff_sequence:
  assumes "i < length (loaders s)" "\<not> ldCancelled (loaders s ! i)" "load_ok e"
    "\<And>d. d \<in> set ds \<Longrightarrow> load_down d"
  shows "ldTimer (loaders (foldl (vft_step am) s (map (LoadDone i) (es @ e # ds))) ! i)
    = Some (min (1500 * 2 ^ length ds) 60000)"
proof -
  let ?f = "\<lambda>ld r. fst (load am ld r s)" and ?ld = "loaders s ! i"
  have run: "loaders (foldl (vft_step am) s (map (LoadDone i) (es @ e # ds))) ! i = foldl ?f ?ld (es @ e # ds)"
    using vft_LoadDone_run[OF assms(1)] by blast
  have delay: "ldBackoffMs (foldl ?f ?ld (es @ e # ds)) = min (1500 * 2 ^ length ds) 60000"
    using treep.delay_after_failures[OF assms(2-4)] by (simp add: tree_consts)
  obtain ys y where ys: "es @ e # ds = ys @ [y]" by (metis append_is_Nil_conv list.distinct(1) rev_exhaust)
  have "\<not> ldCancelled (foldl ?f ?ld ys)" using assms(2) by (rule treep.live_run)
  then have "ldTimer (foldl ?f ?ld (ys @ [y])) = Some (ldBackoffMs (foldl ?f ?ld (ys @ [y])))"
    by (simp add: load_loader Let_def)
  with run delay show ?thesis by (simp only: ys)
qed

theorem tree_backoff_sequence_witness:
  "ldTimer (loaders (foldl (vft_step plain_doc) demo_tree
     (map (LoadDone 0) ([Response 404 None] @ Response 200 (Some []) # [FetchThrows TypeError, Response 502 None]))) ! 0)
   = Some 6000"
proof -
  have down: "\<And>d. d \<in> set [FetchThrows TypeError, Response 502 None] \<Longrightarrow> load_down d"
    by (auto simp: res_ok_def)
  show ?thesis
    using tree_backoff_sequence[where i = 0 and s = demo_tree and am = plain_doc and es = "[Response 404 None]"
        and e = "Response 200 (Some [])" and ds = "[FetchThrows TypeError, Response 502 None]", OF _ _ _ down]
    by (simp add: res_ok_def del: vft_step.simps)
qed

text \<open>Switching directly from one session to another leaves the file tree of the old session on
  display, under the new session, until the first successful listing: only a switch to no session
  clears the entries and the document.\<close>

theorem tree_session_switch_keeps_entries:
  "VirtualFileTree lc (Some (c' # cs')) inl (vft_step am s (SetSession (Some (c' # cs'))))
     = VirtualFileTree lc (Some (c # cs)) inl s \<and>
   docRef (vft_step am s (SetSession (Some (c' # cs')))) = docRef s \<and>
   stEntries (tstate (vft_step am s (SetSession None))) = [] \<and>
   docRef (vft_step am s (SetSession None)) = empty_doc am"
  by (simp add: VirtualFileTree_def session_effect_def Let_def dispatch_def)

lemma toggle_two:
  "p \<noteq> q \<Longrightarrow> stExpanded (reducer (reducer t (TOGGLE_DIR p)) (TOGGLE_DIR q))
     = (stExpanded t - {p, q}) \<union> ({p, q} - stExpanded t)"
  by (auto simp: Let_def)

lemma load_failure_offline:
  "\<not> load_ok r \<Longrightarrow> stOffline (tstate s) \<Longrightarrow> stOffline (tstate (snd (load am ld r s)))"
  by (cases r rule: load_ok.cases) (auto simp: load_def Let_def dispatch_def)

text \<open>Once the orchestrator has been marked unreachable, only a successful listing clears the mark:
  answers with a 4xx status or 503, which show that it is reachable, leave the offline banner up.\<close>

theorem tree_offline_is_sticky:
  assumes "stOffline (tstate s)" "\<And>r. r \<in> set rs \<Longrightarrow> \<not> load_ok r"
  shows "stOffline (tstate (foldl (vft_step am) s (map (LoadDone i) rs)))"
  using assms
proof (induction rs arbitrary: s)
  case (Cons r rs)
  have "stOffline (tstate (vft_step am s (LoadDone i r)))"
    using Cons.prems by (simp add: case_prod_beta Let_def load_failure_offline)
  with Cons show ?case by (simp del: vft_step.simps)
qed simp

theorem tree_offline_is_sticky_witness:
  "stOffline (tstate (foldl (vft_step plain_doc) (dispatch (SET_OFFLINE True) demo_tree)
     (map (LoadDone 0) [Response 404 None, Response 503 None])))"
proof -
  have fails: "\<And>r. r \<in> set [Response 404 None, Response 503 None] \<Longrightarrow> \<not> load_ok r" by auto
  have "stOffline (tstate (dispatch (SET_OFFLINE True) demo_tree))" by (simp add: dispatch_def)
  from tree_offline_is_sticky[OF this fails] show ?thesis by blast
qed

text \<open>The first successful listing of each session toggles \<open>/src\<close> and \<open>/output\<close> instead of opening
  them: two sessions after another leave both directories as they were, closed if they started closed.\<close>

theorem tree_first_load_toggles:
  assumes "i < length (loaders s)" "\<not> ldCancelled (loaders s ! i)" "firstLoad (loaders s ! i)" "res_ok st"
    and s': "s' = vft_step am s (LoadDone i (Response st (Some js)))"
  shows "stExpanded (tstate s') =
      (stExpanded (tstate s) - {''/src'', ''/output''}) \<union> ({''/src'', ''/output''} - stExpanded (tstate s)) \<and>
    \<not> firstLoad (loaders s' ! i)"
proof -
  have "tstate s' = tstate (snd (load am (loaders s ! i) (Response st (Some js)) s))"
    by (simp add: s' vft_step_LoadDone[OF assms(1)] del: vft_step.simps)
  then have "stExpanded (tstate s') = stExpanded (reducer (reducer (tstate s) (TOGGLE_DIR ''/src'')) (TOGGLE_DIR ''/output''))"
    using assms(3) unfolding load_success[OF assms(2,4)] by (simp add: Let_def)
  also have "\<dots> = (stExpanded (tstate s) - {''/src'', ''/output''}) \<union> ({''/src'', ''/output''} - stExpanded (tstate s))"
    by (rule toggle_two) simp
  finally have "stExpanded (tstate s') = \<dots>" .
  moreover have "\<not> firstLoad (loaders s' ! i)"
    using assms by (simp add: vft_step_LoadDone load_loader Let_def del: vft_step.simps)
  ultimately show ?thesis by (rule conjI)
qed

theorem tree_first_load_toggles_witness:
  "stExpanded (tstate (vft_step plain_doc demo_tree (LoadDone 0 (Response 200 (Some []))))) = {''/src'', ''/output''}"
  using tree_first_load_toggles[OF _ _ _ _ refl, of 0 demo_tree 200 plain_doc "[]"]
  by (simp add: res_ok_def del: vft_step.simps)

end
