(* ===== verification/Console.thy ===== *)
theory Console
  imports Terminal Demos TreeSync
begin

text \<open>
  \<open>frontend/components/ExecutionConsole.tsx\<close> and \<open>StatusBar.tsx\<close>: the state of the console page, its
  handlers and keyboard shortcuts, what it passes to its children, and what its own panes show.

  The hooks of the component are the fields of \<open>console\<close>. A handler takes the committed state and
  gives the next one; all its setters take effect together, as React batches them. \<open>Date.now()\<close> is an
  argument. The layout and the styling are left out.
\<close>

section \<open>State\<close>

datatype SandboxState = SIdle | SRunning | SCrashed | SComplete | SNonzero

datatype Tab = TabTerminal | TabPreview

datatype InputMode = ModeDemo | ModeEditor

record console =
  sandboxState :: SandboxState
  sessionId :: "string option"
  activeTab :: Tab
  previewFile :: "string option"
  helpOpen :: bool
  showVitals :: bool
  selectedDemo :: DemoKey
  inputMode :: InputMode
  customWasmB64 :: "string option"
  inlineVfsEntries :: "VFSEntry list"
  inlineVfsSnapshot :: "(string \<times> string) list"
  inlineFileContent :: "string option"
  inlineFileB64 :: "string option"
  lastExitCode :: json

definition console_init :: console where
  "console_init = \<lparr>sandboxState = SIdle, sessionId = None, activeTab = TabTerminal, previewFile = None,
     helpOpen = False, showVitals = False, selectedDemo = hello_demo, inputMode = ModeDemo,
     customWasmB64 = None, inlineVfsEntries = [], inlineVfsSnapshot = [], inlineFileContent = None,
     inlineFileB64 = None, lastExitCode = JNum 0\<rparr>"

section \<open>Handlers\<close>

definition new_session_id :: "nat \<Rightarrow> string" where
  "new_session_id now = ''sess_'' @ to_base 36 now"

definition handleRun :: "nat \<Rightarrow> console \<Rightarrow> console" where
  "handleRun now s =
     (if sandboxState s = SRunning then s
      else s\<lparr>sessionId := Some (new_session_id now), sandboxState := SRunning, activeTab := TabTerminal\<rparr>)"

text \<open>The editor hands over \<open>undefined\<close> if the response has no program.\<close>

definition handleCompiled :: "nat \<Rightarrow> string option \<Rightarrow> console \<Rightarrow> console" where
  "handleCompiled now wasmB64 s =
     s\<lparr>customWasmB64 := wasmB64, sessionId := Some (new_session_id now), sandboxState := SRunning,
       activeTab := TabTerminal\<rparr>"

definition handleStop :: "console \<Rightarrow> console" where
  "handleStop s = (if sandboxState s \<noteq> SRunning then s else s\<lparr>sandboxState := SIdle\<rparr>)"

definition handleReset :: "console \<Rightarrow> console" where
  "handleReset s = s\<lparr>sandboxState := SIdle, sessionId := None, previewFile := None, activeTab := TabTerminal,
     inlineVfsEntries := [], inlineVfsSnapshot := [], inlineFileContent := None, inlineFileB64 := None,
     lastExitCode := JNum 0\<rparr>"

definition is_image_ext :: "string \<Rightarrow> bool" where
  "is_image_ext ext \<longleftrightarrow>
     ext \<in> set [''png'', ''jpg'', ''jpeg'', ''gif'', ''webp'', ''svg'', ''ico'', ''bmp'']"

text \<open>A property of the snapshot object that no file has, an empty content and a content that \<open>atob\<close>
  rejects all leave both inline fields undefined.\<close>

definition handleFileSelect :: "string \<Rightarrow> console \<Rightarrow> console" where
  "handleFileSelect path s =
     (let s1 = s\<lparr>previewFile := Some path, activeTab := TabPreview\<rparr> in
      case map_of (inlineVfsSnapshot s) path of
        Some (c # cs) \<Rightarrow>
          if is_image_ext (file_ext path)
          then s1\<lparr>inlineFileB64 := Some (c # cs), inlineFileContent := None\<rparr>
          else s1\<lparr>inlineFileB64 := None, inlineFileContent := map_option text_decode (atob (c # cs))\<rparr>
      | _ \<Rightarrow> s1\<lparr>inlineFileContent := None, inlineFileB64 := None\<rparr>)"

definition handleCrash :: "console \<Rightarrow> console" where
  "handleCrash s = s\<lparr>sandboxState := SCrashed\<rparr>"

definition handleReconnect :: "console \<Rightarrow> console" where
  "handleReconnect s = s\<lparr>sandboxState := SIdle, sessionId := None\<rparr>"

text \<open>
  \<open>onEnd\<close>. The snapshot is an object whose values are base64 strings; \<open>snapshot_files\<close> reads it, and
  is \<open>None\<close> for anything else.
\<close>

fun snapshot_files :: "json \<Rightarrow> (string \<times> string) list option" where
  "snapshot_files (JObj fs) =
     those (map (\<lambda>(p, v). case v of JStr b64 \<Rightarrow> Some (p, b64) | _ \<Rightarrow> None) fs)"
| "snapshot_files _ = None"

definition snapshot_entry :: "string \<times> string \<Rightarrow> VFSEntry" where
  "snapshot_entry f = \<lparr>entryPath = fst f, entrySize = Some (round_div (3 * length (snd f)) 4), entryGhost = None\<rparr>"

definition onEnd :: "bool \<Rightarrow> (string \<times> string) list option \<Rightarrow> json option \<Rightarrow> console \<Rightarrow> console" where
  "onEnd completed vfsSnapshot exitCode s =
     (let s1 = (if \<not> completed then s\<lparr>sandboxState := SCrashed\<rparr>
                else let code = (case exitCode of None \<Rightarrow> JNum 0 | Some c \<Rightarrow> c) in
                  s\<lparr>lastExitCode := code, sandboxState := (if code = JNum 0 then SComplete else SNonzero)\<rparr>)
      in case vfsSnapshot of
           Some (f # fs) \<Rightarrow>
             s1\<lparr>inlineVfsSnapshot := f # fs, inlineVfsEntries := map snapshot_entry (f # fs)\<rparr>
         | _ \<Rightarrow> s1)"

section \<open>Keyboard\<close>

record key_event =
  evKey :: string
  evMeta :: bool
  evCtrl :: bool
  evShift :: bool
  evInText :: bool

definition keyboard :: "bool \<Rightarrow> nat \<Rightarrow> key_event \<Rightarrow> console \<Rightarrow> console" where
  "keyboard isMac now e s =
     (let md = (if isMac then evMeta e else evCtrl e) in
      if md \<and> evKey e = ''Enter'' \<and> \<not> evShift e then handleRun now s
      else if evKey e = ''Escape'' \<and> \<not> evShift e \<and> \<not> md then handleStop s
      else if md \<and> evShift e \<and> evKey e = ''R'' then handleReset s
      else if md \<and> evShift e \<and> evKey e = ''T'' then s\<lparr>activeTab := TabTerminal\<rparr>
      else if md \<and> evShift e \<and> evKey e = ''P'' then
        (if previewFile s \<noteq> None \<and> previewFile s \<noteq> Some [] then s\<lparr>activeTab := TabPreview\<rparr> else s)
      else if evKey e = ''?'' \<and> \<not> md \<and> \<not> evInText e then s\<lparr>helpOpen := \<not> helpOpen s\<rparr>
      else if md \<and> evKey e = ''k'' then s\<lparr>helpOpen := True\<rparr>
      else s)"

text \<open>The effect that opens the vitals panel when a session runs.\<close>

definition vitals_shown :: "console \<Rightarrow> console" where
  "vitals_shown s = (if sandboxState s = SRunning then s\<lparr>showVitals := True\<rparr> else s)"

section \<open>Controls and children\<close>

datatype ui_event =
    ClickRun nat
  | ClickStop
  | ClickReset
  | ChooseMode InputMode
  | ChooseDemo DemoKey
  | ClickHelp
  | CloseHelp
  | ClickTab Tab
  | SelectFile string
  | Compiled nat "string option"
  | Key nat key_event
  | RendererCrashed
  | ClickReconnect
  | SessionEnded bool "(string \<times> string) list option" "json option"

text \<open>A disabled control does nothing. The preview tab is there only with a file to preview.\<close>

fun console_handle :: "bool \<Rightarrow> console \<Rightarrow> ui_event \<Rightarrow> console" where
  "console_handle isMac s (ClickRun now) = (if sandboxState s = SRunning then s else handleRun now s)"
| "console_handle isMac s ClickStop = (if sandboxState s \<noteq> SRunning then s else handleStop s)"
| "console_handle isMac s ClickReset = handleReset s"
| "console_handle isMac s (ChooseMode m) = (if sandboxState s = SRunning then s else s\<lparr>inputMode := m\<rparr>)"
| "console_handle isMac s (ChooseDemo d) =
     (if sandboxState s = SRunning \<or> inputMode s \<noteq> ModeDemo then s else s\<lparr>selectedDemo := d\<rparr>)"
| "console_handle isMac s ClickHelp = s\<lparr>helpOpen := True\<rparr>"
| "console_handle isMac s CloseHelp = s\<lparr>helpOpen := False\<rparr>"
| "console_handle isMac s (ClickTab t) =
     (if t = TabPreview \<and> (previewFile s = None \<or> previewFile s = Some []) then s else s\<lparr>activeTab := t\<rparr>)"
| "console_handle isMac s (SelectFile path) = handleFileSelect path s"
| "console_handle isMac s (Compiled now wasm) = handleCompiled now wasm s"
| "console_handle isMac s (Key now e) = keyboard isMac now e s"
| "console_handle isMac s RendererCrashed = handleCrash s"
| "console_handle isMac s ClickReconnect = handleReconnect s"
| "console_handle isMac s (SessionEnded completed snap code) = onEnd completed snap code s"

definition console_step :: "bool \<Rightarrow> console \<Rightarrow> ui_event \<Rightarrow> console" where
  "console_step isMac s e = vitals_shown (console_handle isMac s e)"

text \<open>What the terminal gets: \<open>running\<close>, \<open>sessionId\<close> and \<open>wasmB64\<close>. An empty compile result is falsy.\<close>

definition terminal_wasm :: "console \<Rightarrow> string" where
  "terminal_wasm s = (case (inputMode s, customWasmB64 s) of
       (ModeEditor, Some (c # cs)) \<Rightarrow> c # cs
     | _ \<Rightarrow> demoWasmB64 (DEMOS (selectedDemo s)))"

definition terminal_props :: "console \<Rightarrow> bool \<times> string option \<times> string option" where
  "terminal_props s = (sandboxState s = SRunning, sessionId s, Some (terminal_wasm s))"

datatype WelcomePane =
    WpComplete
  | WpNonzero json
  | WpCrashed
  | WpRunning
  | WpIdle

definition welcome_pane :: "SandboxState \<Rightarrow> json \<Rightarrow> WelcomePane" where
  "welcome_pane st code =
     (if st = SComplete then WpComplete
      else if st = SNonzero then WpNonzero code
      else if st = SCrashed then WpCrashed
      else if st = SRunning then WpRunning
      else WpIdle)"

text \<open>Whether a pane offers the Run button, and whether the text sends the user to Reconnect.\<close>

definition pane_offers_run :: "WelcomePane \<Rightarrow> bool" where
  "pane_offers_run p = (case p of WpComplete \<Rightarrow> True | WpNonzero c \<Rightarrow> True | WpIdle \<Rightarrow> True | WpCrashed \<Rightarrow> False | WpRunning \<Rightarrow> False)"

datatype MainPane =
    PaneRegistry string "string option" "string option" "string option"
  | PaneEditor bool
  | PaneWelcome WelcomePane

definition main_pane :: "console \<Rightarrow> MainPane" where
  "main_pane s =
     (if activeTab s = TabPreview \<and> previewFile s \<noteq> None \<and> previewFile s \<noteq> Some []
      then PaneRegistry (the (previewFile s)) (sessionId s) (inlineFileContent s) (inlineFileB64 s)
      else if inputMode s = ModeEditor then PaneEditor (sandboxState s = SRunning)
      else PaneWelcome (welcome_pane (sandboxState s) (lastExitCode s)))"

definition session_tooltip :: "console \<Rightarrow> string" where
  "session_tooltip s = (case sandboxState s of
       SRunning \<Rightarrow> ''Session active '' @ em_dash @ '' connected to sandbox''
     | SCrashed \<Rightarrow> ''Session crashed '' @ em_dash @ '' reconnect or reset''
     | SNonzero \<Rightarrow> ''Session ended '' @ em_dash @ '' non-zero exit (code '' @ js_string (lastExitCode s) @ '')''
     | _ \<Rightarrow> ''Session ended'')"

definition session_dot :: "SandboxState \<Rightarrow> string" where
  "session_dot st = (if st = SRunning then ''ok''
     else if st = SCrashed \<or> st = SNonzero then ''danger'' else ''text-muted'')"

section \<open>Status bar\<close>

record StateConfig =
  cfgLabel :: string
  cfgTip :: string
  cfgShortcuts :: "(string \<times> string) list"

definition cmd_enter :: string where "cmd_enter = [CHR 0xE2, CHR 0x8C, CHR 0x98, CHR 0xE2, CHR 0x86, CHR 0xB5]"
definition cmd_shift_R :: string where
  "cmd_shift_R = [CHR 0xE2, CHR 0x8C, CHR 0x98, CHR 0xE2, CHR 0x87, CHR 0xA7, CHR ''R'']"

fun STATE_CONFIG :: "SandboxState \<Rightarrow> StateConfig" where
  "STATE_CONFIG SIdle = \<lparr>cfgLabel = ''Ready'',
     cfgTip = ''Select a WASM module from the file tree, then start a session.'',
     cfgShortcuts = [(cmd_enter, ''Run''), (''?'', ''Help'')]\<rparr>"
| "STATE_CONFIG SRunning = \<lparr>cfgLabel = ''Executing'',
     cfgTip = ''Sandbox is live. Output streams to the terminal '' @ em_dash @ '' type to send stdin.'',
     cfgShortcuts = [(''Esc'', ''Stop''), (cmd_shift_R, ''Reset'')]\<rparr>"
| "STATE_CONFIG SCrashed = \<lparr>cfgLabel = ''Crashed'',
     cfgTip = ''Terminal renderer crashed. Click \"Reconnect\" in the terminal pane to restart.'',
     cfgShortcuts = [(cmd_shift_R, ''Reset''), (''?'', ''Help'')]\<rparr>"
| "STATE_CONFIG SComplete = \<lparr>cfgLabel = ''Complete'',
     cfgTip = ''Execution finished. Click files in the tree to inspect outputs.'',
     cfgShortcuts = [(cmd_shift_R, ''Reset''), (cmd_enter, ''Run again'')]\<rparr>"
| "STATE_CONFIG SNonzero = \<lparr>cfgLabel = ''Non-zero exit'',
     cfgTip = ''Process exited with a non-zero code. Check the terminal for error output.'',
     cfgShortcuts = [(cmd_shift_R, ''Reset''), (cmd_enter, ''Run again'')]\<rparr>"

section \<open>Properties\<close>

lemmas handler_defs = handleRun_def handleCompiled_def handleStop_def handleReset_def handleCrash_def
  handleReconnect_def onEnd_def keyboard_def vitals_shown_def

lemma new_session_id_not_Nil [simp]: "new_session_id now \<noteq> []"
  by (simp add: new_session_id_def)

lemma new_session_id_inj: "new_session_id a = new_session_id b \<Longrightarrow> a = b"
  unfolding new_session_id_def by (rule to_base_inj[of 36]) simp_all

text \<open>A running console has a session, and a preview tab has a file.\<close>

definition console_inv :: "console \<Rightarrow> bool" where
  "console_inv s \<longleftrightarrow> (sandboxState s = SRunning \<longrightarrow> showVitals s \<and> (\<exists>now. sessionId s = Some (new_session_id now))) \<and>
     (\<forall>sid. sessionId s = Some sid \<longrightarrow> (\<exists>now. sid = new_session_id now)) \<and>
     (activeTab s = TabPreview \<longrightarrow> previewFile s \<noteq> None) \<and>
     inlineVfsEntries s = map snapshot_entry (inlineVfsSnapshot s) \<and>
     (inlineFileContent s = None \<or> inlineFileB64 s = None)"

lemma console_inv_init: "console_inv console_init"
  by (simp add: console_inv_def console_init_def)

lemma handleFileSelect_inv: "console_inv s \<Longrightarrow> console_inv (handleFileSelect path s)"
  by (auto simp: console_inv_def handleFileSelect_def Let_def split: option.split list.split)

lemma onEnd_inv: "console_inv s \<Longrightarrow> console_inv (onEnd c snap code s)"
  by (auto simp: console_inv_def onEnd_def Let_def split: option.split list.split)

lemma vitals_shown_inv:
  "console_inv s \<or> console_inv (s\<lparr>showVitals := True\<rparr>) \<Longrightarrow> console_inv (vitals_shown s)"
  by (auto simp: console_inv_def vitals_shown_def)

lemma handleRun_inv: "console_inv s \<Longrightarrow> console_inv (vitals_shown (handleRun now s))"
  by (auto simp: console_inv_def handleRun_def vitals_shown_def)

lemma console_inv_simple:
  "console_inv s \<Longrightarrow> console_inv (handleStop s)" "console_inv s \<Longrightarrow> console_inv (handleReset s)"
  "console_inv s \<Longrightarrow> console_inv (s\<lparr>activeTab := TabTerminal\<rparr>)" "console_inv s \<Longrightarrow> console_inv (s\<lparr>helpOpen := b\<rparr>)"
  "console_inv s \<Longrightarrow> previewFile s \<noteq> None \<Longrightarrow> console_inv (s\<lparr>activeTab := TabPreview\<rparr>)"
  "console_inv s \<Longrightarrow> console_inv (s\<lparr>inputMode := m\<rparr>)" "console_inv s \<Longrightarrow> console_inv (s\<lparr>selectedDemo := d\<rparr>)"
  "console_inv s \<Longrightarrow> console_inv (handleCrash s)" "console_inv s \<Longrightarrow> console_inv (handleReconnect s)"
  by (auto simp: console_inv_def handler_defs)

definition shown_inv :: "console \<Rightarrow> bool" where
  "shown_inv s \<longleftrightarrow> console_inv (vitals_shown s)"

lemma shown_inv_if: "(P \<Longrightarrow> shown_inv a) \<Longrightarrow> (\<not> P \<Longrightarrow> shown_inv b) \<Longrightarrow> shown_inv (if P then a else b)"
  by simp

lemma shown_invI: "console_inv s \<Longrightarrow> shown_inv s"
  by (simp add: shown_inv_def vitals_shown_inv)

lemma keyboard_inv:
  assumes "console_inv s"
  shows "shown_inv (keyboard isMac now e s)"
proof -
  have "shown_inv (handleRun now s)" using assms by (simp add: shown_inv_def handleRun_inv)
  then show ?thesis unfolding keyboard_def Let_def
    by (intro shown_inv_if) (auto intro!: shown_invI console_inv_simple assms)
qed

lemma console_inv_step: "console_inv s \<Longrightarrow> console_inv (console_step isMac s e)"
proof (cases e)
  case (ClickTab t)
  assume "console_inv s"
  with ClickTab show ?thesis
    by (cases t) (auto simp: console_step_def intro!: vitals_shown_inv console_inv_simple)
next
  case (Compiled now w)
  assume "console_inv s"
  with Compiled show ?thesis by (auto simp: console_step_def console_inv_def handleCompiled_def vitals_shown_def)
next
  case (Key now k)
  assume "console_inv s"
  with Key show ?thesis using keyboard_inv[of s isMac now k] by (simp add: console_step_def shown_inv_def)
qed (auto simp: console_step_def handleRun_inv handleFileSelect_inv onEnd_inv
       intro!: vitals_shown_inv console_inv_simple)

interpretation console_machine: started_machine "console_step isMac" console_inv console_init for isMac
  by unfold_locales (rule console_inv_step, assumption, rule console_inv_init)

text \<open>C23: In every reachable state of the console: a running session has an id made from a time stamp and
  the vitals panel is open; the preview tab is active only with a file chosen; the inline entries of the
  file tree are exactly the files of the stored snapshot; and a preview never has both a text and a
  binary inline content.\<close>

theorem console_reachable_inv:
  "case foldl (console_step isMac) console_init es of s \<Rightarrow>
     (sandboxState s = SRunning \<longrightarrow> showVitals s \<and> (\<exists>now. sessionId s = Some (new_session_id now))) \<and>
     (activeTab s = TabPreview \<longrightarrow> previewFile s \<noteq> None) \<and>
     inlineVfsEntries s = map snapshot_entry (inlineVfsSnapshot s) \<and>
     (inlineFileContent s = None \<or> inlineFileB64 s = None)"
proof -
  have "console_inv (foldl (console_step isMac) console_init es)" by (rule console_machine.reachable_inv)
  then show ?thesis by (simp add: console_inv_def)
qed

theorem console_reachable_inv_witness:
  "showVitals (foldl (console_step True) console_init [ClickRun 1700000000000])"
proof -
  have "sandboxState (foldl (console_step True) console_init [ClickRun 1700000000000]) = SRunning"
    by (simp add: console_step_def handler_defs console_init_def)
  with console_reachable_inv[where isMac = True and es = "[ClickRun 1700000000000]"] show ?thesis by simp
qed

text \<open>Session ids made at different milliseconds differ, and an id needs no escaping in a URL.\<close>

theorem session_ids_distinct:
  "(new_session_id a = new_session_id b \<longleftrightarrow> a = b) \<and>
   encodeURIComponent (new_session_id a) = new_session_id a"
proof -
  have "uri_unreserved c" if "c \<in> set (new_session_id a)" for c
  proof -
    have "list_all uri_unreserved ''sess_''" by code_simp
    then have "c \<in> set ''sess_'' \<Longrightarrow> uri_unreserved c" by (simp only: list_all_iff)
    moreover have "c \<in> set (to_base 36 a) \<Longrightarrow> uri_unreserved c" by (rule to_base_unreserved) simp_all
    ultimately show ?thesis using that by (simp only: new_session_id_def set_append Un_iff) blast
  qed
  then have "encodeURIComponent (new_session_id a) = new_session_id a" by (rule encodeURIComponent_unreserved)
  with new_session_id_inj show ?thesis by blast
qed

text \<open>The size the file tree shows for a file of the snapshot, estimated from the length of its base64
  text, is the true size or at most two bytes more.\<close>

theorem snapshot_size_estimate:
  "\<exists>n. entrySize (snapshot_entry (path, btoa bs)) = Some n \<and> length bs \<le> n \<and> n \<le> length bs + 2"
proof -
  let ?k = "(length bs + 2) div 3"
  have "round_div (3 * length (btoa bs)) 4 = 3 * ?k"
    by (simp add: length_btoa round_div_def)
  then show ?thesis by (simp add: snapshot_entry_def)
qed

text \<open>In editor mode, before any successful compilation, the Run shortcut of the console starts a
  session that executes the selected demo, although the toolbar says it compiles and runs the editor's
  program.\<close>

theorem editor_shortcut_runs_demo:
  assumes "sandboxState s \<noteq> SRunning" "inputMode s = ModeEditor" "customWasmB64 s = None"
    "evKey e = ''Enter''" "evCtrl e" "\<not> evShift e"
  shows "terminal_props (console_step False s (Key now e))
    = (True, Some (new_session_id now), Some (demoWasmB64 (DEMOS (selectedDemo s))))"
  using assms by (simp add: console_step_def handler_defs Let_def terminal_props_def terminal_wasm_def)

theorem editor_shortcut_runs_demo_witness:
  "terminal_props (console_step False (console_init\<lparr>inputMode := ModeEditor\<rparr>)
     (Key 5 \<lparr>evKey = ''Enter'', evMeta = False, evCtrl = True, evShift = False, evInText = True\<rparr>))
   = (True, Some (new_session_id 5), Some (demoWasmB64 (DEMOS hello_demo)))"
proof -
  let ?s = "console_init\<lparr>inputMode := ModeEditor\<rparr>"
    and ?e = "\<lparr>evKey = ''Enter'', evMeta = False, evCtrl = True, evShift = False, evInText = True\<rparr>"
  have "sandboxState ?s \<noteq> SRunning" "inputMode ?s = ModeEditor" "customWasmB64 ?s = None"
    "evKey ?e = ''Enter''" "evCtrl ?e" "\<not> evShift ?e" "selectedDemo ?s = hello_demo"
    by (simp_all add: console_init_def)
  with editor_shortcut_runs_demo[of ?s ?e 5] show ?thesis by simp
qed

text \<open>Starting another session keeps the files of the previous one: with a snapshot stored, the file
  tree of the new session goes on showing the old entries, whatever the server lists, until a new
  snapshot or a reset replaces them.\<close>

theorem run_keeps_old_files:
  assumes "inlineVfsEntries s = f # fs"
  shows "displayEntries (Some (inlineVfsEntries (console_step isMac s (ClickRun now)))) st = f # fs \<and>
    inlineVfsEntries (console_step isMac s ClickReset) = []"
  using assms by (simp add: displayEntries_def console_step_def handler_defs)

theorem run_keeps_old_files_witness:
  "displayEntries (Some (inlineVfsEntries (console_step True
     (onEnd True (Some [(''/out.txt'', ''aGk='')]) (Some (JNum 0)) console_init) (ClickRun 7)))) initial_tree
   = [\<lparr>entryPath = ''/out.txt'', entrySize = Some 3, entryGhost = None\<rparr>]"
proof -
  have "inlineVfsEntries (onEnd True (Some [(''/out.txt'', ''aGk='')]) (Some (JNum 0)) console_init)
      = [\<lparr>entryPath = ''/out.txt'', entrySize = Some 3, entryGhost = None\<rparr>]"
    by (simp add: onEnd_def snapshot_entry_def round_div_def)
  from run_keeps_old_files[OF this] show ?thesis by blast
qed

end
