(* ===== verification/Registry.thy ===== *)
theory Registry
  imports Encoding
begin

text \<open>
  \<open>frontend/components/ComponentRegistry.tsx\<close>, the routing part: which previewer a file gets, how its
  content is fetched, and which pane is on display. The previewers themselves are in \<open>Previewers\<close>.

  A run of the effect that needs content starts a request. Requests are not cancelled, so the state
  keeps the ones in flight; a response is an event that names its request.
\<close>

section \<open>Routing\<close>

datatype FileKind = KCsv | KJson | KWasm | KLog | KMd | KImage | KRaw

definition detectKind :: "string \<Rightarrow> FileKind" where
  "detectKind path =
     (let ext = file_ext path in
      if ext = ''csv'' then KCsv
      else if ext \<in> set [''json'', ''plot''] then KJson
      else if ext = ''wasm'' then KWasm
      else if ext = ''md'' then KMd
      else if ext \<in> set [''log'', ''txt''] then KLog
      else if ext \<in> set [''png'', ''jpg'', ''jpeg'', ''gif'', ''svg'', ''webp''] then KImage
      else KRaw)"

definition file_url :: "string \<Rightarrow> string \<Rightarrow> string" where
  "file_url sessionId path =
     ''/api/v1/vfs/'' @ encodeURIComponent sessionId @ ''/file?path='' @ encodeURIComponent path"

text \<open>What the error pane reports: \<open>No active session\<close>, the status of the response, or the text of
  the error that fetching or reading the body threw.\<close>

datatype load_error = NoSession | HttpStatus nat | Thrown js_error | BodyThrew

text \<open>The content as the registry keeps it: text, or the placeholder for an array buffer.\<close>

fun fetchFileContent :: "string \<Rightarrow> string http \<Rightarrow> load_error + string" where
  "fetchFileContent path (FetchThrows err) = Inl (Thrown err)"
| "fetchFileContent path (Response status body) =
     (if \<not> res_ok status then Inl (HttpStatus status)
      else case body of
        None \<Rightarrow> Inl BodyThrew
      | Some text \<Rightarrow> Inr (if detectKind path = KWasm then ''[binary data]'' else text))"

datatype FetchState = FsIdle | FsLoading | FsError load_error | FsOk string

record reg_props =
  rpPath :: string
  rpSession :: "string option"
  rpContent :: "string option"
  rpB64 :: "string option"

record registry =
  regProps :: reg_props
  fetchState :: FetchState
  requests :: "(string \<times> string) list"

definition needsFetch :: "reg_props \<Rightarrow> bool" where
  "needsFetch p \<longleftrightarrow> detectKind (rpPath p) \<noteq> KImage \<and> rpContent p = None \<and> rpB64 p = None"

text \<open>The effect: the state goes idle, then \<open>load\<close> runs up to its first await.\<close>

definition reg_effect :: "registry \<Rightarrow> registry" where
  "reg_effect s =
     (let s1 = s\<lparr>fetchState := FsIdle\<rparr>; p = regProps s in
      if \<not> needsFetch p then s1
      else case rpSession p of
        Some (c # cs) \<Rightarrow> s1\<lparr>fetchState := FsLoading, requests := requests s1 @ [(c # cs, rpPath p)]\<rparr>
      | _ \<Rightarrow> s1\<lparr>fetchState := FsError NoSession\<rparr>)"

definition reg_mount :: "reg_props \<Rightarrow> registry" where
  "reg_mount p = reg_effect \<lparr>regProps = p, fetchState = FsIdle, requests = []\<rparr>"

text \<open>New props: the effect runs again if \<open>load\<close> is a new function, that is, if one of its
  dependencies changed.\<close>

definition reg_rerender :: "reg_props \<Rightarrow> registry \<Rightarrow> registry" where
  "reg_rerender p s =
     (let old = regProps s; s1 = s\<lparr>regProps := p\<rparr> in
      if needsFetch old = needsFetch p \<and> rpSession old = rpSession p \<and> rpPath old = rpPath p
      then s1 else reg_effect s1)"

text \<open>The rest of \<open>load\<close> for the \<open>i\<close>-th request.\<close>

definition reg_response :: "nat \<Rightarrow> string http \<Rightarrow> registry \<Rightarrow> registry" where
  "reg_response i response s =
     (if i < length (requests s) then
        s\<lparr>fetchState := (case fetchFileContent (snd (requests s ! i)) response of
            Inl message \<Rightarrow> FsError message
          | Inr raw \<Rightarrow> FsOk raw)\<rparr>
      else s)"

section \<open>Panes\<close>

definition MIME_FOR_EXT :: "(string \<times> string) list" where
  "MIME_FOR_EXT =
     [(''svg'', ''image/svg+xml''), (''png'', ''image/png''), (''jpg'', ''image/jpeg''),
      (''jpeg'', ''image/jpeg''), (''gif'', ''image/gif''), (''webp'', ''image/webp'')]"

definition image_src :: "string \<Rightarrow> string option \<Rightarrow> string option \<Rightarrow> string" where
  "image_src path sessionId inlineB64 =
     (let mime = (case map_of MIME_FOR_EXT (file_ext path) of None \<Rightarrow> ''image/png'' | Some m \<Rightarrow> m) in
      case inlineB64 of
        Some (c # cs) \<Rightarrow> ''data:'' @ mime @ '';base64,'' @ (c # cs)
      | _ \<Rightarrow> (case sessionId of
          Some (d # ds) \<Rightarrow> ''/api/v1/vfs/'' @ (d # ds) @ ''/file?path='' @ encodeURIComponent path
        | _ \<Rightarrow> []))"

definition base_name :: "string \<Rightarrow> string" where
  "base_name path = after_last (CHR ''/'') path"

datatype RegistryPane =
    ImagePane string string
  | GridPane string
  | ChartPane string
  | WasmPane string
  | MarkdownPane string string
  | LogPane string
  | RawPane string
  | LoadingPane
  | ErrorPane load_error

definition ComponentRegistry :: "registry \<Rightarrow> RegistryPane" where
  "ComponentRegistry s =
     (let p = regProps s; kind = detectKind (rpPath p); title = base_name (rpPath p) in
      if kind = KImage then ImagePane title (image_src (rpPath p) (rpSession p) (rpB64 p))
      else case rpContent p of
        Some content \<Rightarrow>
          (case kind of
             KCsv \<Rightarrow> GridPane content
           | KJson \<Rightarrow> ChartPane content
           | KMd \<Rightarrow> MarkdownPane title content
           | KLog \<Rightarrow> LogPane content
           | _ \<Rightarrow> RawPane content)
      | None \<Rightarrow>
          (case fetchState s of
             FsIdle \<Rightarrow> LoadingPane
           | FsLoading \<Rightarrow> LoadingPane
           | FsError message \<Rightarrow> ErrorPane message
           | FsOk raw \<Rightarrow>
               (case kind of
                  KCsv \<Rightarrow> GridPane raw
                | KJson \<Rightarrow> ChartPane raw
                | KWasm \<Rightarrow> WasmPane raw
                | KMd \<Rightarrow> MarkdownPane title raw
                | KLog \<Rightarrow> LogPane raw
                | _ \<Rightarrow> RawPane raw)))"

section \<open>Properties\<close>

definition pane_for :: "string \<Rightarrow> string \<Rightarrow> RegistryPane" where
  "pane_for path raw = (case detectKind path of
       KCsv \<Rightarrow> GridPane raw
     | KJson \<Rightarrow> ChartPane raw
     | KWasm \<Rightarrow> WasmPane raw
     | KMd \<Rightarrow> MarkdownPane (base_name path) raw
     | KLog \<Rightarrow> LogPane raw
     | _ \<Rightarrow> RawPane raw)"

lemma file_ext_of: "CHR ''.'' \<notin> set e \<Longrightarrow> file_ext (p @ CHR ''.'' # e) = to_lower e"
  by (simp add: file_ext_def)

text \<open>A file fetched for the preview is shown by the previewer of its extension: after opening a
  file without inline content in a session, its pane is the loading pane until the response comes, and
  then the pane of its kind with the content of the response (a WebAssembly file's bytes are replaced
  by a placeholder text, which the inspector cannot parse).\<close>

theorem registry_fetch_shows_content:
  assumes "needsFetch p" "rpSession p = Some sid" "sid \<noteq> []" "res_ok st"
  shows "ComponentRegistry (reg_mount p) = LoadingPane \<and>
    requests (reg_mount p) = [(sid, rpPath p)] \<and>
    ComponentRegistry (reg_response 0 (Response st (Some text)) (reg_mount p))
      = pane_for (rpPath p) (if detectKind (rpPath p) = KWasm then ''[binary data]'' else text)"
proof -
  obtain c cs where sid: "sid = c # cs" using assms(3) by (cases sid) auto
  have k: "detectKind (rpPath p) \<noteq> KImage" "rpContent p = None" using assms(1) by (simp_all add: needsFetch_def)
  show ?thesis
    using assms k by (cases "detectKind (rpPath p)")
      (simp_all add: reg_mount_def reg_effect_def Let_def sid ComponentRegistry_def reg_response_def pane_for_def)
qed

theorem registry_fetch_shows_content_witness:
  "ComponentRegistry (reg_response 0 (Response 200 (Some ''a,b''))
     (reg_mount \<lparr>rpPath = ''/out/t.CSV'', rpSession = Some ''s1'', rpContent = None, rpB64 = None\<rparr>))
   = GridPane ''a,b''"
proof -
  let ?p = "\<lparr>rpPath = ''/out/t.CSV'', rpSession = Some ''s1'', rpContent = None, rpB64 = None\<rparr>"
  have k: "detectKind ''/out/t.CSV'' = KCsv" by code_simp
  then have "needsFetch ?p" by (simp add: needsFetch_def)
  from registry_fetch_shows_content[OF this, of "''s1''" 200 "''a,b''"] k show ?thesis
    by (simp add: pane_for_def res_ok_def)
qed

text \<open>Requests are not cancelled when another file is opened: if the response for the first file comes
  last, the pane of the second file shows the first file's content, without any mark.\<close>

theorem registry_late_response_wins:
  assumes "needsFetch p" "needsFetch q" "rpSession p = Some sid" "rpSession q = Some sid" "sid \<noteq> []"
    "rpPath p \<noteq> rpPath q" "detectKind (rpPath p) = KLog" "detectKind (rpPath q) = KLog" "res_ok st"
  shows "ComponentRegistry (reg_response 0 (Response st (Some a))
    (reg_response 1 (Response st (Some b)) (reg_rerender q (reg_mount p)))) = LogPane a"
proof -
  obtain c cs where sid: "sid = c # cs" using assms(5) by (cases sid) auto
  have "rpContent p = None" "rpContent q = None" using assms(1,2) by (simp_all add: needsFetch_def)
  with assms sid show ?thesis
    by (simp add: reg_mount_def reg_effect_def reg_rerender_def reg_response_def ComponentRegistry_def Let_def)
qed

theorem registry_late_response_wins_witness:
  "ComponentRegistry (reg_response 0 (Response 200 (Some ''first'')) (reg_response 1 (Response 200 (Some ''second''))
     (reg_rerender \<lparr>rpPath = ''/b.log'', rpSession = Some ''s'', rpContent = None, rpB64 = None\<rparr>
       (reg_mount \<lparr>rpPath = ''/a.log'', rpSession = Some ''s'', rpContent = None, rpB64 = None\<rparr>))))
   = LogPane ''first''"
proof -
  have k: "detectKind ''/a.log'' = KLog" "detectKind ''/b.log'' = KLog" by code_simp+
  show ?thesis
    by (rule registry_late_response_wins[where sid = "''s''"]) (simp_all add: needsFetch_def k res_ok_def)
qed

end
