(* ===== verification/Editor.thy ===== *)
theory Editor
  imports Json Machine
begin

text \<open>
  \<open>frontend/components/CodeEditor.tsx\<close>: the source text, the compile request and its outcome, and what
  the toolbar and the panels show.

  A compilation runs across an await: \<open>compile_start\<close> is the part before it, \<open>compile_done\<close> the part
  after it. The response is an event; calls of the prop \<open>onCompiled\<close> are recorded in \<open>handed\<close>.
\<close>

section \<open>State\<close>

definition DEFAULT_SOURCE :: string where
  "DEFAULT_SOURCE = join [CHR 0x0A]
     [''fn main() {'',
      ''    println!('' @ [CHR 0x22] @ ''Hello from my custom WASM agent!'' @ [CHR 0x22] @ '');'',
      [],
      ''    // Write a file to the sandbox VFS'',
      ''    let data = r#'' @ [CHR 0x22] @ ''{'' @ [CHR 0x22] @ ''status'' @ [CHR 0x22] @ '': '' @ [CHR 0x22] @ ''complete''
        @ [CHR 0x22] @ '', '' @ [CHR 0x22] @ ''answer'' @ [CHR 0x22] @ '': 42}'' @ [CHR 0x22] @ ''#;'',
      ''    std::fs::create_dir_all('' @ [CHR 0x22] @ ''/workspace/output'' @ [CHR 0x22] @ '').unwrap();'',
      ''    std::fs::write('' @ [CHR 0x22] @ ''/workspace/output/result.json'' @ [CHR 0x22] @ '', data).unwrap();'',
      [],
      ''    println!('' @ [CHR 0x22] @ ''Wrote result.json to /workspace/output/'' @ [CHR 0x22] @ '');'',
      ''    println!('' @ [CHR 0x22] @ ''Agent finished successfully.'' @ [CHR 0x22] @ '');'',
      ''}'',
      []]"

datatype CompileState = CIdle | CCompiling | CSuccess | CError

text \<open>Fields of the response are kept as parsed: \<open>None\<close> is \<open>undefined\<close>.\<close>

record CompileResult =
  crWasmB64 :: "json option"
  crWasmBytes :: "json option"
  crCompileMs :: "json option"
  crWarnings :: json

datatype stderr_text = Stderr json | NetworkError

record CompileError =
  ceStderr :: stderr_text
  ceCompileMs :: json

record editor =
  edSource :: string
  compileState :: CompileState
  compileResult :: "CompileResult option"
  compileError :: "CompileError option"
  inFlight :: "string list"
  handed :: "json option list"

definition editor_init :: editor where
  "editor_init = \<lparr>edSource = DEFAULT_SOURCE, compileState = CIdle, compileResult = None, compileError = None,
     inFlight = [], handed = []\<rparr>"

section \<open>Operations\<close>

text \<open>Tab replaces the selection by four spaces; the second component is the caret position that the
  next frame sets.\<close>

definition handleKeyDown :: "string \<Rightarrow> nat \<Rightarrow> nat \<Rightarrow> editor \<Rightarrow> editor \<times> nat option" where
  "handleKeyDown key start fin s =
     (if key = ''Tab'' then
        (s\<lparr>edSource := take start (edSource s) @ ''    '' @ drop fin (edSource s)\<rparr>, Some (start + 4))
      else (s, None))"

definition compile_request :: "string \<Rightarrow> string" where
  "compile_request source = stringify (JObj [(''source'', JStr source), (''edition'', JStr ''2021'')])"

definition compile_start :: "bool \<Rightarrow> editor \<Rightarrow> editor" where
  "compile_start running s =
     (if running \<or> compileState s = CCompiling then s
      else s\<lparr>compileState := CCompiling, compileResult := None, compileError := None,
             inFlight := inFlight s @ [compile_request (edSource s)]\<rparr>)"

text \<open>\<open>body.k ?? d\<close>\<close>

definition field_or :: "string \<Rightarrow> json \<Rightarrow> json \<Rightarrow> json" where
  "field_or k d body = (case jfield k body of None \<Rightarrow> d | Some JNull \<Rightarrow> d | Some v \<Rightarrow> v)"

definition compile_failed :: "CompileError \<Rightarrow> editor \<Rightarrow> editor" where
  "compile_failed err s = s\<lparr>compileState := CError, compileError := Some err\<rparr>"

text \<open>After the await. A body that is not JSON, or is \<open>null\<close>, throws, and the catch clause reports a
  network error.\<close>

fun compile_done :: "json http \<Rightarrow> editor \<Rightarrow> editor" where
  "compile_done (FetchThrows e) s = compile_failed \<lparr>ceStderr = NetworkError, ceCompileMs = JNum 0\<rparr> s"
| "compile_done (Response status None) s = compile_failed \<lparr>ceStderr = NetworkError, ceCompileMs = JNum 0\<rparr> s"
| "compile_done (Response status (Some body)) s =
     (if \<not> res_ok status then
        (if body = JNull then compile_failed \<lparr>ceStderr = NetworkError, ceCompileMs = JNum 0\<rparr> s
         else compile_failed \<lparr>ceStderr = Stderr (field_or ''stderr''
                  (field_or ''error'' (JStr ''Unknown compilation error'') body) body),
                ceCompileMs = field_or ''compile_ms'' (JNum 0) body\<rparr> s)
      else if body = JNull then compile_failed \<lparr>ceStderr = NetworkError, ceCompileMs = JNum 0\<rparr> s
      else s\<lparr>compileState := CSuccess,
             compileResult := Some \<lparr>crWasmB64 = jfield ''wasm_b64'' body, crWasmBytes = jfield ''wasm_bytes'' body,
               crCompileMs = jfield ''compile_ms'' body, crWarnings = field_or ''warnings'' (JStr []) body\<rparr>,
             handed := handed s @ [jfield ''wasm_b64'' body]\<rparr>)"

definition editor_reset :: "editor \<Rightarrow> editor" where
  "editor_reset s = s\<lparr>edSource := DEFAULT_SOURCE, compileState := CIdle, compileResult := None, compileError := None\<rparr>"

definition on_change :: "string \<Rightarrow> editor \<Rightarrow> editor" where
  "on_change text s =
     (let s1 = s\<lparr>edSource := text\<rparr> in
      if compileState s \<noteq> CIdle \<and> compileState s \<noteq> CCompiling then s1\<lparr>compileState := CIdle\<rparr> else s1)"

text \<open>The window shortcut: either modifier, with or without shift.\<close>

definition editor_key :: "bool \<Rightarrow> string \<Rightarrow> bool \<Rightarrow> bool \<Rightarrow> editor \<Rightarrow> editor" where
  "editor_key running key meta ctrl s =
     (if (meta \<or> ctrl) \<and> key = ''Enter'' then compile_start running s else s)"

section \<open>What is shown\<close>

datatype EditorBadge = BadgeNone | BadgeCompiling | BadgeSuccess "json option" "json option" | BadgeFailed

definition editor_badge :: "editor \<Rightarrow> EditorBadge" where
  "editor_badge s = (case compileState s of
       CIdle \<Rightarrow> BadgeNone
     | CCompiling \<Rightarrow> BadgeCompiling
     | CSuccess \<Rightarrow> (case compileResult s of None \<Rightarrow> BadgeNone | Some r \<Rightarrow> BadgeSuccess (crWasmBytes r) (crCompileMs r))
     | CError \<Rightarrow> BadgeFailed)"

definition compile_button_disabled :: "bool \<Rightarrow> editor \<Rightarrow> bool" where
  "compile_button_disabled running s \<longleftrightarrow> running \<or> compileState s = CCompiling"

definition error_panel :: "editor \<Rightarrow> CompileError option" where
  "error_panel s = (if compileState s = CError then compileError s else None)"

definition warnings_panel :: "editor \<Rightarrow> json option" where
  "warnings_panel s =
     (if compileState s = CSuccess then
        (case compileResult s of None \<Rightarrow> None
         | Some r \<Rightarrow> if crWarnings r \<in> set [JStr [], JBool False, JNum 0] then None else Some (crWarnings r))
      else None)"

section \<open>Properties\<close>

datatype editor_event =
    EdTab string nat nat
  | EdCompile bool
  | EdResponse "json http"
  | EdReset
  | EdChange string

text \<open>Responses come only for requests in flight.\<close>

fun ed_step :: "editor \<times> nat \<Rightarrow> editor_event \<Rightarrow> editor \<times> nat" where
  "ed_step (s, open_reqs) (EdTab k a b) = (fst (handleKeyDown k a b s), open_reqs)"
| "ed_step (s, open_reqs) (EdCompile running) =
     (let s' = compile_start running s in (s', open_reqs + (length (inFlight s') - length (inFlight s))))"
| "ed_step (s, open_reqs) (EdResponse r) = (if open_reqs = 0 then (s, 0) else (compile_done r s, open_reqs - 1))"
| "ed_step (s, open_reqs) EdReset = (editor_reset s, open_reqs)"
| "ed_step (s, open_reqs) (EdChange t) = (on_change t s, open_reqs)"

text \<open>The compile request carries the source unchanged, whatever characters it has: parsing the body
  gives back the text of the editor and the edition.\<close>

theorem compile_request_roundtrip:
  "json_parse (compile_request src) = Some (JObj [(''source'', JStr src), (''edition'', JStr ''2021'')])"
  unfolding compile_request_def by (rule json_parse_stringify) simp

text \<open>\<open>compile_done\<close> ends in one of two states, and then the panels match it.\<close>

lemma compile_done_state: "compileState (compile_done r s) \<in> {CSuccess, CError}"
  by (cases "(r, s)" rule: compile_done.cases) (auto simp: compile_failed_def)

definition ed_inv :: "editor \<Rightarrow> bool" where
  "ed_inv s \<longleftrightarrow> (compileState s = CError \<longrightarrow> compileError s \<noteq> None) \<and>
     (compileState s = CSuccess \<longrightarrow> compileResult s \<noteq> None \<and> handed s \<noteq> [] \<and>
        crWasmB64 (the (compileResult s)) = last (handed s))"

lemma ed_inv_done: "ed_inv s \<Longrightarrow> ed_inv (compile_done r s)"
  by (cases "(r, s)" rule: compile_done.cases) (auto simp: compile_failed_def ed_inv_def)

lemma ed_inv_step: "ed_inv (fst c) \<Longrightarrow> ed_inv (fst (ed_step c e))"
  by (cases c; cases e)
     (auto simp: handleKeyDown_def compile_start_def editor_reset_def on_change_def Let_def ed_inv_done,
      auto simp: ed_inv_def)

interpretation editor_machine: started_machine ed_step "\<lambda>c. ed_inv (fst c)" "(editor_init, 0)"
  by unfold_locales (rule ed_inv_step, assumption, simp add: ed_inv_def editor_init_def)

text \<open>In every reachable state of the editor: the failure badge comes with the error panel's content,
  and the success badge with a result whose program is the one last handed to the console.\<close>

theorem editor_reachable_inv:
  "case fst (foldl ed_step (editor_init, 0) es) of s \<Rightarrow>
     (editor_badge s = BadgeFailed \<longleftrightarrow> error_panel s \<noteq> None) \<and>
     (compileState s = CSuccess \<longrightarrow> (\<exists>r. compileResult s = Some r \<and> handed s \<noteq> [] \<and> crWasmB64 r = last (handed s)))"
proof -
  have "ed_inv (fst (foldl ed_step (editor_init, 0) es))" by (rule editor_machine.reachable_inv)
  then show ?thesis
    by (auto simp: ed_inv_def editor_badge_def error_panel_def split: CompileState.splits option.splits)
qed

theorem editor_reachable_inv_witness:
  "\<exists>r. compileResult (fst (foldl ed_step (editor_init, 0)
     [EdCompile False, EdResponse (Response 200 (Some (JObj [(''wasm_b64'', JStr ''AGFz'')])))])) = Some r \<and>
     crWasmB64 r = Some (JStr ''AGFz'')"
proof -
  let ?es = "[EdCompile False, EdResponse (Response 200 (Some (JObj [(''wasm_b64'', JStr ''AGFz'')])))]"
  have "compileState (fst (foldl ed_step (editor_init, 0) ?es)) = CSuccess"
    and "handed (fst (foldl ed_step (editor_init, 0) ?es)) = [Some (JStr ''AGFz'')]" by code_simp+
  with editor_reachable_inv[where es = ?es] show ?thesis by auto
qed

text \<open>A reset during a compilation does not cancel it: the response of the old source still arrives,
  marks the reset editor as compiled and hands the old program to the console to be run.\<close>

theorem editor_reset_does_not_cancel:
  assumes "compileState s \<noteq> CCompiling" "res_ok st" "body \<noteq> JNull"
    "s' = foldl ed_step (s, 0) [EdCompile False, EdReset, EdResponse (Response st (Some body))]"
  shows "edSource (fst s') = DEFAULT_SOURCE \<and> compileState (fst s') = CSuccess \<and>
    handed (fst s') = handed s @ [jfield ''wasm_b64'' body] \<and>
    inFlight (fst s') = inFlight s @ [compile_request (edSource s)]"
  using assms(1-3) by (simp add: assms(4) compile_start_def editor_reset_def Let_def)

theorem editor_reset_does_not_cancel_witness:
  "handed (fst (foldl ed_step (editor_init, 0)
     [EdCompile False, EdReset, EdResponse (Response 200 (Some (JObj [(''wasm_b64'', JStr ''AGFz'')])))]))
   = [Some (JStr ''AGFz'')]"
  using editor_reset_does_not_cancel[OF _ _ _ refl, of editor_init 200 "JObj [(''wasm_b64'', JStr ''AGFz'')]"]
  by (simp add: editor_init_def res_ok_def)

end
