(* ===== verification/System.thy ===== *)
theory System
  imports Console Registry Editor
begin

text \<open>
  The console page and its terminal together. \<open>ExecutionConsole.tsx\<close> renders \<open>Terminal\<close> with the props
  \<open>running\<close>, \<open>sessionId\<close> and \<open>wasmB64\<close>; when one of them changes, the terminal's socket effect is
  cleaned up and runs again. In the other direction the terminal calls \<open>onEnd\<close>, which updates the
  console and so may change the props. A step of the system is one event of either side followed by
  that exchange. The terminal stays mounted; \<open>App\<close> adds the boundary that replaces it after a crash.
\<close>

record system =
  con :: console
  trm :: terminal

definition sys_init :: system where
  "sys_init = \<lparr>con = console_init, trm = terminal_init\<rparr>"

datatype sys_event = UI ui_event | TE term_event

text \<open>A call of \<open>onEnd\<close> as an event of the console. The snapshot is the object of base64 strings that
  the orchestrator sends, as the program declares it; an object with other values is taken as no snapshot.\<close>

definition end_event :: "end_outcome \<Rightarrow> ui_event" where
  "end_event outcome = (case outcome of
       EndError \<Rightarrow> SessionEnded False None None
     | EndComplete snap code \<Rightarrow> SessionEnded True (Option.bind snap snapshot_files) (Some code))"

fun props_event :: "bool \<times> string option \<times> string option \<Rightarrow> term_event" where
  "props_event (running, sid, wasm) = PropsChanged running sid wasm"

definition sync :: "page \<Rightarrow> console \<Rightarrow> console \<Rightarrow> terminal \<Rightarrow> system" where
  "sync pg old c t = \<lparr>con = c, trm = (if terminal_props c = terminal_props old then t
     else term_step pg t (props_event (terminal_props c)))\<rparr>"

fun internal :: "ui_event \<Rightarrow> bool" where
  "internal (SessionEnded a b c) \<longleftrightarrow> True"
| "internal _ \<longleftrightarrow> False"

definition outside :: "term_event \<Rightarrow> bool" where
  "outside e \<longleftrightarrow> \<not> is_props e \<and> e \<noteq> TermUnmount"

definition new_ends :: "terminal \<Rightarrow> terminal \<Rightarrow> end_outcome list" where
  "new_ends t t' = map snd (drop (length (ended t)) (ended t'))"

fun sys_step :: "page \<Rightarrow> bool \<Rightarrow> system \<Rightarrow> sys_event \<Rightarrow> system" where
  "sys_step pg isMac s (UI e) =
     (if internal e then s else sync pg (con s) (console_step isMac (con s) e) (trm s))"
| "sys_step pg isMac s (TE e) =
     (if outside e then
        (let t = term_step pg (trm s) e;
             c = foldl (console_step isMac) (con s) (map end_event (new_ends (trm s) t))
         in sync pg (con s) c t)
      else s)"

section \<open>The two sides agree\<close>

definition linked :: "console \<Rightarrow> terminal \<Rightarrow> bool" where
  "linked c t \<longleftrightarrow> (if sandboxState c = SRunning
     then (\<exists>i. wsEffect t = Some i \<and> Some (sockSession (sockets t ! i)) = sessionId c \<and>
             sockPayload (sockets t ! i) = Some (terminal_wasm c))
     else wsEffect t = None)"

definition sys_inv :: "system \<Rightarrow> bool" where
  "sys_inv s \<longleftrightarrow> console_inv (con s) \<and> term_inv (trm s) \<and> linked (con s) (trm s)"

lemma linked_props: "terminal_props c = terminal_props c' \<Longrightarrow> linked c t = linked c' t"
  by (simp add: linked_def terminal_props_def)

lemma ws_cleanup_effect: "wsEffect (ws_cleanup t) = None"
  by (simp add: ws_cleanup_def Let_def split: option.split)

lemma linked_props_event:
  assumes "console_inv c"
  shows "linked c (term_step pg t (props_event (terminal_props c)))"
proof (cases "sandboxState c = SRunning")
  case True
  with assms obtain now where "sessionId c = Some (new_session_id now)" by (auto simp: console_inv_def)
  moreover obtain x xs where "new_session_id now = x # xs" by (cases "new_session_id now") auto
  ultimately show ?thesis using True
    by (simp add: linked_def terminal_props_def ws_effect_def Let_def nth_append)
next
  case False
  then show ?thesis
    by (simp add: linked_def terminal_props_def ws_effect_def ws_cleanup_effect split: option.split list.split)
qed

lemma sync_inv:
  assumes "console_inv c" "term_inv t" "linked old t"
  shows "sys_inv (sync pg old c t)"
proof (cases "terminal_props c = terminal_props old")
  case True
  with assms show ?thesis by (simp add: sync_def sys_inv_def linked_props[of c old])
next
  case False
  with assms(1,2) linked_props_event[OF assms(1), of pg t] show ?thesis
    by (simp add: sync_def sys_inv_def term_inv_step del: term_step.simps)
qed

lemma list_update_fields:
  assumes "\<And>w. sockSession (f w) = sockSession w" "\<And>w. sockPayload (f w) = sockPayload w"
  shows "map sockSession (xs[i := f (xs ! i)]) = map sockSession xs"
    "map sockPayload (xs[i := f (xs ! i)]) = map sockPayload xs"
  by (cases "i < length xs"; auto simp: map_update assms list_update_beyond intro!: nth_equalityI; simp add: nth_list_update)+

text \<open>Nothing but new props changes which run of the effect is current and what its socket captured.\<close>

definition same_socks :: "terminal \<Rightarrow> terminal \<Rightarrow> bool" where
  "same_socks t t' \<longleftrightarrow> wsEffect t' = wsEffect t \<and> map sockSession (sockets t') = map sockSession (sockets t) \<and>
     map sockPayload (sockets t') = map sockPayload (sockets t)"

lemma same_socks_refl [simp]: "same_socks t t"
  by (simp add: same_socks_def)

lemma same_socks_trans: "same_socks t u \<Longrightarrow> same_socks u v \<Longrightarrow> same_socks t v"
  by (simp add: same_socks_def)

lemma same_socks_sock_upd:
  assumes "\<And>w. sockSession (f w) = sockSession w" "\<And>w. sockPayload (f w) = sockPayload w"
  shows "same_socks t (sock_upd i f t)"
  by (simp add: same_socks_def list_update_fields[OF assms])

lemma same_socks_ops:
  "same_socks t (writeln l t)" "same_socks t (exit_frame m t)" "same_socks t (enqueue d t)"
  "same_socks t (animation_frame i t)" "same_socks t (ws_onerror t)" "same_socks t (ws_onclose i c r t)"
  "same_socks t (xterm_loaded cls t)" "same_socks t (xterm_first_fit t)" "same_socks t (theme_observer cls t)"
  by (simp_all add: same_socks_def animation_frame_def ws_onerror_def ws_onclose_def on_end_def xterm_loaded_def
      xterm_first_fit_def theme_observer_def Let_def split: list.split)

lemma same_socks_send: "sock_send i d t = Some t' \<Longrightarrow> same_socks t t'"
  by (auto simp: sock_send_def split: readyState.splits intro: same_socks_sock_upd)

lemma same_socks_onopen: "same_socks t (ws_onopen i t)"
proof -
  have "same_socks t (writeln l t')" if "sock_send i d (writeln l' t) = Some t'" for d l l' t'
    using same_socks_trans[OF same_socks_ops(1) same_socks_trans[OF same_socks_send[OF that] same_socks_ops(1)]] .
  moreover have "same_socks t (writeln l (writeln l' t))" for l l' by (rule same_socks_trans[OF same_socks_ops(1) same_socks_ops(1)])
  ultimately show ?thesis unfolding ws_onopen_def Let_def by (simp split: option.split list.split)
qed

lemma same_socks_step:
  assumes "outside e"
  shows "same_socks t (term_step pg t e)"
proof -
  have upd: "same_socks t (sock_upd i (\<lambda>w. w\<lparr>sockState := x\<rparr>) t)" for i x
    by (rule same_socks_sock_upd) simp_all
  show ?thesis
  proof (cases e)
    case (SockOpened i)
    then show ?thesis by (simp add: same_socks_trans[OF upd same_socks_onopen])
  next
    case (SockClosed i c r)
    then show ?thesis by (simp add: same_socks_trans[OF upd same_socks_ops(6)])
  next
    case (SockMessage i d)
    then show ?thesis
      by (auto simp: ws_onmessage_def same_socks_ops split: ws_frame.split option.split json.split)
  next
    case (KeyTyped d)
    then show ?thesis by (auto simp: key_typed_def dest: same_socks_send split: option.split)
  qed (use assms in \<open>simp_all add: same_socks_ops outside_def\<close>)
qed

lemma linked_same_socks:
  assumes "same_socks t t'" "linked c t" "term_inv t"
  shows "linked c t'"
proof -
  have "sockSession (sockets t' ! i) = sockSession (sockets t ! i) \<and> sockPayload (sockets t' ! i) = sockPayload (sockets t ! i)"
    if "wsEffect t = Some i" for i
  proof -
    have "i < length (sockets t)" using assms(3) that by (auto simp: term_inv_def sock_inv_def)
    then show ?thesis using assms(1) unfolding same_socks_def by (metis length_map nth_map)
  qed
  then show ?thesis using assms(1,2) by (auto simp: linked_def same_socks_def)
qed

lemma sys_inv_step:
  assumes "sys_inv s"
  shows "sys_inv (sys_step pg isMac s e)"
proof (cases e)
  case (UI u)
  with assms show ?thesis by (auto simp: sys_inv_def[of s] console_inv_step intro: sync_inv)
next
  case (TE u)
  show ?thesis
  proof (cases "outside u")
    case True
    have "linked (con s) (term_step pg (trm s) u)"
      using linked_same_socks[OF same_socks_step[OF True]] assms by (simp add: sys_inv_def)
    moreover have "term_inv (term_step pg (trm s) u)" using assms by (simp add: sys_inv_def term_inv_step)
    ultimately show ?thesis using assms TE True
      by (simp add: Let_def sys_inv_def[of s] sync_inv console_machine.inv_run del: term_step.simps)
  next
    case False
    with TE assms show ?thesis by simp
  qed
qed

lemma sys_inv_init: "sys_inv sys_init"
  by (simp add: sys_inv_def sys_init_def console_inv_init term_inv_init linked_def)
     (simp add: console_init_def terminal_init_def)

interpretation sys_machine: started_machine "sys_step pg isMac" sys_inv sys_init for pg isMac
  by unfold_locales (rule sys_inv_step, assumption, rule sys_inv_init)

section \<open>Runs\<close>

text \<open>An event of the terminal that ends no session leaves the console alone.\<close>

lemma sys_step_quiet:
  assumes "outside e" "ended (term_step pg (trm s) e) = ended (trm s)"
  shows "sys_step pg isMac s (TE e) = s\<lparr>trm := term_step pg (trm s) e\<rparr>"
  using assms by (simp add: Let_def sync_def new_ends_def del: term_step.simps)

lemma sys_step_end:
  assumes "outside e" "ended (term_step pg (trm s) e) = ended (trm s) @ [(i, outcome)]"
  shows "sys_step pg isMac s (TE e)
    = sync pg (con s) (console_step isMac (con s) (end_event outcome)) (term_step pg (trm s) e)"
  using assms by (simp add: Let_def new_ends_def del: term_step.simps)

lemma idle_console_quiet:
  assumes "sys_inv s" "sandboxState (con s) \<noteq> SRunning"
  shows "con (sys_step pg isMac s (TE e)) = con s"
proof (cases "outside e")
  case True
  have "wsEffect (trm s) = None" using assms by (simp add: sys_inv_def linked_def)
  with True assms(1) have "ended (term_step pg (trm s) e) = ended (trm s)"
    using intentional_step[of "trm s" e pg] by (simp add: sys_inv_def outside_def)
  with True show ?thesis by (simp only: sys_step_quiet) simp
qed simp

lemma idle_console_quiet_run:
  "\<lbrakk>sys_inv s; sandboxState (con s) \<noteq> SRunning\<rbrakk> \<Longrightarrow> con (foldl (sys_step pg isMac) s (map TE es)) = con s"
proof -
  assume "sys_inv s" "sandboxState (con s) \<noteq> SRunning"
  then show ?thesis
    by (intro sys_machine.guarded_run[where Q = "\<lambda>s'. con s' = con s"])
       (auto simp: idle_console_quiet simp del: sys_step.simps)
qed

lemma terminal_wasm_cong:
  "\<lbrakk>inputMode c' = inputMode c; customWasmB64 c' = customWasmB64 c; selectedDemo c' = selectedDemo c\<rbrakk>
    \<Longrightarrow> terminal_wasm c' = terminal_wasm c"
  by (cases "inputMode c"; cases "customWasmB64 c") (simp_all add: terminal_wasm_def split: list.split)

text \<open>Clicking Run while no session is running.\<close>

lemma sys_click_run:
  fixes pg :: page and isMac :: bool and now :: nat
  assumes "sys_inv s" "sandboxState (con s) \<noteq> SRunning"
  defines "s1 \<equiv> sys_step pg isMac s (UI (ClickRun now))" and "i \<equiv> length (sockets (trm s))"
  shows "sandboxState (con s1) = SRunning" "sessionId (con s1) = Some (new_session_id now)"
    "terminal_wasm (con s1) = terminal_wasm (con s)" "inlineVfsSnapshot (con s1) = inlineVfsSnapshot (con s)"
    "length (sockets (trm s1)) = Suc i" "wsEffect (trm s1) = Some i"
    "sockState (sockets (trm s1) ! i) = CONNECTING" "sockSession (sockets (trm s1) ! i) = new_session_id now"
    "sockPayload (sockets (trm s1) ! i) = Some (terminal_wasm (con s))" "sockSent (sockets (trm s1) ! i) = []"
    "ended (trm s1) = ended (trm s)" "hasTrapRef (trm s1) = hasTrapRef (trm s)"
    "vfsSnapshotRef (trm s1) = vfsSnapshotRef (trm s)" "xtermRef (trm s1) = xtermRef (trm s)"
    "stream (trm s1) = stream (trm s)" "butlast (sockets (trm s1)) = sockets (trm s)"
proof -
  have off: "wsEffect (trm s) = None" using assms(1,2) by (simp add: sys_inv_def linked_def)
  then have cl: "ws_cleanup (trm s) = trm s" by (simp add: ws_cleanup_def)
  obtain x xs where id: "new_session_id now = x # xs" by (cases "new_session_id now") auto
  let ?c = "console_step isMac (con s) (ClickRun now)"
  have c': "inputMode ?c = inputMode (con s)" "customWasmB64 ?c = customWasmB64 (con s)"
    "selectedDemo ?c = selectedDemo (con s)"
    by (simp_all add: console_step_def handler_defs)
  have c: "sandboxState ?c = SRunning" "sessionId ?c = Some (new_session_id now)"
    "terminal_wasm ?c = terminal_wasm (con s)" "inlineVfsSnapshot ?c = inlineVfsSnapshot (con s)"
    using assms(2) terminal_wasm_cong[OF c'] by (simp_all add: console_step_def handler_defs)
  have "terminal_props ?c \<noteq> terminal_props (con s)" using c(1) assms(2) by (simp add: terminal_props_def)
  then have s1: "s1 = \<lparr>con = ?c, trm = ws_effect pg True (Some (x # xs)) (Some (terminal_wasm (con s))) (trm s)\<rparr>"
    using c assms(2) by (simp add: s1_def sync_def terminal_props_def cl id)
  show "sandboxState (con s1) = SRunning" "sessionId (con s1) = Some (new_session_id now)"
    "terminal_wasm (con s1) = terminal_wasm (con s)" "inlineVfsSnapshot (con s1) = inlineVfsSnapshot (con s)"
    using c by (simp_all add: s1)
  show "length (sockets (trm s1)) = Suc i" "wsEffect (trm s1) = Some i"
    "sockState (sockets (trm s1) ! i) = CONNECTING" "sockSession (sockets (trm s1) ! i) = new_session_id now"
    "sockPayload (sockets (trm s1) ! i) = Some (terminal_wasm (con s))" "sockSent (sockets (trm s1) ! i) = []"
    "ended (trm s1) = ended (trm s)" "hasTrapRef (trm s1) = hasTrapRef (trm s)"
    "vfsSnapshotRef (trm s1) = vfsSnapshotRef (trm s)" "xtermRef (trm s1) = xtermRef (trm s)"
    "stream (trm s1) = stream (trm s)" "butlast (sockets (trm s1)) = sockets (trm s)"
    by (simp_all add: s1 ws_effect_def Let_def i_def id nth_append stream_screen)
qed

text \<open>A compiled program starts a session of its own, whether one is running or not; the socket of a running
  one starts closing.\<close>

lemma sys_compiled:
  fixes pg :: page and isMac :: bool and now :: nat
  assumes "sys_inv s" "inputMode (con s) = ModeEditor" "w \<noteq> []" "sessionId (con s) \<noteq> Some (new_session_id now)"
  defines "s1 \<equiv> sys_step pg isMac s (UI (Compiled now (Some w)))" and "i \<equiv> length (sockets (trm s))"
  shows "sandboxState (con s1) = SRunning" "sessionId (con s1) = Some (new_session_id now)"
    "terminal_wasm (con s1) = w" "length (sockets (trm s1)) = Suc i" "wsEffect (trm s1) = Some i"
    "sockState (sockets (trm s1) ! i) = CONNECTING" "sockSession (sockets (trm s1) ! i) = new_session_id now"
    "sockPayload (sockets (trm s1) ! i) = Some w" "sockSent (sockets (trm s1) ! i) = []"
    "\<lbrakk>wsEffect (trm s) = Some j; sockState (sockets (trm s) ! j) \<noteq> CLOSED\<rbrakk> \<Longrightarrow>
       j < i \<and> sockState (sockets (trm s1) ! j) = CLOSING"
proof -
  obtain x xs where id: "new_session_id now = x # xs" by (cases "new_session_id now") auto
  obtain y ys where w: "w = y # ys" using assms(3) by (cases w) auto
  let ?c = "console_step isMac (con s) (Compiled now (Some w))" and ?t = "ws_cleanup (trm s)"
  have c: "sandboxState ?c = SRunning" "sessionId ?c = Some (x # xs)" "terminal_wasm ?c = w"
    using assms(2) by (simp_all add: console_step_def handler_defs terminal_wasm_def w id)
  have "terminal_props ?c \<noteq> terminal_props (con s)" using c(2) assms(4) by (simp add: terminal_props_def id)
  then have s1: "s1 = \<lparr>con = ?c, trm = ws_effect pg True (Some (x # xs)) (Some w) ?t\<rparr>"
    using c assms(4) by (auto simp: s1_def sync_def terminal_props_def id)
  have n: "length (sockets ?t) = i"
    by (simp add: i_def ws_cleanup_def sock_close_def Let_def split: option.split)
  show "sandboxState (con s1) = SRunning" "sessionId (con s1) = Some (new_session_id now)" "terminal_wasm (con s1) = w"
    using c by (simp_all add: s1 id)
  show "length (sockets (trm s1)) = Suc i" "wsEffect (trm s1) = Some i"
    "sockState (sockets (trm s1) ! i) = CONNECTING" "sockSession (sockets (trm s1) ! i) = new_session_id now"
    "sockPayload (sockets (trm s1) ! i) = Some w" "sockSent (sockets (trm s1) ! i) = []"
    using n by (simp_all add: s1 ws_effect_def Let_def id nth_append)
  show "j < i \<and> sockState (sockets (trm s1) ! j) = CLOSING"
    if "wsEffect (trm s) = Some j" "sockState (sockets (trm s) ! j) \<noteq> CLOSED"
  proof -
    have "j < i" using that(1) assms(1) by (auto simp: i_def sys_inv_def term_inv_def sock_inv_def)
    moreover have "sockState (sockets ?t ! j) = CLOSING"
      using that \<open>j < i\<close> by (simp add: ws_cleanup_def Let_def sock_close_def i_def)
    ultimately show ?thesis using n by (simp add: s1 ws_effect_def Let_def nth_append)
  qed
qed

text \<open>The socket opens and the request goes out.\<close>

lemma sys_socket_opened:
  fixes pg :: page and isMac :: bool
  assumes "i < length (sockets (trm s))" "sockState (sockets (trm s) ! i) = CONNECTING"
    "sockPayload (sockets (trm s) ! i) = Some w" "w \<noteq> []"
  defines "s1 \<equiv> sys_step pg isMac s (TE (SockOpened i))"
  shows "con s1 = con s" "sock_in (trm s1) i [OPEN]" "ended (trm s1) = ended (trm s)"
    "sockSent (sockets (trm s1) ! i) = sockSent (sockets (trm s) ! i) @
       [stringify (execute_payload w (sockSession (sockets (trm s) ! i)))]"
    "hasTrapRef (trm s1) = hasTrapRef (trm s)" "vfsSnapshotRef (trm s1) = vfsSnapshotRef (trm s)"
    "xtermRef (trm s1) = xtermRef (trm s)" "stream (trm s1) = stream (trm s)"
proof -
  obtain c cs where w: "w = c # cs" using assms(4) by (cases w) auto
  let ?t = "term_step pg (trm s) (SockOpened i)"
  have t: "ended ?t = ended (trm s)" "sock_in ?t i [OPEN]" "hasTrapRef ?t = hasTrapRef (trm s)"
    "vfsSnapshotRef ?t = vfsSnapshotRef (trm s)" "xtermRef ?t = xtermRef (trm s)" "stream ?t = stream (trm s)"
    "sockSent (sockets ?t ! i) = sockSent (sockets (trm s) ! i) @
       [stringify (execute_payload w (sockSession (sockets (trm s) ! i)))]"
    using assms(1-3) by (simp_all add: sock_in_def ws_onopen_def Let_def sock_send_def w stream_screen)
  have "s1 = s\<lparr>trm := ?t\<rparr>" unfolding s1_def by (rule sys_step_quiet[OF _ t(1)]) (simp add: outside_def)
  with t show "con s1 = con s" "sock_in (trm s1) i [OPEN]" "ended (trm s1) = ended (trm s)"
    "sockSent (sockets (trm s1) ! i) = sockSent (sockets (trm s) ! i) @
       [stringify (execute_payload w (sockSession (sockets (trm s) ! i)))]"
    "hasTrapRef (trm s1) = hasTrapRef (trm s)" "vfsSnapshotRef (trm s1) = vfsSnapshotRef (trm s)"
    "xtermRef (trm s1) = xtermRef (trm s)" "stream (trm s1) = stream (trm s)"
    by (simp_all del: term_step.simps)
qed

text \<open>Output arrives.\<close>

lemma sys_output:
  fixes pg :: page and isMac :: bool and outs :: "bytes list"
  assumes "sock_in (trm s) i [OPEN]"
  defines "s1 \<equiv> foldl (sys_step pg isMac) s (map (\<lambda>b. TE (SockMessage i (BinaryFrame b))) outs)"
  shows "con s1 = con s \<and> sockets (trm s1) = sockets (trm s) \<and> ended (trm s1) = ended (trm s) \<and>
    hasTrapRef (trm s1) = hasTrapRef (trm s) \<and> vfsSnapshotRef (trm s1) = vfsSnapshotRef (trm s) \<and>
    xtermRef (trm s1) = xtermRef (trm s) \<and> stream (trm s1) = stream (trm s) @ concat outs"
  using assms(1) unfolding s1_def
proof (induction outs arbitrary: s)
  case (Cons b outs)
  have t: "term_step pg (trm s) (SockMessage i (BinaryFrame b)) = enqueue b (trm s)"
    using Cons.prems by (simp add: ws_onmessage_def)
  have "sys_step pg isMac s (TE (SockMessage i (BinaryFrame b))) = s\<lparr>trm := enqueue b (trm s)\<rparr>"
    by (subst sys_step_quiet) (simp_all add: outside_def t del: term_step.simps)
  moreover have "sock_in (enqueue b (trm s)) i [OPEN]" using Cons.prems by (simp add: sock_in_def)
  ultimately show ?case using Cons.IH[of "s\<lparr>trm := enqueue b (trm s)\<rparr>"] by (simp del: sys_step.simps)
qed simp

text \<open>The exit frame and the normal close end the session.\<close>

lemma terminal_wasm_not_Nil: "terminal_wasm c \<noteq> []"
  by (auto simp: terminal_wasm_def DEMOS_not_Nil split: InputMode.split option.split list.split)

lemma sock_sent_kept:
  "sockSent (sockets (exit_frame m t) ! i) = sockSent (sockets t ! i)"
  "sockSent (sockets (ws_onclose j c r t) ! i) = sockSent (sockets t ! i)"
  by (simp_all add: ws_onclose_def on_end_def Let_def)

lemma sock_sent_upd:
  assumes "\<And>w. sockSent (f w) = sockSent w"
  shows "sockSent (sockets (sock_upd j f t) ! i) = sockSent (sockets t ! i)"
  using assms by (cases "j < length (sockets t)"; cases "i = j") (simp_all add: list_update_beyond)

lemma sock_sent_cleanup: "sockSent (sockets (ws_cleanup t) ! i) = sockSent (sockets t ! i)"
proof (cases "wsEffect t")
  case (Some j)
  let ?u = "sock_upd j (\<lambda>w. w\<lparr>sockInput := False\<rparr>) t"
  have "sockets (ws_cleanup t) = sockets (sock_close j (?u\<lparr>intentionalCloseRef := True\<rparr>))"
    by (simp add: ws_cleanup_def Some Let_def)
  then have "sockSent (sockets (ws_cleanup t) ! i) = sockSent (sockets ?u ! i)"
    using sock_sent_upd[of "\<lambda>w. if sockState w = CLOSED then w else w\<lparr>sockState := CLOSING\<rparr>" j
        "?u\<lparr>intentionalCloseRef := True\<rparr>" i] by (simp only: sock_close_def) simp
  also have "\<dots> = sockSent (sockets t ! i)" by (rule sock_sent_upd) simp
  finally show ?thesis .
qed (simp add: ws_cleanup_def)

lemma sys_exit_and_close:
  fixes pg :: page and isMac :: bool and t :: string and reason :: string
  assumes inv: "sys_inv s" and "sock_in (trm s) i [OPEN]" "\<not> hasTrapRef (trm s)"
    "json_parse t = Some msg" "jfield ''type'' msg = Some (JStr ''exit'')"
  defines "s1 \<equiv> sys_step pg isMac s (TE (SockMessage i (TextFrame t)))"
  defines "s2 \<equiv> sys_step pg isMac s1 (TE (SockClosed i 1000 reason))"
  shows "con s2 = console_step isMac (con s) (end_event (announced msg (vfsSnapshotRef (trm s))))"
    "wsEffect (trm s2) = None" "sockSent (sockets (trm s2) ! i) = sockSent (sockets (trm s) ! i)"
    "xtermRef (trm s) \<Longrightarrow> raw_bytes (screen (trm s2)) = stream (trm s)"
proof -
  have ti: "term_inv (trm s)" using inv by (simp add: sys_inv_def)
  let ?t1 = "term_step pg (trm s) (SockMessage i (TextFrame t))"
  let ?t2 = "term_step pg ?t1 (SockClosed i 1000 reason)"
  let ?c = "console_step isMac (con s) (end_event (announced msg (vfsSnapshotRef (trm s))))"
  note x = exit_then_close[where pg = pg and ?s1.0 = ?t1 and ?s2.0 = ?t2 and reason = reason, OF ti assms(2-5) refl refl]
  have s1: "s1 = s\<lparr>trm := ?t1\<rparr>" unfolding s1_def by (rule sys_step_quiet[OF _ x(1)]) (simp add: outside_def)
  have s2: "s2 = sync pg (con s) ?c ?t2"
    unfolding s2_def using sys_step_end[of "SockClosed i 1000 reason" pg s1 i _ isMac] x(1,2)
    by (simp add: s1 outside_def del: term_step.simps sys_step.simps)
  then show con: "con s2 = ?c" by (simp add: sync_def)
  have "sys_inv s2" unfolding s2_def s1_def by (intro sys_inv_step inv)
  moreover have "sandboxState ?c \<noteq> SRunning"
    by (simp add: console_step_def end_event_def announced_def vitals_shown_def onEnd_def Let_def
         split: end_outcome.split option.split list.split json.split)
  ultimately show off: "wsEffect (trm s2) = None" using con by (simp add: sys_inv_def linked_def)
  have buf: "bufferRef (trm s2) = []" using \<open>sys_inv s2\<close> off by (simp add: sys_inv_def term_inv_def sock_inv_def)
  have run: "sandboxState (con s) = SRunning"
  proof (rule ccontr)
    assume "sandboxState (con s) \<noteq> SRunning"
    with inv have "wsEffect (trm s) = None" by (simp add: sys_inv_def linked_def)
    moreover have "up (trm s) i" using assms(2) by (auto simp: up_def sock_in_def)
    ultimately show False using ti by (simp add: term_inv_def sock_inv_def)
  qed
  with \<open>sandboxState ?c \<noteq> SRunning\<close> have "terminal_props ?c \<noteq> terminal_props (con s)"
    by (simp add: terminal_props_def)
  then have t: "trm s2 = term_step pg ?t2 (props_event (terminal_props ?c))" by (simp add: s2 sync_def)
  have t1: "?t1 = exit_frame msg (trm s)" using assms(2,4,5) by (cases msg) (auto simp: ws_onmessage_def)
  have open': "sock_in (exit_frame msg (trm s)) i [CONNECTING, OPEN, CLOSING]"
    using assms(2) by (auto simp: sock_in_def)
  have "sockets (ws_effect pg False sid w u) = sockets u" for sid w u
    by (simp add: ws_effect_def split: option.split list.split)
  then show "sockSent (sockets (trm s2) ! i) = sockSent (sockets (trm s) ! i)"
    using \<open>sandboxState ?c \<noteq> SRunning\<close> assms(2)
    unfolding t t1 by (simp add: terminal_props_def open' sock_sent_cleanup sock_sent_kept sock_in_def)
  show "raw_bytes (screen (trm s2)) = stream (trm s)" if "xtermRef (trm s)"
  proof -
    have "stream ?t1 = stream (trm s) @ accepted (trm s) (SockMessage i (TextFrame t))" "xtermRef ?t1"
      using term_step_ready[OF that] by blast+
    moreover have "accepted (trm s) (SockMessage i (TextFrame t)) = []"
      using assms(4,5) by (cases msg) simp_all
    ultimately have "stream (trm s2) = stream (trm s)"
      using term_step_ready[of ?t1 pg "SockClosed i 1000 reason"] term_step_ready[of ?t2 pg "props_event (terminal_props ?c)"]
      unfolding t by (simp add: terminal_props_def del: term_step.simps)
    with buf show ?thesis by (simp add: stream_screen)
  qed
qed

text \<open>Clicking Stop while a session is running.\<close>

lemma sys_click_stop:
  fixes pg :: page and isMac :: bool
  assumes "sys_inv s" "wsEffect (trm s) = Some i" "sockState (sockets (trm s) ! i) \<noteq> CLOSED"
  defines "s1 \<equiv> sys_step pg isMac s (UI ClickStop)"
  shows "sandboxState (con s1) = SIdle" "length (sockets (trm s1)) = Suc i" "sockState (sockets (trm s1) ! i) = CLOSING"
    "ended (trm s1) = ended (trm s)"
proof -
  have run: "sandboxState (con s) = SRunning" using assms(1,2) by (auto simp: sys_inv_def linked_def split: if_splits)
  have len: "length (sockets (trm s)) = Suc i" using assms(1,2) by (auto simp: sys_inv_def term_inv_def sock_inv_def)
  have e: "ws_effect pg False sid w t = t" for sid w t
    by (simp add: ws_effect_def split: option.split list.split)
  have s1: "s1 = \<lparr>con = (con s)\<lparr>sandboxState := SIdle\<rparr>, trm = ws_cleanup (trm s)\<rparr>"
    using run by (simp add: s1_def sync_def console_step_def handler_defs terminal_props_def e)
  show "sandboxState (con s1) = SIdle" by (simp add: s1)
  show "length (sockets (trm s1)) = Suc i" "sockState (sockets (trm s1) ! i) = CLOSING"
    "ended (trm s1) = ended (trm s)"
    using len assms(3) by (simp_all add: s1 ws_cleanup_def assms(2) Let_def sock_close_def)
qed

text \<open>A close event of any socket, while a session is running, ends that session.\<close>

lemma onclose_reports:
  "\<not> intentionalCloseRef t \<Longrightarrow> \<exists>outcome. ended (ws_onclose i code reason t) = ended t @ [(i, outcome)]"
  by (simp add: ws_onclose_def on_end_def Let_def)

lemma end_event_stops: "sandboxState (console_step isMac c (end_event outcome)) \<in> {SComplete, SNonzero, SCrashed}"
  by (simp add: console_step_def end_event_def vitals_shown_def onEnd_def Let_def
        split: end_outcome.split option.split list.split)

lemma sys_any_close:
  fixes pg :: page and isMac :: bool and code :: nat and reason :: string
  assumes inv: "sys_inv s" and j: "wsEffect (trm s) = Some j" "i \<noteq> j" "sockState (sockets (trm s) ! j) \<noteq> CLOSED"
    and i: "i < length (sockets (trm s))" "sockState (sockets (trm s) ! i) = CLOSING"
  defines "s1 \<equiv> sys_step pg isMac s (TE (SockClosed i code reason))"
  shows "sandboxState (con s1) \<in> {SComplete, SNonzero, SCrashed}" "wsEffect (trm s1) = None"
    "sockState (sockets (trm s1) ! j) = CLOSING"
proof -
  let ?t = "sock_upd i (\<lambda>w. w\<lparr>sockState := CLOSED\<rparr>) (trm s)"
  have live: "\<not> intentionalCloseRef (trm s)" and len: "j < length (sockets (trm s))"
    using inv j(1) by (auto simp: sys_inv_def term_inv_def sock_inv_def)
  have t: "term_step pg (trm s) (SockClosed i code reason) = ws_onclose i code reason ?t"
    using i by (simp add: sock_in_def)
  obtain outcome where "ended (ws_onclose i code reason ?t) = ended (trm s) @ [(i, outcome)]"
    using onclose_reports[of ?t i code reason] live by auto
  then have s1: "s1 = sync pg (con s) (console_step isMac (con s) (end_event outcome)) (ws_onclose i code reason ?t)"
    unfolding s1_def using sys_step_end[of "SockClosed i code reason" pg s i outcome isMac] t
    by (simp add: outside_def del: sys_step.simps term_step.simps)
  then show st: "sandboxState (con s1) \<in> {SComplete, SNonzero, SCrashed}"
    using end_event_stops by (simp add: sync_def)
  have "sys_inv s1" unfolding s1_def by (rule sys_inv_step[OF inv])
  with st show "wsEffect (trm s1) = None" by (auto simp: sys_inv_def linked_def split: if_splits)
  let ?c = "console_step isMac (con s) (end_event outcome)"
  have run: "sandboxState (con s) = SRunning" using inv j(1) by (auto simp: sys_inv_def linked_def split: if_splits)
  have stop: "sandboxState ?c \<noteq> SRunning" using end_event_stops[of isMac "con s" outcome] by auto
  have e: "ws_effect pg False sid w u = u" for sid w u
    by (simp add: ws_effect_def split: option.split list.split)
  have "trm s1 = ws_cleanup (ws_onclose i code reason ?t)"
    using run stop by (simp add: s1 sync_def terminal_props_def e)
  moreover have "wsEffect (ws_onclose i code reason ?t) = Some j" "sockets (ws_onclose i code reason ?t) = sockets ?t"
    using j(1) by (simp_all add: ws_onclose_def on_end_def Let_def)
  ultimately show "sockState (sockets (trm s1) ! j) = CLOSING"
    using j(2,3) len by (simp add: ws_cleanup_def Let_def sock_close_def)
qed

section \<open>Previews\<close>

text \<open>The registry the console mounts when a preview is on display.\<close>

definition registry_for :: "console \<Rightarrow> registry option" where
  "registry_for c = (case main_pane c of
       PaneRegistry path sid content b64 \<Rightarrow>
         Some (reg_mount \<lparr>rpPath = path, rpSession = sid, rpContent = content, rpB64 = b64\<rparr>)
     | _ \<Rightarrow> None)"

lemma registry_for_select:
  assumes "path \<noteq> []"
  shows "registry_for (console_step isMac c (SelectFile path)) =
    Some (reg_mount \<lparr>rpPath = path, rpSession = sessionId c,
      rpContent = inlineFileContent (handleFileSelect path c), rpB64 = inlineFileB64 (handleFileSelect path c)\<rparr>)"
proof -
  let ?c = "handleFileSelect path c"
  have c: "activeTab ?c = TabPreview" "previewFile ?c = Some path" "sessionId ?c = sessionId c"
    by (simp_all add: handleFileSelect_def Let_def split: option.split list.split)
  have "main_pane (vitals_shown ?c) = PaneRegistry path (sessionId c) (inlineFileContent ?c) (inlineFileB64 ?c)"
    using assms c by (simp add: main_pane_def vitals_shown_def)
  then show ?thesis by (simp add: registry_for_def console_step_def)
qed

end
