(* ===== verification/Vitals.thy ===== *)
theory Vitals
  imports Polling
begin

text \<open>
  \<open>frontend/components/AgentVitals.tsx\<close>: the telemetry poll (\<open>fetchVitals\<close>, the \<open>poll\<close> loop of the
  effect and its reset), the sample window of the sparklines, and the colour and number
  formatting of the two renderings. An exchange with the orchestrator is an input
  (\<open>vitals_json http\<close>); times in milliseconds are naturals, the numbers of a snapshot rationals.
\<close>

section \<open>Data\<close>

record VitalsSnapshot =
  memUsedBytes :: rat
  memLimitBytes :: rat
  cpuPct :: rat
  wallMs :: nat

text \<open>The body of \<open>GET /api/v1/vitals/:sessionId\<close>.\<close>

record vitals_json =
  mem_used_bytes :: rat
  mem_limit_bytes :: rat
  cpu_pct :: rat

definition POLL_INTERVAL_MS :: nat where "POLL_INTERVAL_MS = 800"
definition POLL_BACKOFF_BASE_MS :: nat where "POLL_BACKOFF_BASE_MS = 5000"
definition POLL_BACKOFF_MAX_MS :: nat where "POLL_BACKOFF_MAX_MS = 30000"
definition SPARKLINE_SAMPLES :: nat where "SPARKLINE_SAMPLES = 60"
definition MEM_LIMIT_BYTES :: rat where "MEM_LIMIT_BYTES = 50 * 1024 * 1024"

lemmas vitals_consts = POLL_INTERVAL_MS_def POLL_BACKOFF_BASE_MS_def POLL_BACKOFF_MAX_MS_def
  SPARKLINE_SAMPLES_def

datatype VitalsFetchResult =
    VitalsOk VitalsSnapshot
  | VitalsFailed bool VitalsSnapshot

section \<open>Fetching\<close>

definition is_network :: "js_error \<Rightarrow> bool" where
  "is_network err \<longleftrightarrow> err = TypeError \<or> err = TimeoutError \<or> err = AbortError"

definition vitals_fallback :: "nat \<Rightarrow> VitalsSnapshot option \<Rightarrow> VitalsSnapshot" where
  "vitals_fallback elapsed prev = (case prev of
       Some p \<Rightarrow> p\<lparr>wallMs := elapsed\<rparr>
     | None \<Rightarrow> \<lparr>memUsedBytes = 0, memLimitBytes = MEM_LIMIT_BYTES, cpuPct = 0, wallMs = elapsed\<rparr>)"

text \<open>
  A status outside 200--299 throws a plain \<open>Error\<close>, an unreadable body a \<open>SyntaxError\<close>; neither
  counts as a network error.
\<close>

definition fetchVitals ::
  "vitals_json http \<Rightarrow> nat \<Rightarrow> VitalsSnapshot option \<Rightarrow> VitalsFetchResult" where
  "fetchVitals exchange elapsed prev =
     (let fallback = vitals_fallback elapsed prev in
      case exchange of
        FetchThrows err \<Rightarrow> VitalsFailed (is_network err) fallback
      | Response status body \<Rightarrow>
          if \<not> res_ok status then VitalsFailed (is_network (PlainError (nat_str status))) fallback
          else (case body of
              None \<Rightarrow> VitalsFailed (is_network SyntaxError) fallback
            | Some json \<Rightarrow> VitalsOk
                \<lparr>memUsedBytes = mem_used_bytes json, memLimitBytes = mem_limit_bytes json,
                 cpuPct = cpu_pct json, wallMs = elapsed\<rparr>))"

section \<open>The poll loop\<close>

text \<open>
  The refs of the component and the closure variables of the running effect. \<open>vitTimer\<close> is the delay
  of the timeout that will call \<open>poll\<close> again, \<open>None\<close> when none is set.
\<close>

record vitals =
  snapshotsRef :: "VitalsSnapshot list"
  latestRef :: "VitalsSnapshot option"
  startRef :: nat
  tickState :: nat
  vitCancelled :: bool
  vitBackoffMs :: nat
  vitTimer :: "nat option"

text \<open>Before the effect has run there is no run to poll.\<close>

definition vitals_init :: vitals where
  "vitals_init = \<lparr>snapshotsRef = [], latestRef = None, startRef = 0, tickState = 0,
     vitCancelled = True, vitBackoffMs = POLL_INTERVAL_MS, vitTimer = None\<rparr>"

definition next_backoff :: "nat \<Rightarrow> nat" where
  "next_backoff b =
     (let b' = min (b * 2) POLL_BACKOFF_MAX_MS in
      if b' = POLL_INTERVAL_MS then POLL_BACKOFF_BASE_MS else b')"

text \<open>The effect body up to its first \<open>poll()\<close> call; \<open>active\<close> is \<open>running && sessionId\<close>.\<close>

definition vitals_effect :: "bool \<Rightarrow> nat \<Rightarrow> vitals \<Rightarrow> vitals" where
  "vitals_effect active now s =
     (if \<not> active then s\<lparr>snapshotsRef := [], latestRef := None, tickState := 0\<rparr>
      else s\<lparr>startRef := now, vitCancelled := False, vitBackoffMs := POLL_INTERVAL_MS, vitTimer := None\<rparr>)"

text \<open>The array \<open>push\<close> followed by the \<open>shift\<close> past the window.\<close>

definition push_sample :: "VitalsSnapshot \<Rightarrow> VitalsSnapshot list \<Rightarrow> VitalsSnapshot list" where
  "push_sample x xs =
     (let ys = xs @ [x] in if length ys > SPARKLINE_SAMPLES then drop 1 ys else ys)"

text \<open>
  One call of \<open>poll\<close>, started at time \<open>now\<close>: \<open>c\<close> says whether its run of the effect was cleaned up
  while the request was in flight; then the response is dropped.
\<close>

definition vitals_poll :: "vitals \<Rightarrow> nat \<times> bool \<times> vitals_json http \<Rightarrow> vitals" where
  "vitals_poll s = (\<lambda>(now, c, exchange).
     if vitCancelled s then s
     else
       (let elapsed = now - startRef s;
            result = fetchVitals exchange elapsed (latestRef s) in
        if c then s
        else
          (let s1 = (case result of
                VitalsOk snap \<Rightarrow> s\<lparr>vitBackoffMs := POLL_INTERVAL_MS, latestRef := Some snap,
                    snapshotsRef := push_sample snap (snapshotsRef s)\<rparr>
              | VitalsFailed net fb \<Rightarrow> s\<lparr>latestRef := Some fb,
                    snapshotsRef := push_sample fb (snapshotsRef s),
                    vitBackoffMs := (if net then next_backoff (vitBackoffMs s) else vitBackoffMs s)\<rparr>)
           in s1\<lparr>tickState := tickState s1 + 1, vitTimer := Some (vitBackoffMs s1)\<rparr>)))"

definition vitals_cleanup :: "vitals \<Rightarrow> vitals" where
  "vitals_cleanup s = s\<lparr>vitCancelled := True, vitTimer := None\<rparr>"

section \<open>Formatting\<close>

definition pctColor :: "jsnum \<Rightarrow> string" where
  "pctColor pct = (if js_ge pct 90 then ''var(--color-danger)''
     else if js_ge pct 70 then ''var(--color-warn)'' else ''var(--color-ok)'')"

definition mem_pct :: "rat \<Rightarrow> rat \<Rightarrow> jsnum" where
  "mem_pct used limit = js_scale 100 (js_div used limit)"

definition memColor :: "rat \<Rightarrow> rat \<Rightarrow> string" where
  "memColor used limit = pctColor (mem_pct used limit)"

text \<open>
  \<open>formatMem\<close> and \<open>formatWall\<close>, on whole bytes and milliseconds. Division by \<open>1024 * 1024\<close> is exact;
  the seconds \<open>ms / 1000\<close> are rounded to a double \<open>m / 2^k\<close>, whose remainder modulo 60 is exact, and
  whose minutes are those of \<open>ms\<close> because a double that close to a multiple of 60 below it is no
  whole number of milliseconds.
\<close>

definition formatMem :: "nat \<Rightarrow> string" where
  "formatMem b = (if b < 10 * (1024 * 1024) then toFixed1 b (1024 * 1024) @ '' MB''
     else nat_str (round_div b (1024 * 1024)) @ '' MB'')"

definition formatWall :: "nat \<Rightarrow> string" where
  "formatWall ms = (if ms < 60000 then quot_toFixed1 ms 1000 @ ''s''
     else (case js_quot ms 1000 of (m, k) \<Rightarrow>
       nat_str (ms div 60000) @ ''m '' @ nat_str (round_div (m mod (60 * 2 ^ k)) (2 ^ k)) @ ''s''))"

section \<open>Lemmas\<close>

lemma length_push_sample:
  "length (push_sample x xs) = (if length xs < SPARKLINE_SAMPLES then Suc (length xs) else length xs)"
  by (cases xs) (simp_all add: push_sample_def Let_def vitals_consts)

lemma last_push_sample: "last (push_sample x xs) = x"
  by (cases xs) (simp_all add: push_sample_def Let_def vitals_consts)

interpretation vit: capped_backoff POLL_INTERVAL_MS POLL_BACKOFF_MAX_MS next_backoff
  by unfold_locales (auto simp: next_backoff_def vitals_consts Let_def min_def)

text \<open>An exchange that gives a snapshot, and one that counts as the orchestrator being down.\<close>

fun vitals_succeeds :: "vitals_json http \<Rightarrow> bool" where
  "vitals_succeeds (Response status (Some j)) \<longleftrightarrow> res_ok status"
| "vitals_succeeds _ \<longleftrightarrow> False"

fun vitals_down :: "vitals_json http \<Rightarrow> bool" where
  "vitals_down (FetchThrows e) \<longleftrightarrow> is_network e"
| "vitals_down _ \<longleftrightarrow> False"

lemma fetchVitals_ok:
  "(\<exists>snap. fetchVitals x el prev = VitalsOk snap) \<longleftrightarrow> vitals_succeeds x"
  by (cases x rule: vitals_succeeds.cases) (auto simp: fetchVitals_def Let_def)

lemma fetchVitals_net:
  "fetchVitals x el prev = VitalsFailed net fb \<Longrightarrow> net \<longleftrightarrow> vitals_down x"
  by (auto simp: fetchVitals_def Let_def is_network_def split: http.splits if_splits option.splits)

text \<open>The loop while its effect is not cleaned up.\<close>

definition poll_live :: "vitals \<Rightarrow> nat \<times> vitals_json http \<Rightarrow> vitals" where
  "poll_live s e = vitals_poll s (fst e, False, snd e)"

lemma poll_live_delay:
  assumes "\<not> vitCancelled s"
  shows "vitBackoffMs (poll_live s e) =
    (if vitals_succeeds (snd e) then POLL_INTERVAL_MS
     else if vitals_down (snd e) then next_backoff (vitBackoffMs s) else vitBackoffMs s)"
proof -
  let ?r = "fetchVitals (snd e) (fst e - startRef s) (latestRef s)"
  show ?thesis
  proof (cases ?r)
    case (VitalsOk snap)
    then have "vitals_succeeds (snd e)" using fetchVitals_ok by blast
    with VitalsOk assms show ?thesis by (simp add: poll_live_def vitals_poll_def Let_def)
  next
    case (VitalsFailed net fb)
    then have "\<not> vitals_succeeds (snd e)" "net \<longleftrightarrow> vitals_down (snd e)"
      using fetchVitals_ok fetchVitals_net by (metis VitalsFetchResult.distinct(1), blast)
    with VitalsFailed assms show ?thesis by (simp add: poll_live_def vitals_poll_def Let_def)
  qed
qed

lemma poll_live_cancelled [simp]: "vitCancelled (poll_live s e) = vitCancelled s"
  by (simp add: poll_live_def vitals_poll_def Let_def split: VitalsFetchResult.split)

lemma vitals_down_not_ok: "vitals_down x \<Longrightarrow> \<not> vitals_succeeds x"
  by (cases x rule: vitals_succeeds.cases) auto

interpretation vitp: poller POLL_INTERVAL_MS POLL_BACKOFF_MAX_MS next_backoff vitBackoffMs poll_live
  "\<lambda>s. \<not> vitCancelled s" "\<lambda>e. vitals_succeeds (snd e)" "\<lambda>e. vitals_down (snd e)"
  by unfold_locales (auto simp: poll_live_delay vitals_down_not_ok)


lemma vitals_poll_timer:
  "\<not> vitCancelled s \<Longrightarrow> vitTimer (poll_live s e) = Some (vitBackoffMs (poll_live s e))"
  by (simp add: poll_live_def vitals_poll_def Let_def split: VitalsFetchResult.split)

lemma pow2_not_5000: "800 * 2 ^ n \<noteq> (5000 :: nat)"
proof
  assume a: "800 * 2 ^ n = (5000 :: nat)"
  have "n < 3 \<or> 3 \<le> n" by auto
  then show False
  proof
    assume "n < 3"
    then have "n = 0 \<or> n = 1 \<or> n = 2" by auto
    with a show False by auto
  next
    assume "3 \<le> n"
    then have "(2 :: nat) ^ 3 \<le> 2 ^ n" by (intro power_increasing) simp_all
    with a show False by simp
  qed
qed

section \<open>Properties\<close>

text \<open>After a successful poll, the \<open>n\<close>-th network failure in a row schedules the next poll after
  \<open>min (800 * 2^n) 30000\<close> ms, whatever happened before that success. In particular the delay
  \<open>POLL_BACKOFF_BASE_MS\<close> (5 s) the code declares as the start of the back-off is never used.\<close>

theorem vitals_backoff_sequence:
  assumes "\<not> vitCancelled s" "vitals_succeeds (snd e)" "\<And>d. d \<in> set ds \<Longrightarrow> vitals_down (snd d)"
  shows "vitTimer (foldl poll_live s (es @ e # ds)) = Some (min (800 * 2 ^ length ds) 30000) \<and>
    vitTimer (foldl poll_live s (es @ e # ds)) \<noteq> Some POLL_BACKOFF_BASE_MS"
proof -
  let ?s = "foldl poll_live s (es @ e # ds)"
  have delay: "vitBackoffMs ?s = min (800 * 2 ^ length ds) 30000"
    using vitp.delay_after_failures[OF assms] by (simp add: vitals_consts)
  obtain ys y where ys: "es @ e # ds = ys @ [y]" by (metis append_is_Nil_conv list.distinct(1) rev_exhaust)
  have "\<not> vitCancelled (foldl poll_live s ys)" using assms(1) by (rule vitp.live_run)
  then have "vitTimer ?s = Some (vitBackoffMs ?s)" by (simp add: ys vitals_poll_timer)
  with delay have "vitTimer ?s = Some (min (800 * 2 ^ length ds) 30000)" by simp
  with pow2_not_5000[of "length ds"] show ?thesis
    by (simp add: vitals_consts min_def)
qed

definition demo_vitals :: vitals where
  "demo_vitals = vitals_effect True 0 vitals_init"

definition demo_telemetry :: vitals_json where
  "demo_telemetry = \<lparr>mem_used_bytes = 1024, mem_limit_bytes = 4096, cpu_pct = 12\<rparr>"

theorem vitals_backoff_sequence_witness:
  "vitTimer (foldl poll_live demo_vitals
     [(5, Response 200 (Some demo_telemetry)), (900, FetchThrows TimeoutError),
      (3000, FetchThrows TypeError)]) = Some 3200"
proof -
  have "\<not> vitCancelled demo_vitals" by (simp add: demo_vitals_def vitals_init_def vitals_effect_def)
  moreover have "vitals_succeeds (snd (5 :: nat, Response 200 (Some demo_telemetry)))"
    by (simp add: res_ok_def)
  moreover have "vitals_down (snd d)"
    if "d \<in> set [(900 :: nat, FetchThrows TimeoutError), (3000, FetchThrows TypeError)]" for d
    using that by (auto simp: is_network_def)
  ultimately show ?thesis
    using vitals_backoff_sequence[of demo_vitals "(5, Response 200 (Some demo_telemetry))"
        "[(900, FetchThrows TimeoutError), (3000, FetchThrows TypeError)]" "[]"]
    by simp
qed

text \<open>The samples kept for the sparklines and the value shown.\<close>

definition vitals_inv :: "vitals \<Rightarrow> bool" where
  "vitals_inv s \<longleftrightarrow> length (snapshotsRef s) \<le> SPARKLINE_SAMPLES \<and>
     (case latestRef s of None \<Rightarrow> snapshotsRef s = []
      | Some v \<Rightarrow> snapshotsRef s \<noteq> [] \<and> last (snapshotsRef s) = v)"

lemma push_sample_not_Nil [simp]: "push_sample x xs \<noteq> []"
  using length_push_sample[of x xs] by (auto simp: vitals_consts split: if_splits)

lemma vitals_poll_inv:
  assumes "vitals_inv s"
  shows "vitals_inv (vitals_poll s e)"
proof -
  obtain now c x where e: "e = (now, c, x)" by (cases e) auto
  show ?thesis
  proof (cases "vitCancelled s \<or> c")
    case True
    with assms e show ?thesis
      by (cases "latestRef s") (auto simp: vitals_inv_def vitals_poll_def Let_def)
  next
    case False
    with assms e show ?thesis
      by (cases "fetchVitals x (now - startRef s) (latestRef s)")
         (simp_all add: vitals_inv_def vitals_poll_def Let_def length_push_sample last_push_sample)
  qed
qed

lemma vitals_effect_inv: "vitals_inv s \<Longrightarrow> vitals_inv (vitals_effect active now s)"
  by (cases "latestRef s") (simp_all add: vitals_inv_def vitals_effect_def)

datatype vitals_event =
    EffectRuns bool nat
  | PollEnds "nat \<times> bool \<times> vitals_json http"
  | EffectCleanup

fun vitals_step :: "vitals \<Rightarrow> vitals_event \<Rightarrow> vitals" where
  "vitals_step s (EffectRuns active now) = vitals_effect active now s"
| "vitals_step s (PollEnds e) = vitals_poll s e"
| "vitals_step s EffectCleanup = vitals_cleanup s"

lemma vitals_step_inv: "vitals_inv s \<Longrightarrow> vitals_inv (vitals_step s e)"
  by (cases e; cases "latestRef s")
     (simp_all add: vitals_poll_inv vitals_effect_inv, simp_all add: vitals_inv_def vitals_cleanup_def)

interpretation vitals_machine: started_machine vitals_step vitals_inv vitals_init
  by unfold_locales (rule vitals_step_inv, assumption, simp add: vitals_inv_def vitals_init_def)

text \<open>However effects, polls and clean-ups follow one another, the panel never keeps more than 60
  samples, the value it shows is the newest sample, and there is a value to show as soon as there
  is a sample.\<close>

theorem vitals_window:
  "case foldl vitals_step vitals_init es of s \<Rightarrow>
     length (snapshotsRef s) \<le> 60 \<and>
     latestRef s = (if snapshotsRef s = [] then None else Some (last (snapshotsRef s)))"
proof -
  have "vitals_inv (foldl vitals_step vitals_init es)"
    by (rule vitals_machine.reachable_inv)
  then show ?thesis by (auto simp: vitals_inv_def vitals_consts split: option.splits)
qed

text \<open>A poll that fails for any reason leaves the last known memory and CPU figures on display and
  only advances the clock; before the first success it shows zero use of the 50 MB limit. Only a
  network failure changes the polling delay.\<close>

theorem vitals_failed_poll:
  assumes "\<not> vitCancelled s" "\<not> vitals_succeeds x"
  shows "latestRef (vitals_poll s (now, False, x)) = Some (case latestRef s of
      Some p \<Rightarrow> p\<lparr>wallMs := now - startRef s\<rparr>
    | None \<Rightarrow> \<lparr>memUsedBytes = 0, memLimitBytes = 52428800, cpuPct = 0, wallMs = now - startRef s\<rparr>)
    \<and> (\<not> vitals_down x \<longrightarrow> vitBackoffMs (vitals_poll s (now, False, x)) = vitBackoffMs s)"
proof -
  obtain net fb where r: "fetchVitals x (now - startRef s) (latestRef s) = VitalsFailed net fb"
    using assms(2) fetchVitals_ok by (metis VitalsFetchResult.exhaust)
  then have "fb = vitals_fallback (now - startRef s) (latestRef s)" "net = vitals_down x"
    using fetchVitals_net
    by (auto simp: fetchVitals_def Let_def split: http.splits if_splits option.splits)
  with r assms(1) show ?thesis
    by (auto simp: vitals_poll_def vitals_fallback_def MEM_LIMIT_BYTES_def Let_def split: option.split)
qed

theorem vitals_failed_poll_witness:
  "latestRef (vitals_poll demo_vitals (700, False, Response 404 None)) =
     Some \<lparr>memUsedBytes = 0, memLimitBytes = 52428800, cpuPct = 0, wallMs = 700\<rparr>"
  using vitals_failed_poll[of demo_vitals "Response 404 None" 700] by (simp add: demo_vitals_def vitals_init_def vitals_effect_def)

text \<open>The memory colour. With a positive limit it is danger from 90 % of the limit, warn from
  70 %, ok below; with a limit of zero it is danger as soon as any memory is in use, and ok when
  the ratio is not a number.\<close>

theorem memColor_thresholds:
  assumes "0 \<le> used" "0 \<le> limit"
  shows "memColor used limit =
    (if limit = 0 then (if used = 0 then ''var(--color-ok)'' else ''var(--color-danger)'')
     else if 9 * limit \<le> 10 * used then ''var(--color-danger)''
     else if 7 * limit \<le> 10 * used then ''var(--color-warn)'' else ''var(--color-ok)'')"
proof (cases "limit = 0")
  case True
  with assms show ?thesis by (simp add: memColor_def mem_pct_def pctColor_def)
next
  case False
  with assms have pos: "0 < limit" by simp
  have "90 \<le> 100 * (used / limit) \<longleftrightarrow> 9 * limit \<le> 10 * used"
    "70 \<le> 100 * (used / limit) \<longleftrightarrow> 7 * limit \<le> 10 * used"
    using pos by (simp_all add: field_simps)
  with False show ?thesis by (simp add: memColor_def mem_pct_def pctColor_def)
qed

theorem memColor_thresholds_witness:
  "memColor 47185920 52428800 = ''var(--color-danger)'' \<and> memColor 1 0 = ''var(--color-danger)''"
  using memColor_thresholds[of 47185920 52428800] memColor_thresholds[of 1 0] by simp

text \<open>The elapsed time can read sixty seconds: after 119.6 s the panel shows ``1m 60s'', because
  the seconds are rounded after the minutes are taken off.\<close>

theorem formatWall_sixty_seconds: "formatWall 119600 = ''1m 60s''"
  by code_simp

end
