(* ===== verification/Chrome.thy ===== *)
theory Chrome
  imports Console Registry
begin

text \<open>
  The small parts around the console: \<open>Tooltip.tsx\<close>, \<open>ThemeToggle.tsx\<close> with the anti-flash script of
  \<open>app/layout.tsx\<close>, \<open>TerminalErrorBoundary.tsx\<close>, \<open>HelpOverlay.tsx\<close> and the bar of \<open>StatusBar.tsx\<close>.
\<close>

section \<open>Tooltip\<close>

text \<open>\<open>timers\<close> are the pending time-outs. \<open>timerRef\<close> keeps the id of the last one, also after it fired or
  was cleared.\<close>

record tooltip =
  tipVisible :: bool
  timerRef :: "nat option"
  timers :: "nat list"
  timerCount :: nat

definition tooltip_init :: tooltip where
  "tooltip_init = \<lparr>tipVisible = False, timerRef = None, timers = [], timerCount = 0\<rparr>"

definition tip_show :: "bool \<Rightarrow> tooltip \<Rightarrow> tooltip" where
  "tip_show disabled s =
     (if disabled then s
      else s\<lparr>timerRef := Some (timerCount s), timers := timers s @ [timerCount s], timerCount := timerCount s + 1\<rparr>)"

definition tip_hide :: "tooltip \<Rightarrow> tooltip" where
  "tip_hide s =
     (let s1 = (case timerRef s of None \<Rightarrow> s | Some i \<Rightarrow> s\<lparr>timers := removeAll i (timers s)\<rparr>)
      in s1\<lparr>tipVisible := False\<rparr>)"

definition tip_fired :: "nat \<Rightarrow> tooltip \<Rightarrow> tooltip" where
  "tip_fired i s = (if i \<in> set (timers s) then s\<lparr>timers := removeAll i (timers s), tipVisible := True\<rparr> else s)"

text \<open>Scrolling or a key hides the tip; the listeners are there only while it is visible.\<close>

definition tip_dismiss :: "tooltip \<Rightarrow> tooltip" where
  "tip_dismiss s = (if tipVisible s then s\<lparr>tipVisible := False\<rparr> else s)"

datatype tip_event = MouseEnter bool | Focus bool | MouseLeave | Blur | TipTimer nat | WindowEvent

fun tip_step :: "tooltip \<Rightarrow> tip_event \<Rightarrow> tooltip" where
  "tip_step s (MouseEnter disabled) = tip_show disabled s"
| "tip_step s (Focus disabled) = tip_show disabled s"
| "tip_step s MouseLeave = tip_hide s"
| "tip_step s Blur = tip_hide s"
| "tip_step s (TipTimer i) = tip_fired i s"
| "tip_step s WindowEvent = tip_dismiss s"

section \<open>Theme\<close>

record theme_page =
  htmlClasses :: "string list"
  storedTheme :: "string option"
  theme :: string

text \<open>The server renders \<open><html class="dark">\<close>; the inline script runs before the first paint, then the
  button mounts. \<open>localStorage\<close> is readable.\<close>

definition anti_flash :: "string option \<Rightarrow> string list \<Rightarrow> string list" where
  "anti_flash stored classes =
     (if stored = Some ''light'' then removeAll ''dark'' classes @ (if ''light'' \<in> set classes then [] else [''light''])
      else classes)"

definition toggle_mount :: "theme_page \<Rightarrow> theme_page" where
  "toggle_mount s = (case storedTheme s of
       Some (c # cs) \<Rightarrow> s\<lparr>theme := c # cs\<rparr>
     | _ \<Rightarrow> if ''light'' \<in> set (htmlClasses s) then s\<lparr>theme := ''light''\<rparr> else s)"

definition load_page :: "string option \<Rightarrow> theme_page" where
  "load_page stored = toggle_mount \<lparr>htmlClasses = anti_flash stored [''dark''], storedTheme = stored, theme = ''dark''\<rparr>"

text \<open>\<open>classList.toggle(c, force)\<close>\<close>

definition class_toggle :: "string \<Rightarrow> bool \<Rightarrow> string list \<Rightarrow> string list" where
  "class_toggle c force classes =
     (if force then (if c \<in> set classes then classes else classes @ [c]) else removeAll c classes)"

text \<open>A click; \<open>writable\<close> is false when storing the preference throws, which is ignored.\<close>

definition theme_toggle :: "bool \<Rightarrow> theme_page \<Rightarrow> theme_page" where
  "theme_toggle writable s =
     (let nxt = (if theme s = ''dark'' then ''light'' else ''dark'') in
      \<lparr>htmlClasses = class_toggle ''light'' (nxt = ''light'') (class_toggle ''dark'' (nxt = ''dark'') (htmlClasses s)),
       storedTheme = (if writable then Some nxt else storedTheme s), theme = nxt\<rparr>)"

definition toggle_label :: "theme_page \<Rightarrow> string" where
  "toggle_label s = (if theme s = ''dark'' then ''Switch to light mode'' else ''Switch to dark mode'')"

section \<open>Error boundary\<close>

text \<open>An error that reached the boundary, by its message and stack.\<close>

record boundary =
  hasError :: bool
  caught :: "(string \<times> string option) option"

definition boundary_init :: boundary where
  "boundary_init = \<lparr>hasError = False, caught = None\<rparr>"

definition boundary_catch :: "string \<times> string option \<Rightarrow> boundary \<Rightarrow> boundary" where
  "boundary_catch err s = \<lparr>hasError = True, caught = Some err\<rparr>"

definition boundary_reconnect :: "boundary \<Rightarrow> boundary" where
  "boundary_reconnect s = \<lparr>hasError = False, caught = None\<rparr>"

record panic =
  panicMessage :: string
  panicTrace :: "string list"

definition panic_digest :: "string \<Rightarrow> string" where
  "panic_digest stack =
     join [CHR 0x0A] (take 3 (drop 1 (filter (\<lambda>l. trim l \<noteq> []) (split_on (CHR 0x0A) stack))))"

text \<open>\<open>String(i).padStart(3, "0")\<close>\<close>

definition pad3 :: "nat \<Rightarrow> string" where
  "pad3 i = replicate (3 - length (nat_str i)) (CHR ''0'') @ nat_str i"

definition KernelPanic :: "(string \<times> string option) option \<Rightarrow> panic" where
  "KernelPanic err =
     (let message = (case err of None \<Rightarrow> ''Unknown error'' | Some (m, st) \<Rightarrow> m);
          stack = (case err of Some (m, Some st) \<Rightarrow> st | _ \<Rightarrow> []);
          digest = panic_digest stack
      in \<lparr>panicMessage = message,
          panicTrace = (if digest = [] then []
            else map (\<lambda>(i, line). ''['' @ pad3 i @ '']'' @ trim line) (enumerate 0 (split_on (CHR 0x0A) digest)))\<rparr>)"

text \<open>\<open>None\<close>: the terminal itself is on display.\<close>

definition boundary_view :: "boundary \<Rightarrow> panic option" where
  "boundary_view s = (if hasError s then Some (KernelPanic (caught s)) else None)"

section \<open>Help overlay\<close>

definition cmd_key :: string where "cmd_key = [CHR 0xE2, CHR 0x8C, CHR 0x98]"
definition enter_key :: string where "enter_key = [CHR 0xE2, CHR 0x86, CHR 0xB5]"
definition shift_key :: string where "shift_key = [CHR 0xE2, CHR 0x87, CHR 0xA7]"

definition SHORTCUTS :: "(string list \<times> string) list" where
  "SHORTCUTS =
     [([cmd_key, enter_key], ''Start sandbox session''),
      ([''Esc''], ''Stop running session''),
      ([cmd_key, shift_key, ''R''], ''Reset '' @ em_dash @ '' clear session and terminal''),
      ([''?''], ''Open this help overlay''),
      ([cmd_key, ''K''], ''Open command palette''),
      ([cmd_key, shift_key, ''T''], ''Switch to Terminal tab''),
      ([cmd_key, shift_key, ''P''], ''Switch to Preview tab'')]"

text \<open>The preview table, with the extensions of each line.\<close>

definition PREVIEWS :: "(string list \<times> string) list" where
  "PREVIEWS =
     [([''.csv''], ''Sortable, paginated data grid''),
      ([''.json'', ''.plot''], ''Auto-detected timeseries bar chart''),
      ([''.wasm''], ''Sections, exports & imports inspector''),
      ([''.log'', ''.txt''], ''Line-numbered log viewer (ANSI stripped)''),
      ([''.md''], ''Markdown rendered as plain text''),
      ([''.png'', ''.svg''], ''Image viewer'')]"

definition PANELS :: "(string \<times> string \<times> string) list" where
  "PANELS =
     [(''File Tree'', ''Left sidebar'',
       ''Shows all files written by the sandbox during execution. Updates every 3 s while a session is live. Click any file to open a preview.''),
      (''Console / Preview'', ''Top-right pane'',
       ''The Console tab shows the welcome screen and execution summary. The Preview tab opens automatically when you click a file in the tree.''),
      (''Execution Terminal'', ''Bottom-right pane'',
       ''Live WebSocket-streamed stdout and stderr from the WASM sandbox. Hardware-accelerated with WebGL. Supports keyboard input forwarded as stdin.''),
      (''Agent Vitals'', ''Toolbar (right) + Left sidebar (bottom)'',
       ''Real-time memory usage, CPU load, and wall-clock elapsed time. Sparklines are drawn at 60 FPS on a canvas element.'')]"

text \<open>\<open>handleKey\<close>, which listens on the window while the overlay is open; \<open>Workspace\<close> has the order of the
  handlers.\<close>

definition help_handleKey :: "key_event \<Rightarrow> ui_event list" where
  "help_handleKey e = (if evKey e = ''Escape'' then [CloseHelp] else [])"

section \<open>Status bar\<close>

record status_bar =
  barLabel :: string
  barSession :: "string option"
  barTip :: string
  barShortcuts :: "(string \<times> string) list"

definition StatusBar :: "console \<Rightarrow> status_bar" where
  "StatusBar s =
     (let cfg = STATE_CONFIG (sandboxState s) in
      \<lparr>barLabel = cfgLabel cfg, barSession = (if sessionId s = Some [] then None else sessionId s),
       barTip = cfgTip cfg, barShortcuts = cfgShortcuts cfg\<rparr>)"

section \<open>Proxy\<close>

text \<open>The rewrite of \<open>next.config.ts\<close>: a request below \<open>/api/v1/\<close> goes to the orchestrator.\<close>

definition api_rewrite :: "string \<Rightarrow> string option" where
  "api_rewrite url = (if starts_with ''/api/v1/'' url then Some (''http://localhost:8080/'' @ drop 8 url) else None)"

section \<open>Properties\<close>

text \<open>The requests of the file tree and of the previews are rewritten to the orchestrator's own paths.\<close>

lemma api_rewrite_requests:
  "api_rewrite (vfs_url sid) = Some (''http://localhost:8080/vfs/'' @ encodeURIComponent sid)"
  "api_rewrite (file_url sid path) =
     Some (''http://localhost:8080/vfs/'' @ encodeURIComponent sid @ ''/file?path='' @ encodeURIComponent path)"
  by (simp_all add: api_rewrite_def vfs_url_def file_url_def starts_with_def)

text \<open>The preview table names the extensions of the registry, line by line; other image types, and
  everything the registry shows raw, are not in it.\<close>

lemma previews_match_registry:
  "CHR ''.'' \<notin> set path \<Longrightarrow> map (\<lambda>(exts, l). map (\<lambda>e. detectKind (path @ e)) exts) PREVIEWS
     = [[KCsv], [KJson, KJson], [KWasm], [KLog, KLog], [KMd], [KImage, KImage]]"
  by (simp add: PREVIEWS_def detectKind_def file_ext_def Let_def to_lower_def lower_char_def)


text \<open>Events of a pointer alone: it enters and leaves in turn. The result says whether it ends inside.\<close>

fun hover :: "bool \<Rightarrow> tip_event list \<Rightarrow> bool option" where
  "hover inside [] = Some inside"
| "hover inside (MouseEnter disabled # es) = (if inside then None else hover True es)"
| "hover inside (MouseLeave # es) = (if inside then hover False es else None)"
| "hover inside (Focus disabled # es) = None"
| "hover inside (Blur # es) = None"
| "hover inside (TipTimer i # es) = hover inside es"
| "hover inside (WindowEvent # es) = hover inside es"

definition tip_inv :: "bool \<Rightarrow> tooltip \<Rightarrow> bool" where
  "tip_inv inside s \<longleftrightarrow> set (timers s) \<subseteq> set_option (timerRef s) \<and> (inside \<or> timers s = [] \<and> \<not> tipVisible s)"

lemma tip_inv_events:
  "tip_inv False s \<Longrightarrow> tip_inv True (tip_show d s)" "tip_inv b s \<Longrightarrow> tip_inv False (tip_hide s)"
  "tip_inv b s \<Longrightarrow> tip_inv b (tip_fired i s)" "tip_inv b s \<Longrightarrow> tip_inv b (tip_dismiss s)"
proof -
  show "tip_inv False s \<Longrightarrow> tip_inv True (tip_show d s)" by (simp add: tip_inv_def tip_show_def)
  show "tip_inv b s \<Longrightarrow> tip_inv False (tip_hide s)"
    by (cases "timerRef s") (auto simp: tip_inv_def tip_hide_def removeAll_filter_not_eq filter_empty_conv)
  show "tip_inv b s \<Longrightarrow> tip_inv b (tip_fired i s)" by (auto simp: tip_inv_def tip_fired_def)
  show "tip_inv b s \<Longrightarrow> tip_inv b (tip_dismiss s)" by (auto simp: tip_inv_def tip_dismiss_def)
qed

lemma tip_inv_run: "\<lbrakk>tip_inv b s; hover b es = Some b'\<rbrakk> \<Longrightarrow> tip_inv b' (foldl tip_step s es)"
proof (induction b es arbitrary: s rule: hover.induct)
  case (2 inside disabled es)
  then show ?case using tip_inv_events(1)[of s disabled] by (cases inside) auto
next
  case (3 inside es)
  then show ?case using tip_inv_events(2)[of inside s] by (cases inside) auto
next
  case (6 inside i es)
  then show ?case using tip_inv_events(3)[of inside s i] by auto
next
  case (7 inside es)
  then show ?case using tip_inv_events(4)[of inside s] by auto
qed simp_all

text \<open>As long as only the pointer is involved, a tooltip is gone when the pointer is: after any sequence
  of entering and leaving in turn, timers, scrolling and keys, with the pointer outside, nothing is
  displayed and no timer is pending.\<close>

theorem tooltip_gone_outside:
  assumes "hover False es = Some False"
  shows "\<not> tipVisible (foldl tip_step tooltip_init es) \<and> timers (foldl tip_step tooltip_init es) = []"
proof -
  have "tip_inv False tooltip_init" by (simp add: tip_inv_def tooltip_init_def)
  from tip_inv_run[OF this assms] show ?thesis by (simp add: tip_inv_def)
qed

theorem tooltip_gone_outside_witness:
  "\<not> tipVisible (foldl tip_step tooltip_init [MouseEnter False, TipTimer 0, WindowEvent, MouseLeave, MouseEnter False, MouseLeave])"
  using tooltip_gone_outside[of "[MouseEnter False, TipTimer 0, WindowEvent, MouseLeave, MouseEnter False, MouseLeave]"]
  by simp

text \<open>With the keyboard focus as well, the second call of \<open>show\<close> forgets the first timer, and the tooltip
  appears after pointer and focus have both left.\<close>

lemma tooltip_forgotten_timer:
  "tipVisible (foldl tip_step tooltip_init [MouseEnter False, Focus False, MouseLeave, Blur, TipTimer 0])"
  by code_simp

text \<open>The page has exactly the class of the theme.\<close>

definition theme_inv :: "theme_page \<Rightarrow> bool" where
  "theme_inv s \<longleftrightarrow> theme s \<in> {''dark'', ''light''} \<and> htmlClasses s = [theme s]"

lemma load_page_inv:
  "stored \<in> {None, Some ''dark'', Some ''light''} \<Longrightarrow>
     theme_inv (load_page stored) \<and> load_page stored =
       \<lparr>htmlClasses = [if stored = Some ''light'' then ''light'' else ''dark''], storedTheme = stored,
        theme = (if stored = Some ''light'' then ''light'' else ''dark'')\<rparr>"
  by (auto simp: theme_inv_def load_page_def toggle_mount_def anti_flash_def)

lemma theme_toggle_inv: "theme_inv s \<Longrightarrow> theme_inv (theme_toggle w s)"
  by (auto simp: theme_inv_def theme_toggle_def class_toggle_def Let_def)

interpretation theme_machine: machine "\<lambda>s w. theme_toggle w s" theme_inv
  by unfold_locales (rule theme_toggle_inv)

text \<open>The theme is one thing everywhere and survives a reload: after loading the page with no or a valid
  stored preference and clicking the toggle any number of times, the document has exactly the class of
  the theme, the terminal palette is that theme's, and, if every preference could be stored, loading
  the page again gives the same state.\<close>

theorem theme_survives_reload:
  assumes "stored \<in> {None, Some ''dark'', Some ''light''}" "s = foldl (\<lambda>s w. theme_toggle w s) (load_page stored) ws"
  shows "htmlClasses s = [theme s] \<and>
    getXtermTheme (htmlClasses s) = (if theme s = ''light'' then XTERM_LIGHT else XTERM_DARK) \<and>
    ((\<forall>w \<in> set ws. w) \<longrightarrow> load_page (storedTheme s) = s)"
proof -
  have inv: "theme_inv s" unfolding assms(2)
    by (rule theme_machine.inv_run[OF conjunct1[OF load_page_inv[OF assms(1)]]])
  have "load_page (storedTheme s) = s" if "\<forall>w \<in> set ws. w"
  proof -
    have step: "load_page (storedTheme (theme_toggle True s)) = theme_toggle True s" if "theme_inv s" for s
    proof -
      have "theme_toggle True s = \<lparr>htmlClasses = [if theme s = ''dark'' then ''light'' else ''dark''],
          storedTheme = Some (if theme s = ''dark'' then ''light'' else ''dark''),
          theme = (if theme s = ''dark'' then ''light'' else ''dark'')\<rparr>"
        using that by (auto simp: theme_inv_def theme_toggle_def class_toggle_def Let_def)
      then show ?thesis using load_page_inv by simp
    qed
    have "theme_inv (load_page stored)" "load_page (storedTheme (load_page stored)) = load_page stored"
      using load_page_inv[OF assms(1)] by (simp_all add: theme_inv_def)
    then show ?thesis unfolding assms(2)
      by (rule theme_machine.guarded_run) (use that step in \<open>metis (full_types)\<close>)
  qed
  then show ?thesis using inv by (auto simp: theme_inv_def getXtermTheme_def)
qed

theorem theme_survives_reload_witness:
  "load_page (storedTheme (foldl (\<lambda>s w. theme_toggle w s) (load_page (Some ''light'')) [True, True, True]))
     = foldl (\<lambda>s w. theme_toggle w s) (load_page (Some ''light'')) [True, True, True]"
proof -
  let ?ws = "[True, True, True]" and ?st = "Some ''light'' :: string option"
  have "?st \<in> {None, Some ''dark'', Some ''light''}" "\<forall>w \<in> set ?ws. w" by simp_all
  from theme_survives_reload[OF this(1) refl, of ?ws] this(2) show ?thesis by blast
qed

text \<open>The key event of a line of the shortcut table, on a Mac or elsewhere.\<close>

definition shortcut_event :: "bool \<Rightarrow> string list \<Rightarrow> key_event" where
  "shortcut_event isMac ks =
     \<lparr>evKey = (if last ks = enter_key then ''Enter'' else if last ks = ''Esc'' then ''Escape''
        else if last ks = ''K'' then ''k'' else last ks),
      evMeta = (isMac \<and> cmd_key \<in> set ks), evCtrl = (\<not> isMac \<and> cmd_key \<in> set ks),
      evShift = (shift_key \<in> set ks), evInText = False\<rparr>"

text \<open>The shortcuts of the help overlay do what it says, on every platform, while the overlay is closed: in the console's key handler
  they start, stop and reset the session, open the help (twice) and switch the tabs.\<close>

theorem help_shortcuts_work:
  assumes "\<not> helpOpen s" "previewFile s = Some (c # cs)"
  shows "map (\<lambda>(ks, d). console_step isMac s (Key now (shortcut_event isMac ks))) SHORTCUTS =
    [console_step isMac s (ClickRun now), console_step isMac s ClickStop, console_step isMac s ClickReset,
     console_step isMac s ClickHelp, console_step isMac s ClickHelp,
     console_step isMac s (ClickTab TabTerminal), console_step isMac s (ClickTab TabPreview)]"
  using assms by (simp add: SHORTCUTS_def shortcut_event_def console_step_def keyboard_def Let_def
      cmd_key_def enter_key_def shift_key_def handleRun_def handleStop_def)

theorem help_shortcuts_work_witness:
  "console_step False (console_init\<lparr>previewFile := Some ''/a''\<rparr>) (Key 5 (shortcut_event False [cmd_key, shift_key, ''R'']))
     = console_step False (console_init\<lparr>previewFile := Some ''/a''\<rparr>) ClickReset"
proof -
  let ?s = "console_init\<lparr>previewFile := Some ''/a''\<rparr>"
  have "\<not> helpOpen ?s" "previewFile ?s = Some (CHR ''/'' # ''a'')" by (simp_all add: console_init_def)
  from help_shortcuts_work[OF this, of False 5] show ?thesis
    by (simp only: SHORTCUTS_def list.map list.inject prod.case)
qed

text \<open>The call trace of the panic screen: of a stack whose lines are not blank, the second to the fourth.\<close>

lemma panic_digest_lines:
  assumes "\<forall>l \<in> set ls. trim l \<noteq> [] \<and> CHR 0x0A \<notin> set l" "ls \<noteq> []"
  shows "panic_digest (join [CHR 0x0A] ls) = join [CHR 0x0A] (take 3 (tl ls))"
  using assms by (simp add: panic_digest_def split_on_join filter_True drop_Suc)

end
