(* ===== verification/App.thy ===== *)
theory App
  imports System Vitals Chrome
begin

text \<open>
  The page as a whole: console and terminal (\<open>System\<close>) with the error boundary around the terminal, the
  vitals in the toolbar (\<open>vit\<close>) and in the sidebar (\<open>side\<close>, mounted by the first session), and the file
  tree. The effects of these children follow the console's session. A response of the vitals is one of
  the current run of their effect: those of earlier runs are dropped by their \<open>cancelled\<close> flag.

  When the terminal throws while rendering, the boundary unmounts it and shows the panic screen; the
  console is told through \<open>onCrash\<close>. Reconnect mounts a new terminal. In between the console works on
  without one. The sockets of an unmounted terminal can no longer report anything
  (\<open>unmounted_terminal_is_silent\<close>), so they are not kept.
\<close>

section \<open>Definitions\<close>

record ('d, 'c) app =
  sys :: system
  bnd :: boundary
  vit :: vitals
  side :: "vitals option"
  tree :: "('d, 'c) vft"

definition app_init :: "('d, 'c) automerge \<Rightarrow> ('d, 'c) app" where
  "app_init am = \<lparr>sys = sys_init, bnd = boundary_init, vit = vitals_init, side = None, tree = vft_init am\<rparr>"

text \<open>\<open>running && sessionId\<close> of the vitals.\<close>

definition vitals_active :: "console \<Rightarrow> bool" where
  "vitals_active c \<longleftrightarrow> sandboxState c = SRunning \<and> sessionId c \<noteq> None \<and> sessionId c \<noteq> Some []"

text \<open>The vitals when the console has changed: their effect runs again if \<open>running\<close> or \<open>sessionId\<close> did.\<close>

definition vitals_rerender :: "nat \<Rightarrow> console \<Rightarrow> console \<Rightarrow> vitals \<Rightarrow> vitals" where
  "vitals_rerender now old new v =
     (if (sandboxState old = SRunning) = (sandboxState new = SRunning) \<and> sessionId old = sessionId new
      then v else vitals_effect (vitals_active new) now (vitals_cleanup v))"

definition sidebar_vitals :: "nat \<Rightarrow> console \<Rightarrow> console \<Rightarrow> vitals option \<Rightarrow> vitals option" where
  "sidebar_vitals now old new v =
     (if \<not> showVitals new then None
      else case v of None \<Rightarrow> Some (vitals_effect (vitals_active new) now vitals_init)
        | Some v' \<Rightarrow> Some (vitals_rerender now old new v'))"

text \<open>After the console has changed: the effects of the children whose dependencies changed run again.\<close>

definition children_effects ::
  "('d, 'c) automerge \<Rightarrow> nat \<Rightarrow> console \<Rightarrow> console \<Rightarrow> ('d, 'c) app \<Rightarrow> ('d, 'c) app" where
  "children_effects am now old new a =
     a\<lparr>vit := vitals_rerender now old new (vit a),
       side := sidebar_vitals now old new (side a),
       tree := (if sessionId old = sessionId new then tree a else vft_step am (tree a) (SetSession (sessionId new)))\<rparr>"

datatype 'c app_event =
    ASys sys_event
  | AVitals "nat \<times> bool \<times> vitals_json http"
  | ASidebar "nat \<times> bool \<times> vitals_json http"
  | ATree "'c vft_event"
  | ACrash "string \<times> string option"
  | AReconnect

text \<open>Events of the console that only a child can cause: they come with that child's event.\<close>

fun from_child :: "ui_event \<Rightarrow> bool" where
  "from_child RendererCrashed \<longleftrightarrow> True"
| "from_child ClickReconnect \<longleftrightarrow> True"
| "from_child (SelectFile p) \<longleftrightarrow> True"
| "from_child (SessionEnded x y z) \<longleftrightarrow> True"
| "from_child _ \<longleftrightarrow> False"

text \<open>An event of the console or of the terminal; behind the panic screen there is no terminal.\<close>

definition deliver :: "page \<Rightarrow> bool \<Rightarrow> boundary \<Rightarrow> system \<Rightarrow> sys_event \<Rightarrow> system" where
  "deliver pg isMac b s e =
     (if \<not> hasError b then sys_step pg isMac s e
      else case e of UI u \<Rightarrow> s\<lparr>con := console_step isMac (con s) u\<rparr> | TE t \<Rightarrow> s)"

definition crash :: "page \<Rightarrow> bool \<Rightarrow> system \<Rightarrow> system" where
  "crash pg isMac s = \<lparr>con = console_step isMac (con s) RendererCrashed, trm = term_step pg (trm s) TermUnmount\<rparr>"

definition reconnect :: "bool \<Rightarrow> system \<Rightarrow> system" where
  "reconnect isMac s = \<lparr>con = console_step isMac (con s) ClickReconnect, trm = terminal_init\<rparr>"

definition with_sys :: "('d, 'c) automerge \<Rightarrow> nat \<Rightarrow> system \<Rightarrow> ('d, 'c) app \<Rightarrow> ('d, 'c) app" where
  "with_sys am now s' a = children_effects am now (con (sys a)) (con s') (a\<lparr>sys := s'\<rparr>)"

text \<open>One event at the time \<open>now\<close>. Selecting a file in the tree also reaches the console.\<close>

fun app_step ::
  "('d, 'c) automerge \<Rightarrow> page \<Rightarrow> bool \<Rightarrow> ('d, 'c) app \<Rightarrow> nat \<times> 'c app_event \<Rightarrow> ('d, 'c) app" where
  "app_step am pg isMac a (now, ASys (UI u)) =
     (if from_child u then a else with_sys am now (deliver pg isMac (bnd a) (sys a) (UI u)) a)"
| "app_step am pg isMac a (now, ASys (TE t)) = with_sys am now (deliver pg isMac (bnd a) (sys a) (TE t)) a"
| "app_step am pg isMac a (now, AVitals x) = a\<lparr>vit := vitals_poll (vit a) x\<rparr>"
| "app_step am pg isMac a (now, ASidebar x) = a\<lparr>side := map_option (\<lambda>v. vitals_poll v x) (side a)\<rparr>"
| "app_step am pg isMac a (now, ATree (SetSession sid)) = a"
| "app_step am pg isMac a (now, ATree (HandleSelect p)) =
     with_sys am now (deliver pg isMac (bnd a) (sys a) (UI (SelectFile p)))
       (a\<lparr>tree := vft_step am (tree a) (HandleSelect p)\<rparr>)"
| "app_step am pg isMac a (now, ATree e) = a\<lparr>tree := vft_step am (tree a) e\<rparr>"
| "app_step am pg isMac a (now, ACrash err) =
     (if hasError (bnd a) then a
      else with_sys am now (crash pg isMac (sys a)) (a\<lparr>bnd := boundary_catch err (bnd a)\<rparr>))"
| "app_step am pg isMac a (now, AReconnect) =
     (if hasError (bnd a)
      then with_sys am now (reconnect isMac (sys a)) (a\<lparr>bnd := boundary_reconnect (bnd a)\<rparr>) else a)"

section \<open>The children follow the session\<close>

definition vit_follows :: "console \<Rightarrow> vitals \<Rightarrow> bool" where
  "vit_follows c v \<longleftrightarrow> (vitCancelled v \<longleftrightarrow> \<not> vitals_active c) \<and> (vitals_active c \<or> snapshotsRef v = [] \<and> latestRef v = None)"

definition side_follows :: "console \<Rightarrow> vitals option \<Rightarrow> bool" where
  "side_follows c v \<longleftrightarrow> (v \<noteq> None \<longleftrightarrow> showVitals c) \<and> pred_option (vit_follows c) v"

definition tree_follows :: "console \<Rightarrow> ('d, 'c) vft \<Rightarrow> bool" where
  "tree_follows c t \<longleftrightarrow> vft_inv t \<and> (\<forall>ld \<in> set (loaders t). \<not> ldCancelled ld \<longrightarrow> Some (ldSession ld) = sessionId c)"

definition sys_ok :: "boundary \<Rightarrow> system \<Rightarrow> bool" where
  "sys_ok b s \<longleftrightarrow> (if hasError b then console_inv (con s) \<and> term_inv (trm s) \<and> wsEffect (trm s) = None else sys_inv s)"

definition app_inv :: "('d, 'c) app \<Rightarrow> bool" where
  "app_inv a \<longleftrightarrow> sys_ok (bnd a) (sys a) \<and> vit_follows (con (sys a)) (vit a) \<and> side_follows (con (sys a)) (side a) \<and>
     tree_follows (con (sys a)) (tree a)"

lemma vit_follows_poll: "vit_follows c v \<Longrightarrow> vit_follows c (vitals_poll v x)"
  by (cases x) (auto simp: vit_follows_def vitals_poll_def Let_def split: VitalsFetchResult.split)

lemma vit_follows_effect: "vitCancelled v \<Longrightarrow> vit_follows c (vitals_effect (vitals_active c) now v)"
  by (simp add: vit_follows_def vitals_effect_def)

lemma vit_follows_rerender: "vit_follows c v \<Longrightarrow> vit_follows c' (vitals_rerender now c c' v)"
  using vit_follows_effect[of "vitals_cleanup v" c' now]
  by (auto simp: vitals_rerender_def vit_follows_def vitals_active_def vitals_cleanup_def)

lemma side_follows_rerender: "side_follows c v \<Longrightarrow> side_follows c' (sidebar_vitals now c c' v)"
  by (auto simp: side_follows_def sidebar_vitals_def vit_follows_rerender vit_follows_effect vitals_init_def
      split: option.split)

lemma side_follows_poll: "side_follows c v \<Longrightarrow> side_follows c (map_option (\<lambda>v. vitals_poll v x) v)"
  by (cases v) (simp_all add: side_follows_def vit_follows_poll)

lemma tree_follows_session: "tree_follows c (session_effect am (sessionId c) t)"
proof -
  have "\<forall>ld \<in> set (loaders (session_effect am (sessionId c) t)). \<not> ldCancelled ld \<longrightarrow> Some (ldSession ld) = sessionId c"
    by (auto simp: session_effect_def Let_def cleanup_def new_loader_def split: option.split list.split)
  then show ?thesis by (simp add: tree_follows_def vft_inv_SetSession)
qed

lemma load_session: "ldSession (fst (load am ld r s)) = ldSession ld" "ldCancelled (fst (load am ld r s)) = ldCancelled ld"
  by (cases "ldCancelled ld"; simp add: load_loader load_when_cancelled Let_def)+

lemma tree_follows_event: "tree_follows c t \<Longrightarrow> (\<And>sid. e \<noteq> SetSession sid) \<Longrightarrow> tree_follows c (vft_step am t e)"
proof (cases e)
  case (LoadDone i r)
  assume t: "tree_follows c t"
  show ?thesis
  proof (cases "i < length (loaders t)")
    case True
    have "Some (ldSession ld) = sessionId c"
      if "ld \<in> set ((loaders t)[i := fst (load am (loaders t ! i) r t)])" "\<not> ldCancelled ld" for ld
      using that t True set_update_subset_insert[of "loaders t" i "fst (load am (loaders t ! i) r t)"]
      by (auto simp: tree_follows_def load_session)
    with t True LoadDone vft_inv_step[of t am e] show ?thesis
      by (simp add: tree_follows_def vft_step_LoadDone del: vft_step.simps)
  qed (use t LoadDone in simp)
qed (auto simp: tree_follows_def vft_inv_def)

text \<open>The three follow any change of the console.\<close>

definition children_follow :: "('d, 'c) app \<Rightarrow> bool" where
  "children_follow a \<longleftrightarrow> vit_follows (con (sys a)) (vit a) \<and> side_follows (con (sys a)) (side a) \<and>
     tree_follows (con (sys a)) (tree a)"

lemma with_sys_follow: "children_follow a \<Longrightarrow> children_follow (with_sys am now s' a)"
  unfolding children_follow_def with_sys_def children_effects_def
  using tree_follows_session[of "con s'" am "tree a"]
  by (auto simp: vit_follows_rerender side_follows_rerender tree_follows_def)

lemma with_sys_inv:
  assumes "sys_ok (bnd a) s'" "vit_follows (con (sys a)) (vit a)" "side_follows (con (sys a)) (side a)"
    "tree_follows (con (sys a)) (tree a)"
  shows "app_inv (with_sys am now s' a)"
proof -
  have "children_follow (with_sys am now s' a)" using assms(2-4) by (intro with_sys_follow) (simp add: children_follow_def)
  with assms(1) show ?thesis by (simp add: app_inv_def children_follow_def) (simp add: with_sys_def children_effects_def)
qed

lemma deliver_ok: "sys_ok b s \<Longrightarrow> sys_ok b (deliver pg isMac b s e)"
  by (cases e) (auto simp: sys_ok_def deliver_def sys_inv_step console_inv_step simp del: sys_step.simps)

lemma crash_ok: "sys_inv s \<Longrightarrow> hasError b \<Longrightarrow> sys_ok b (crash pg isMac s)"
proof -
  assume s: "sys_inv s" "hasError b"
  then have "term_inv (term_step pg (trm s) TermUnmount)" by (intro term_inv_step) (simp add: sys_inv_def)
  moreover have "wsEffect (term_step pg (trm s) TermUnmount) = None"
    by (simp add: terminal_unmount_def Let_def ws_cleanup_effect split: option.split)
  ultimately show ?thesis using s by (simp add: sys_ok_def crash_def console_inv_step sys_inv_def del: term_step.simps)
qed

lemma reconnect_ok: "console_inv (con s) \<Longrightarrow> \<not> hasError b \<Longrightarrow> sys_ok b (reconnect isMac s)"
proof -
  assume c: "console_inv (con s)" "\<not> hasError b"
  have "sandboxState (console_step isMac (con s) ClickReconnect) = SIdle"
    by (simp add: console_step_def handleReconnect_def vitals_shown_def)
  then have "linked (console_step isMac (con s) ClickReconnect) terminal_init"
    by (simp add: linked_def terminal_init_def)
  then show ?thesis using c by (simp add: sys_ok_def reconnect_def sys_inv_def console_inv_step term_inv_init)
qed

lemma app_inv_step: "app_inv a \<Longrightarrow> app_inv (app_step am pg isMac a e)"
proof -
  assume "app_inv a"
  then have p: "sys_ok (bnd a) (sys a)" "vit_follows (con (sys a)) (vit a)" "side_follows (con (sys a)) (side a)"
    "tree_follows (con (sys a)) (tree a)"
    by (simp_all add: app_inv_def)
  obtain now ev where e: "e = (now, ev)" by (cases e) auto
  show ?thesis
  proof (cases ev)
    case (ASys s)
    then show ?thesis using p \<open>app_inv a\<close> unfolding e by (cases s) (simp_all add: with_sys_inv deliver_ok)
  next
    case (AVitals x)
    then show ?thesis using p unfolding e by (simp add: app_inv_def vit_follows_poll)
  next
    case (ASidebar x)
    then show ?thesis using p unfolding e by (simp add: app_inv_def side_follows_poll)
  next
    case (ATree te)
    then show ?thesis using p \<open>app_inv a\<close> tree_follows_event[of "con (sys a)" "tree a" te am] unfolding e
      by (cases te) (simp_all add: with_sys_inv deliver_ok app_inv_def[of "a\<lparr>tree := t\<rparr>" for t] del: vft_step.simps)
  next
    case (ACrash err)
    then show ?thesis using p \<open>app_inv a\<close> unfolding e
      by (simp add: with_sys_inv crash_ok sys_ok_def[of "bnd a"] boundary_catch_def)
  next
    case AReconnect
    then show ?thesis using p \<open>app_inv a\<close> unfolding e
      by (simp add: with_sys_inv reconnect_ok sys_ok_def[of "bnd a"] boundary_reconnect_def)
  qed
qed

lemma app_inv_init: "app_inv (app_init am)"
proof -
  have "sandboxState (con sys_init) = SIdle" "\<not> showVitals (con sys_init)" by (simp_all add: sys_init_def console_init_def)
  then show ?thesis
    by (simp add: app_inv_def app_init_def sys_ok_def boundary_init_def sys_inv_init vit_follows_def side_follows_def tree_follows_def
        vft_inv_def vitals_active_def vitals_init_def vft_init_def)
qed

interpretation app_machine: started_machine "app_step am pg isMac" app_inv "app_init am" for am pg isMac
  by unfold_locales (rule app_inv_step, assumption, rule app_inv_init)

lemma with_sys_fields [simp]: "sys (with_sys am now s' a) = s'" "bnd (with_sys am now s' a) = bnd a"
  by (simp_all add: with_sys_def children_effects_def)

lemma app_inv_parts:
  assumes "app_inv a"
  shows "\<forall>v \<in> insert (vit a) (set_option (side a)).
      (vitCancelled v \<longleftrightarrow> sandboxState (con (sys a)) \<noteq> SRunning) \<and>
      (sandboxState (con (sys a)) \<noteq> SRunning \<longrightarrow> snapshotsRef v = [] \<and> latestRef v = None)"
    and "sandboxState (con (sys a)) = SRunning \<longrightarrow> side a \<noteq> None"
    and "\<forall>ld \<in> set (loaders (tree a)). \<not> ldCancelled ld \<longrightarrow> sessionId (con (sys a)) = Some (ldSession ld)"
    and "wsEffect (trm (sys a)) \<noteq> None \<longleftrightarrow> sandboxState (con (sys a)) = SRunning \<and> \<not> hasError (bnd a)"
proof -
  define c where "c = con (sys a)"
  have inv: "sys_ok (bnd a) (sys a)" "vit_follows c (vit a)" "side_follows c (side a)" "tree_follows c (tree a)"
    using assms by (simp_all add: app_inv_def c_def)
  have con: "console_inv c" using inv(1) by (auto simp: c_def sys_ok_def sys_inv_def split: if_splits)
  have act: "vitals_active c \<longleftrightarrow> sandboxState c = SRunning"
    using con by (auto simp: vitals_active_def console_inv_def)
  have "(vitCancelled v \<longleftrightarrow> sandboxState c \<noteq> SRunning) \<and>
      (sandboxState c \<noteq> SRunning \<longrightarrow> snapshotsRef v = [] \<and> latestRef v = None)"
    if "v \<in> insert (vit a) (set_option (side a))" for v
  proof -
    have "vit_follows c v" using inv(2,3) that by (auto simp: side_follows_def)
    then show ?thesis unfolding vit_follows_def act by blast
  qed
  then show "\<forall>v \<in> insert (vit a) (set_option (side a)).
      (vitCancelled v \<longleftrightarrow> sandboxState (con (sys a)) \<noteq> SRunning) \<and>
      (sandboxState (con (sys a)) \<noteq> SRunning \<longrightarrow> snapshotsRef v = [] \<and> latestRef v = None)"
    unfolding c_def[symmetric] by (rule ballI)
  show "sandboxState (con (sys a)) = SRunning \<longrightarrow> side a \<noteq> None"
    using inv(3) con by (auto simp: c_def side_follows_def console_inv_def)
  show "\<forall>ld \<in> set (loaders (tree a)). \<not> ldCancelled ld \<longrightarrow> sessionId (con (sys a)) = Some (ldSession ld)"
    using inv(4) by (auto simp: c_def tree_follows_def)
  show "wsEffect (trm (sys a)) \<noteq> None \<longleftrightarrow> sandboxState (con (sys a)) = SRunning \<and> \<not> hasError (bnd a)"
    using inv(1) by (auto simp: sys_ok_def sys_inv_def linked_def split: if_splits)
qed

section \<open>Properties\<close>

text \<open>C13: The parts of the page follow the session, in every reachable state and whatever order events come
  in: both displays of the vitals poll exactly while a session runs and otherwise have nothing to show, the
  one in the sidebar being there whenever a session runs; a live loader of
  the file tree belongs to the session of the console; and the terminal has a current socket exactly
  while a session runs, unless the panic screen is on display, behind which there is none.\<close>

theorem page_follows_session:
  "case foldl (app_step am pg isMac) (app_init am) es of a \<Rightarrow> case con (sys a) of c \<Rightarrow>
     (\<forall>v \<in> insert (vit a) (set_option (side a)). (vitCancelled v \<longleftrightarrow> sandboxState c \<noteq> SRunning) \<and>
       (sandboxState c \<noteq> SRunning \<longrightarrow> snapshotsRef v = [] \<and> latestRef v = None)) \<and>
     (sandboxState c = SRunning \<longrightarrow> side a \<noteq> None) \<and>
     (\<forall>ld \<in> set (loaders (tree a)). \<not> ldCancelled ld \<longrightarrow> sessionId c = Some (ldSession ld)) \<and>
     (wsEffect (trm (sys a)) \<noteq> None \<longleftrightarrow> sandboxState c = SRunning \<and> \<not> hasError (bnd a))"
  using app_inv_parts[OF app_machine.reachable_inv[of am pg isMac es]] by simp

theorem page_follows_session_witness:
  "snapshotsRef (vit (foldl (app_step plain_doc demo_page True) (app_init plain_doc)
     [(7, ASys (UI (ClickRun 7))), (9, AVitals (9, False, FetchThrows TypeError)), (11, ASys (UI ClickStop))])) = []"
proof -
  let ?es = "[(7, ASys (UI (ClickRun 7))), (9, AVitals (9, False, FetchThrows TypeError)), (11, ASys (UI ClickStop))]"
  let ?a = "foldl (app_step plain_doc demo_page True) (app_init plain_doc) ?es"
  have "con (sys ?a) = console_step True (console_step True console_init (ClickRun 7)) ClickStop"
    by (simp add: app_init_def boundary_init_def deliver_def sys_init_def sync_def)
  then have "sandboxState (con (sys ?a)) \<noteq> SRunning"
    by (simp add: console_step_def handler_defs console_init_def)
  with page_follows_session[where am = plain_doc and pg = demo_page and isMac = True and es = ?es] show ?thesis
    by (simp del: app_step.simps foldl.simps)
qed

text \<open>C34: Behind the panic screen Run does nothing but claim to: the console shows a running session, yet
  no socket is opened, and no event of the terminal's ends that state.\<close>

theorem run_behind_panic:
  assumes "a = foldl (app_step am pg isMac) (app_init am) es" "hasError (bnd a)"
    and "a' = foldl (app_step am pg isMac) (app_step am pg isMac a (now, ASys (UI (ClickRun t)))) (map (\<lambda>e. (now, ASys (TE e))) ts)"
  shows "sandboxState (con (sys a')) = SRunning \<and> trm (sys a') = trm (sys a) \<and> wsEffect (trm (sys a')) = None"
proof -
  have "app_inv a" unfolding assms(1) by (rule app_machine.reachable_inv)
  then have ws: "wsEffect (trm (sys a)) = None" using assms(2) by (simp add: app_inv_def sys_ok_def)
  have run: "sandboxState (console_step isMac c (ClickRun t)) = SRunning" for c
    by (simp add: console_step_def handleRun_def vitals_shown_def)
  let ?Q = "\<lambda>b. hasError (bnd b) \<and> sandboxState (con (sys b)) = SRunning \<and> trm (sys b) = trm (sys a)"
  have "?Q (app_step am pg isMac a (now, ASys (UI (ClickRun t))))" using assms(2) run by (simp add: deliver_def)
  then have "?Q a'" unfolding assms(3)
    by (rule foldl_keeps) (auto simp: deliver_def)
  with ws show ?thesis by simp
qed

theorem run_behind_panic_witness:
  "sandboxState (con (sys (foldl (app_step plain_doc demo_page True)
     (app_step plain_doc demo_page True
       (foldl (app_step plain_doc demo_page True) (app_init plain_doc) [(1, ACrash (''boom'', None))]) (2, ASys (UI (ClickRun 2))))
     (map (\<lambda>e. (2, ASys (TE e))) [SockOpened 0])))) = SRunning"
proof -
  have "hasError (bnd (foldl (app_step plain_doc demo_page True) (app_init plain_doc) [(1, ACrash (''boom'', None))]))"
    by (simp add: app_init_def boundary_init_def boundary_catch_def)
  from run_behind_panic[OF refl this refl, of 2 2 "[SockOpened 0]"] show ?thesis by (rule conjunct1)
qed

text \<open>Reconnect leaves the panic screen with a new terminal, and without the session: the id is gone and
  the file tree has no active session.\<close>

lemma reconnect_forgets_session:
  assumes "hasError (bnd a)" "a' = app_step am pg isMac a (now, AReconnect)"
  shows "boundary_view (bnd a') = None \<and> trm (sys a') = terminal_init \<and> sandboxState (con (sys a')) = SIdle \<and>
    sessionId (con (sys a')) = None \<and> VirtualFileTree lc (sessionId (con (sys a'))) None (tree a') = NoActiveSession"
  using assms by (simp add: boundary_reconnect_def boundary_view_def reconnect_def console_step_def handleReconnect_def
      vitals_shown_def VirtualFileTree_def Let_def)

text \<open>What an unmounted terminal's sockets still deliver is not reported.\<close>

lemma unmounted_terminal_is_silent:
  assumes "term_inv s" "\<And>e. e \<in> set es \<Longrightarrow> \<not> is_props e"
  shows "ended (foldl (term_step pg) (term_step pg s TermUnmount) es) = ended (term_step pg s TermUnmount)"
proof -
  let ?s = "term_step pg s TermUnmount"
  have off: "wsEffect ?s = None" by (simp add: terminal_unmount_def Let_def ws_cleanup_effect split: option.split)
  have "wsEffect (foldl (term_step pg) ?s es) = None \<and> ended (foldl (term_step pg) ?s es) = ended ?s"
    by (rule term_machine.guarded_run[OF term_inv_step[OF assms(1)]])
       (use off assms(2) intentional_step in \<open>auto simp del: term_step.simps\<close>)
  then show ?thesis by simp
qed

end
