(* ===== verification/Double.thy ===== *)
theory Double
  imports Prelude "HOL-Library.Log_Nat"
begin

text \<open>
  Double precision: the nearest double of an exact number, ties to even, with gradual underflow and with
  overflow to the infinities. It is what \<open>Number\<close> makes of the number a text denotes, and what a
  subtraction makes of the difference.
\<close>

section \<open>Rounding\<close>

definition two_to :: "int \<Rightarrow> rat" where
  "two_to e = (if 0 \<le> e then of_int (2 ^ nat e) else 1 / of_int (2 ^ nat (- e)))"

text \<open>The exponent of a positive number: the largest power of two that is not above it.\<close>

definition exponent_of :: "rat \<Rightarrow> int" where
  "exponent_of x = (case quotient_of x of (a, b) \<Rightarrow>
     let k = bitlen a - bitlen b in if two_to k \<le> x then k else k - 1)"

definition round_even :: "rat \<Rightarrow> int" where
  "round_even x =
     (let f = \<lfloor>x\<rfloor>; r = x - of_int f in
      if r < 1 / 2 \<or> r = 1 / 2 \<and> even f then f else f + 1)"

text \<open>The exponent of the last of the 53 binary digits, never below that of the least positive double.\<close>

definition last_place :: "rat \<Rightarrow> int" where
  "last_place x = max (- 1074) (exponent_of x - 52)"

definition round_double :: "rat \<Rightarrow> rat" where
  "round_double x = (let u = two_to (last_place x) in of_int (round_even (x / u)) * u)"

definition to_double :: "rat \<Rightarrow> jsnum" where
  "to_double x =
     (if x = 0 then Fin 0
      else
        (let y = round_double \<bar>x\<bar> in
         if 1024 \<le> exponent_of y then (if x > 0 then PosInf else NegInf) else Fin (if x > 0 then y else - y)))"

section \<open>Powers of two\<close>

lemma two_to_pos [simp]: "0 < two_to e" "0 \<le> two_to e"
  by (simp_all add: two_to_def)

lemma two_to_add: "two_to (a + b) = two_to a * two_to b"
proof -
  have "two_to e = 2 powi e" for e
    by (simp add: two_to_def power_int_def inverse_eq_divide power_one_over)
  then show ?thesis by (simp add: power_int_add)
qed

lemma two_to_nonneg: "0 \<le> e \<Longrightarrow> two_to e = of_int (2 ^ nat e)"
  by (simp add: two_to_def)

lemma two_to_mono: "a \<le> b \<Longrightarrow> two_to a \<le> two_to b"
proof -
  assume "a \<le> b"
  then have "1 \<le> two_to (b - a)" by (simp add: two_to_def)
  then have "two_to a * 1 \<le> two_to a * two_to (b - a)" by (intro mult_left_mono) simp_all
  then show ?thesis by (simp add: two_to_add[symmetric])
qed

lemma bitlen_two_to: "0 < a \<Longrightarrow> two_to (bitlen a - 1) \<le> of_int a \<and> of_int a < two_to (bitlen a)"
proof -
  assume a: "0 < a"
  then have "bitlen a \<noteq> 0" by (simp add: bitlen_eq_zero_iff)
  with bitlen_nonneg[of a] have "0 \<le> bitlen a - 1" "0 \<le> bitlen a" by simp_all
  with bitlen_bounds[OF a] show ?thesis by (simp only: two_to_nonneg of_int_le_iff of_int_less_iff)
qed

text \<open>The exponent is one indeed.\<close>

lemma exponent_of_le:
  assumes "0 < x"
  shows "two_to (exponent_of x) \<le> x"
proof -
  obtain a b where q: "quotient_of x = (a, b)" by (cases "quotient_of x")
  have b: "0 < b" using quotient_of_denom_pos[OF q] .
  have x: "x = of_int a / of_int b" using quotient_of_div[OF q] .
  have a: "0 < a" using assms b unfolding x by (simp add: zero_less_divide_iff)
  let ?k = "bitlen a - bitlen b"
  have "two_to (?k - 1) * of_int b \<le> two_to (?k - 1) * two_to (bitlen b)"
    using bitlen_two_to[OF b] by (intro mult_left_mono) simp_all
  also have "\<dots> = two_to (bitlen a - 1)" by (simp add: two_to_add[symmetric])
  also have "\<dots> \<le> of_int a" using bitlen_two_to[OF a] by simp
  finally have "two_to (?k - 1) \<le> x" using b by (simp add: x pos_le_divide_eq)
  then show ?thesis by (simp add: exponent_of_def q Let_def)
qed

lemma exponent_of_less:
  assumes "0 < x"
  shows "x < two_to (exponent_of x + 1)"
proof -
  obtain a b where q: "quotient_of x = (a, b)" by (cases "quotient_of x")
  have b: "0 < b" using quotient_of_denom_pos[OF q] .
  have x: "x = of_int a / of_int b" using quotient_of_div[OF q] .
  have a: "0 < a" using assms b unfolding x by (simp add: zero_less_divide_iff)
  let ?k = "bitlen a - bitlen b"
  have "of_int a < two_to (bitlen a)" using bitlen_two_to[OF a] by simp
  also have "\<dots> = two_to (?k + 1) * two_to (bitlen b - 1)" by (simp add: two_to_add[symmetric])
  also have "\<dots> \<le> two_to (?k + 1) * of_int b" using bitlen_two_to[OF b] by (intro mult_left_mono) simp_all
  finally have "x < two_to (?k + 1)" using b by (simp add: x pos_divide_less_eq)
  then show ?thesis by (simp add: exponent_of_def q Let_def)
qed

text \<open>Rounding is to the nearest: the error is at most half a unit in the last place.\<close>

lemma round_even_error: "\<bar>of_int (round_even x) - x\<bar> \<le> 1 / 2"
proof -
  have "of_int \<lfloor>x\<rfloor> \<le> x" "x < of_int \<lfloor>x\<rfloor> + 1" using floor_correct[of x] by simp_all
  then show ?thesis by (auto simp: round_even_def Let_def abs_le_iff)
qed

lemma round_double_error: "\<bar>round_double x - x\<bar> \<le> two_to (last_place x) / 2"
proof -
  let ?u = "two_to (last_place x)"
  have u: "0 < ?u" "\<bar>?u\<bar> = ?u" by (simp_all add: abs_of_pos)
  have "round_double x - x = (of_int (round_even (x / ?u)) - x / ?u) * ?u"
    using less_imp_neq[OF u(1), symmetric] by (simp add: round_double_def Let_def left_diff_distrib)
  then have "\<bar>round_double x - x\<bar> = \<bar>of_int (round_even (x / ?u)) - x / ?u\<bar> * ?u" by (simp only: abs_mult u(2))
  also have "\<dots> \<le> 1 / 2 * ?u" by (rule mult_right_mono[OF round_even_error]) simp
  finally show ?thesis by simp
qed

section \<open>Signs\<close>

text \<open>Every finite double is a multiple of the least positive one, and so is the difference of two.\<close>

definition on_grid :: "rat \<Rightarrow> bool" where
  "on_grid x \<longleftrightarrow> x / two_to (- 1074) \<in> \<int>"

lemma on_grid_closed: "on_grid 0" "on_grid x \<Longrightarrow> on_grid (- x)" "\<lbrakk>on_grid x; on_grid y\<rbrakk> \<Longrightarrow> on_grid (x - y)"
  by (simp_all add: on_grid_def diff_divide_distrib)

lemma round_double_grid: "on_grid (round_double x)"
proof -
  have "0 \<le> last_place x + 1074" by (simp add: last_place_def)
  moreover have "two_to (last_place x) = two_to (last_place x + 1074) * two_to (- 1074)"
    by (simp add: two_to_add[symmetric])
  ultimately show ?thesis by (simp add: on_grid_def round_double_def Let_def two_to_nonneg)
qed

lemma to_double_grid: "to_double x = Fin y \<Longrightarrow> on_grid y"
  by (auto simp: to_double_def Let_def on_grid_closed round_double_grid split: if_splits)

lemma round_even_pos: "1 \<le> x \<Longrightarrow> 1 \<le> round_even x"
  by (simp add: round_even_def Let_def)

lemma round_double_pos:
  assumes "0 < x" "on_grid x"
  shows "0 < round_double x"
proof -
  have least: "two_to (- 1074) \<le> x"
  proof -
    have "0 < x / two_to (- 1074)" using assms(1) by simp
    moreover from assms(2) obtain k where k: "x / two_to (- 1074) = of_int k" unfolding on_grid_def by (auto elim: Ints_cases)
    ultimately have "1 \<le> x / two_to (- 1074)" by simp
    then show ?thesis by (simp add: pos_le_divide_eq)
  qed
  have "two_to (last_place x) \<le> x"
    using least two_to_mono[of "exponent_of x - 52" "exponent_of x"] exponent_of_le[OF assms(1)] by (simp add: last_place_def max_def)
  then have "1 \<le> x / two_to (last_place x)" by (simp add: pos_le_divide_eq)
  from round_even_pos[OF this] show ?thesis by (simp add: round_double_def Let_def)
qed

text \<open>So rounding keeps the sign of a difference of doubles, and two doubles that differ have a difference.\<close>

lemma to_double_sign:
  assumes "on_grid x"
  shows "case to_double x of Fin y \<Rightarrow> (y < 0 \<longleftrightarrow> x < 0) \<and> (y > 0 \<longleftrightarrow> x > 0) | PosInf \<Rightarrow> x > 0 | NegInf \<Rightarrow> x < 0 | NaN \<Rightarrow> False"
proof (cases "x = 0")
  case False
  have "on_grid \<bar>x\<bar>" using assms on_grid_closed(2)[OF assms] by (simp add: abs_if)
  with False have "0 < round_double \<bar>x\<bar>" by (intro round_double_pos) simp_all
  with False show ?thesis by (cases "0 < x") (simp_all add: to_double_def Let_def)
qed (simp add: to_double_def)

text \<open>Integers of at most 53 binary digits are exact, and the first one that is not is rounded to even.\<close>

lemma to_double_examples:
  "to_double 9007199254740992 = Fin 9007199254740992" "to_double 9007199254740993 = Fin 9007199254740992"
  "to_double 9007199254740995 = Fin 9007199254740996"
  by code_simp+

end
