(* ===== verification/Grid.thy ===== *)
theory Grid
  imports Json Machine Double
begin

text \<open>
  \<open>frontend/components/ComponentRegistry.tsx\<close>, the CSV previewer: cells, sorting by column, pages.

  React keeps the state of the grid when only its \<open>raw\<close> prop changes, which happens when the user goes
  from one inline CSV file to another; so the text is part of the machine's state. \<open>localeCompare\<close>
  depends on the browser's locale and is an argument.
\<close>

section \<open>Numbers\<close>

text \<open>\<open>Number(s)\<close> for a string: the nearest double of the number it denotes.\<close>

definition str_decimal :: "string \<Rightarrow> jsnum" where
  "str_decimal s =
     (let ds = takeWhile is_digit s; r = dropWhile is_digit s;
          dot = starts_with ''.'' r;
          fs = (if dot then takeWhile is_digit (tl r) else []);
          r' = (if dot then dropWhile is_digit (tl r) else r)
      in if ds = [] \<and> fs = [] then NaN
         else case json_exp r' of
           Some (e, []) \<Rightarrow> to_double ((of_nat (base_val 10 ds) + of_nat (base_val 10 fs) / 10 ^ length fs) * e)
         | _ \<Rightarrow> NaN)"

fun js_neg :: "jsnum \<Rightarrow> jsnum" where
  "js_neg (Fin x) = Fin (- x)"
| "js_neg PosInf = NegInf"
| "js_neg NegInf = PosInf"
| "js_neg NaN = NaN"

definition str_unsigned :: "string \<Rightarrow> jsnum" where
  "str_unsigned s = (if s = ''Infinity'' then PosInf else str_decimal s)"

definition str_radix :: "nat \<Rightarrow> (char \<Rightarrow> bool) \<Rightarrow> string \<Rightarrow> jsnum" where
  "str_radix b ok ds = (if ds \<noteq> [] \<and> list_all ok ds then to_double (of_nat (base_val b (to_lower ds))) else NaN)"

definition js_number :: "string \<Rightarrow> jsnum" where
  "js_number s =
     (let t = trim s; pre = to_lower (take 2 t) in
      if t = [] then Fin 0
      else if pre = ''0x'' then str_radix 16 (\<lambda>c. unhex c \<noteq> None) (drop 2 t)
      else if pre = ''0o'' then str_radix 8 (\<lambda>c. c \<in> set ''01234567'') (drop 2 t)
      else if pre = ''0b'' then str_radix 2 (\<lambda>c. c \<in> set ''01'') (drop 2 t)
      else if hd t = CHR ''-'' then js_neg (str_unsigned (tl t))
      else if hd t = CHR ''+'' then str_unsigned (tl t)
      else str_unsigned t)"

fun js_sub :: "jsnum \<Rightarrow> jsnum \<Rightarrow> jsnum" where
  "js_sub (Fin x) (Fin y) = to_double (x - y)"
| "js_sub NaN y = NaN"
| "js_sub x NaN = NaN"
| "js_sub PosInf PosInf = NaN"
| "js_sub NegInf NegInf = NaN"
| "js_sub PosInf y = PosInf"
| "js_sub NegInf y = NegInf"
| "js_sub (Fin x) PosInf = NegInf"
| "js_sub (Fin x) NegInf = PosInf"

section \<open>The grid\<close>

datatype SortDir = Asc | Desc

record grid =
  page :: nat
  sortCol :: "nat option"
  sortDir :: "SortDir option"

definition grid_init :: grid where
  "grid_init = \<lparr>page = 0, sortCol = None, sortDir = None\<rparr>"

definition PAGE_SIZE :: nat where
  "PAGE_SIZE = 20"

definition grid_lines :: "string \<Rightarrow> string list" where
  "grid_lines raw = split_on (CHR 0x0A) (trim raw)"

definition grid_headers :: "string \<Rightarrow> string list" where
  "grid_headers raw = split_on (CHR '','') (hd (grid_lines raw))"

definition grid_rows :: "string \<Rightarrow> string list list" where
  "grid_rows raw = map (split_on (CHR '','')) (tl (grid_lines raw))"

text \<open>\<open>row[i] ?? ""\<close>\<close>

definition grid_cell :: "nat \<Rightarrow> string list \<Rightarrow> string" where
  "grid_cell i row = (if i < length row then row ! i else [])"

text \<open>The comparator; only the sign of its result matters to the sort.\<close>

definition cell_cmp :: "(string \<Rightarrow> string \<Rightarrow> int) \<Rightarrow> string \<Rightarrow> string \<Rightarrow> int" where
  "cell_cmp localeCompare av bv = (case js_sub (js_number av) (js_number bv) of
       NaN \<Rightarrow> localeCompare av bv
     | Fin n \<Rightarrow> (if n < 0 then - 1 else if n > 0 then 1 else 0)
     | PosInf \<Rightarrow> 1
     | NegInf \<Rightarrow> - 1)"

definition row_cmp :: "(string \<Rightarrow> string \<Rightarrow> int) \<Rightarrow> nat \<Rightarrow> SortDir \<Rightarrow> string list \<Rightarrow> string list \<Rightarrow> int" where
  "row_cmp localeCompare i dir a b =
     (let c = cell_cmp localeCompare (grid_cell i a) (grid_cell i b) in case dir of Asc \<Rightarrow> c | Desc \<Rightarrow> - c)"

definition sorted_rows :: "(string \<Rightarrow> string \<Rightarrow> int) \<Rightarrow> string \<Rightarrow> grid \<Rightarrow> string list list" where
  "sorted_rows localeCompare raw g = (case (sortCol g, sortDir g) of
       (Some i, Some dir) \<Rightarrow> js_sort (row_cmp localeCompare i dir) (grid_rows raw)
     | _ \<Rightarrow> grid_rows raw)"

definition page_rows :: "(string \<Rightarrow> string \<Rightarrow> int) \<Rightarrow> string \<Rightarrow> grid \<Rightarrow> string list list" where
  "page_rows localeCompare raw g = take PAGE_SIZE (drop (page g * PAGE_SIZE) (sorted_rows localeCompare raw g))"

definition page_count :: "string \<Rightarrow> nat" where
  "page_count raw = (length (grid_rows raw) + PAGE_SIZE - 1) div PAGE_SIZE"

definition handleSort :: "nat \<Rightarrow> grid \<Rightarrow> grid" where
  "handleSort i g =
     (if sortCol g \<noteq> Some i then g\<lparr>sortCol := Some i, sortDir := Some Asc\<rparr>
      else
        (let g1 = g\<lparr>sortDir := (case sortDir g of Some Asc \<Rightarrow> Some Desc | Some Desc \<Rightarrow> None | None \<Rightarrow> Some Asc)\<rparr>
         in if sortDir g = Some Desc then g1\<lparr>sortCol := None\<rparr> else g1))"

text \<open>The buttons are there only with more than one page, and disabled at either end.\<close>

definition grid_prev :: "string \<Rightarrow> grid \<Rightarrow> grid" where
  "grid_prev raw g = (if page_count raw \<le> 1 \<or> page g = 0 then g else g\<lparr>page := page g - 1\<rparr>)"

definition grid_next :: "string \<Rightarrow> grid \<Rightarrow> grid" where
  "grid_next raw g =
     (if page_count raw \<le> 1 \<or> page g \<ge> page_count raw - 1 then g
      else g\<lparr>page := min (page_count raw - 1) (page g + 1)\<rparr>)"

datatype SortIcon = ArrowUpDown | ArrowUp | ArrowDown

definition sort_icon :: "nat \<Rightarrow> grid \<Rightarrow> SortIcon" where
  "sort_icon i g = (if sortCol g \<noteq> Some i then ArrowUpDown
     else case sortDir g of None \<Rightarrow> ArrowUpDown | Some Asc \<Rightarrow> ArrowUp | Some Desc \<Rightarrow> ArrowDown)"

definition grid_title :: "string \<Rightarrow> string" where
  "grid_title raw = ''CSV '' @ em_dash @ '' '' @ nat_str (length (grid_rows raw)) @ '' rows ''
     @ [CHR 0xC3, CHR 0x97] @ '' '' @ nat_str (length (grid_headers raw)) @ '' cols''"

definition page_label :: "string \<Rightarrow> grid \<Rightarrow> string" where
  "page_label raw g = ''page '' @ nat_str (page g + 1) @ '' / '' @ nat_str (page_count raw)"

record grid_view =
  gvTitle :: string
  gvPage :: string
  gvHeaders :: "(string \<times> SortIcon) list"
  gvBody :: "string list list"
  gvButtons :: "(bool \<times> bool) option"

text \<open>The rendered grid; the buttons are given by whether each is disabled.\<close>

definition DataGrid :: "(string \<Rightarrow> string \<Rightarrow> int) \<Rightarrow> string \<Rightarrow> grid \<Rightarrow> grid_view" where
  "DataGrid localeCompare raw g =
     \<lparr>gvTitle = grid_title raw, gvPage = page_label raw g,
      gvHeaders = map (\<lambda>(i, h). (h, sort_icon i g)) (enumerate 0 (grid_headers raw)),
      gvBody = page_rows localeCompare raw g,
      gvButtons = (if page_count raw > 1 then Some (page g = 0, page g \<ge> page_count raw - 1) else None)\<rparr>"

datatype grid_event = GridSort nat | GridPrev | GridNext

fun grid_step :: "string \<Rightarrow> grid \<Rightarrow> grid_event \<Rightarrow> grid" where
  "grid_step raw g (GridSort i) = (if i < length (grid_headers raw) then handleSort i g else g)"
| "grid_step raw g GridPrev = grid_prev raw g"
| "grid_step raw g GridNext = grid_next raw g"

section \<open>Cells\<close>

lemma set_join: "x \<in> set (join sep ps) \<Longrightarrow> x \<in> set sep \<or> (\<exists>p \<in> set ps. x \<in> set p)"
  by (induction sep ps rule: join.induct) auto

text \<open>C31: The grid shows the table a CSV file was written from: joining rows of cells without commas and
  line feeds (and without white space at either end of the file) and parsing the text gives back the
  header cells and the cells of every row.\<close>

theorem csv_roundtrip:
  assumes cells: "\<forall>r \<in> set (h # rs). r \<noteq> [] \<and> (\<forall>c \<in> set r. CHR '','' \<notin> set c \<and> CHR 0x0A \<notin> set c)"
    and raw: "raw = join [CHR 0x0A] (map (join [CHR '','']) (h # rs))" "trim raw = raw"
  shows "grid_headers raw = h \<and> grid_rows raw = rs"
proof -
  have row: "split_on (CHR '','') (join [CHR '',''] r) = r" if "r \<in> set (h # rs)" for r
    using cells that by (intro split_on_join) auto
  have "CHR 0x0A \<notin> set (join [CHR '',''] r)" if "r \<in> set (h # rs)" for r
    using cells that by (auto dest!: set_join)
  then have "split_on (CHR 0x0A) (join [CHR 0x0A] (map (join [CHR '','']) (h # rs))) = map (join [CHR '','']) (h # rs)"
    by (intro split_on_join) auto
  then have "grid_lines raw = map (join [CHR '','']) (h # rs)" using raw by (simp add: grid_lines_def)
  then show ?thesis using row by (simp add: grid_headers_def grid_rows_def map_idI)
qed

theorem csv_roundtrip_witness:
  "grid_rows (join [CHR 0x0A] (map (join [CHR '','']) ([''id'', ''name''] # [[''1'', ''Ada''], [''2'', [], ''x'']])))
     = [[''1'', ''Ada''], [''2'', [], ''x'']]"
proof -
  let ?raw = "join [CHR 0x0A] (map (join [CHR '','']) ([''id'', ''name''] # [[''1'', ''Ada''], [''2'', [], ''x'']]))"
  have "trim ?raw = ?raw" by code_simp
  from csv_roundtrip[OF _ refl this] show ?thesis by simp
qed

section \<open>Pages\<close>

lemma concat_pages: "concat (map (\<lambda>p. take k (drop (p * k) xs)) [0..<n]) = take (n * k) xs"
proof (induction n)
  case (Suc n)
  then show ?case by (simp add: add.commute[of k] take_add)
qed simp

lemma length_sorted_rows [simp]: "length (sorted_rows lc raw g) = length (grid_rows raw)"
  by (simp add: sorted_rows_def split: option.split)

lemma sorted_rows_page [simp]: "sorted_rows lc raw (g\<lparr>page := p\<rparr>) = sorted_rows lc raw g"
  by (simp add: sorted_rows_def)

lemma page_count_enough: "length (grid_rows raw) \<le> page_count raw * PAGE_SIZE"
proof -
  let ?n = "length (grid_rows raw)"
  have "?n + 19 = (?n + 19) div 20 * 20 + (?n + 19) mod 20" by simp
  moreover have "(?n + 19) mod 20 < 20" by simp
  ultimately show ?thesis by (simp add: page_count_def PAGE_SIZE_def)
qed

lemma page_count_less: "p < page_count raw \<Longrightarrow> p * PAGE_SIZE < length (grid_rows raw)"
proof -
  let ?n = "length (grid_rows raw)"
  assume "p < page_count raw"
  then have "p + 1 \<le> (?n + 19) div 20" by (simp add: page_count_def PAGE_SIZE_def)
  then have "(p + 1) * 20 \<le> ?n + 19" by (simp add: less_eq_div_iff_mult_less_eq)
  then show ?thesis by (simp add: PAGE_SIZE_def)
qed

text \<open>C28: The pages partition the table: going through all of them shows every row of the file exactly once,
  in the order of the sort; no page has more than 20 rows, and none is empty.\<close>

theorem grid_pages_partition:
  "concat (map (\<lambda>p. page_rows lc raw (g\<lparr>page := p\<rparr>)) [0..<page_count raw]) = sorted_rows lc raw g \<and>
   mset (sorted_rows lc raw g) = mset (grid_rows raw) \<and>
   (\<forall>p. p < page_count raw \<longrightarrow> page_rows lc raw (g\<lparr>page := p\<rparr>) \<noteq> []) \<and>
   length (page_rows lc raw g) \<le> 20"
proof (intro conjI allI impI)
  show "concat (map (\<lambda>p. page_rows lc raw (g\<lparr>page := p\<rparr>)) [0..<page_count raw]) = sorted_rows lc raw g"
    using page_count_enough[of raw] by (simp add: page_rows_def concat_pages)
  show "mset (sorted_rows lc raw g) = mset (grid_rows raw)"
    by (simp add: sorted_rows_def split: option.split)
  show "page_rows lc raw (g\<lparr>page := p\<rparr>) \<noteq> []" if "p < page_count raw" for p
    using page_count_less[OF that] by (simp add: page_rows_def PAGE_SIZE_def)
  show "length (page_rows lc raw g) \<le> 20" by (simp add: page_rows_def PAGE_SIZE_def)
qed

definition demo_csv :: string where
  "demo_csv = join [CHR 0x0A] (''n'' # map nat_str [0..<25])"

theorem grid_pages_partition_witness:
  "page_rows (\<lambda>a b. 0) demo_csv (grid_init\<lparr>page := 1\<rparr>) \<noteq> []"
proof -
  have "1 < page_count demo_csv" by code_simp
  with grid_pages_partition[of "\<lambda>a b. 0" demo_csv grid_init] show ?thesis by blast
qed

section \<open>Sorting\<close>

lemma js_insert_insort:
  "(\<And>b. b \<in> set ys \<Longrightarrow> cmp x b \<le> 0 \<longleftrightarrow> key x \<le> key b) \<Longrightarrow> js_insert cmp x ys = insort_key key x ys"
  by (induction ys) simp_all

text \<open>A comparator that compares keys sorts as the library's stable sort by that key.\<close>

lemma js_sort_sort_key:
  "(\<And>a b. \<lbrakk>a \<in> set xs; b \<in> set xs\<rbrakk> \<Longrightarrow> cmp a b \<le> 0 \<longleftrightarrow> key a \<le> key b) \<Longrightarrow> js_sort cmp xs = sort_key key xs"
proof (induction xs)
  case Nil
  then show ?case by (simp add: js_sort_def)
next
  case (Cons x xs)
  then have "js_sort cmp xs = sort_key key xs" by simp
  then have "js_sort cmp (x # xs) = js_insert cmp x (sort_key key xs)" by (simp add: js_sort_def)
  also have "\<dots> = insort_key key x (sort_key key xs)" using Cons.prems by (intro js_insert_insort) simp
  finally show ?case by simp
qed

lemma js_number_grid: "js_number s = Fin x \<Longrightarrow> on_grid x"
proof -
  have decimal: "on_grid y" if "str_unsigned t = Fin y" for t y
    using that by (auto simp: str_unsigned_def str_decimal_def Let_def dest: to_double_grid split: if_splits option.splits list.splits)
  have radix: "on_grid y" if "str_radix b ok t = Fin y" for b ok t y
    using that by (auto simp: str_radix_def dest: to_double_grid split: if_splits)
  have neg: "on_grid y" if "js_neg n = Fin y" "\<And>z. n = Fin z \<Longrightarrow> on_grid z" for n y
    using that by (cases n) (auto simp: on_grid_closed)
  assume "js_number s = Fin x"
  then show ?thesis
    using decimal radix neg[OF _ decimal] by (auto simp: js_number_def Let_def on_grid_closed split: if_splits)
qed

text \<open>The value of a cell is a double, and the comparator compares values exactly.\<close>

lemma cell_cmp_value:
  assumes "js_number av = Fin x" "js_number bv = Fin y"
  shows "cell_cmp lc av bv \<le> 0 \<longleftrightarrow> x \<le> y" "cell_cmp lc av bv \<ge> 0 \<longleftrightarrow> y \<le> x"
  using to_double_sign[OF on_grid_closed(3)[OF js_number_grid[OF assms(1)] js_number_grid[OF assms(2)]]]
  by (auto simp: cell_cmp_def assms split: jsnum.splits)

definition cell_value :: "nat \<Rightarrow> string list \<Rightarrow> rat" where
  "cell_value i row = (case js_number (grid_cell i row) of Fin x \<Rightarrow> x | _ \<Rightarrow> 0)"

definition numeric_column :: "nat \<Rightarrow> string list list \<Rightarrow> bool" where
  "numeric_column i rows \<longleftrightarrow> list_all (\<lambda>r. case js_number (grid_cell i r) of Fin x \<Rightarrow> True | _ \<Rightarrow> False) rows"

lemma row_cmp_value:
  assumes "numeric_column i rows" "a \<in> set rows" "b \<in> set rows"
  shows "row_cmp lc i Asc a b \<le> 0 \<longleftrightarrow> cell_value i a \<le> cell_value i b"
    and "row_cmp lc i Desc a b \<le> 0 \<longleftrightarrow> - cell_value i a \<le> - cell_value i b"
proof -
  obtain x y where "js_number (grid_cell i a) = Fin x" "js_number (grid_cell i b) = Fin y"
    using assms unfolding numeric_column_def list_all_iff
    by (cases "js_number (grid_cell i a)"; cases "js_number (grid_cell i b)") fastforce+
  with cell_cmp_value[OF this, of lc] show "row_cmp lc i Asc a b \<le> 0 \<longleftrightarrow> cell_value i a \<le> cell_value i b"
    and "row_cmp lc i Desc a b \<le> 0 \<longleftrightarrow> - cell_value i a \<le> - cell_value i b"
    by (simp_all add: row_cmp_def cell_value_def)
qed

text \<open>C27: Clicking the header of a column of finite numbers sorts the rows by that column's values, as the
  doubles \<open>Number\<close> makes of the cells, a second click
  sorts them by the negated values, each stably (both are the library's \<open>sort_key\<close>), and a third
  click gives back the order of the file; the icons follow.\<close>

theorem grid_sort_numeric:
  assumes "numeric_column i (grid_rows raw)" "sortCol g \<noteq> Some i"
  shows "sorted_rows lc raw (handleSort i g) = sort_key (cell_value i) (grid_rows raw) \<and>
    sorted_rows lc raw (handleSort i (handleSort i g)) = sort_key (\<lambda>r. - cell_value i r) (grid_rows raw) \<and>
    sorted_rows lc raw (handleSort i (handleSort i (handleSort i g))) = grid_rows raw \<and>
    map (sort_icon i) [handleSort i g, handleSort i (handleSort i g), handleSort i (handleSort i (handleSort i g))]
      = [ArrowUp, ArrowDown, ArrowUpDown]"
proof -
  have "js_sort (row_cmp lc i Asc) (grid_rows raw) = sort_key (cell_value i) (grid_rows raw)"
    by (rule js_sort_sort_key[OF row_cmp_value(1)[OF assms(1)]])
  moreover have "js_sort (row_cmp lc i Desc) (grid_rows raw) = sort_key (\<lambda>r. - cell_value i r) (grid_rows raw)"
    by (rule js_sort_sort_key[OF row_cmp_value(2)[OF assms(1)]])
  ultimately show ?thesis using assms(2) by (simp add: sorted_rows_def handleSort_def sort_icon_def Let_def)
qed

theorem grid_sort_numeric_witness:
  "sorted_rows (\<lambda>a b. 0) (''n'' @ [CHR 0x0A] @ ''10'' @ [CHR 0x0A] @ ''9.5'') (handleSort 0 grid_init) = [[''9.5''], [''10'']]"
proof -
  let ?raw = "''n'' @ [CHR 0x0A] @ ''10'' @ [CHR 0x0A] @ ''9.5''"
  have pre: "numeric_column 0 (grid_rows ?raw)" "sortCol grid_init \<noteq> Some 0" by code_simp+
  have "sort_key (cell_value 0) (grid_rows ?raw) = [[''9.5''], [''10'']]" by code_simp
  with conjunct1[OF grid_sort_numeric[OF pre, of "\<lambda>a b. 0"]] show ?thesis by (rule trans)
qed

text \<open>Cells whose numbers are the same double keep the order of the file, also if the texts differ in value.\<close>

lemma equal_doubles_keep_order:
  "sorted_rows lc (''n'' @ [CHR 0x0A] @ ''9007199254740993'' @ [CHR 0x0A] @ ''9007199254740992'') (handleSort 0 grid_init)
     = [[''9007199254740993''], [''9007199254740992'']]"
proof -
  let ?raw = "''n'' @ [CHR 0x0A] @ ''9007199254740993'' @ [CHR 0x0A] @ ''9007199254740992''"
  have "js_number ''9007199254740993'' = Fin 9007199254740992" "js_number ''9007199254740992'' = Fin 9007199254740992"
    by code_simp+
  moreover have "grid_rows ?raw = [[''9007199254740993''], [''9007199254740992'']]" by code_simp
  ultimately show ?thesis
    by (simp add: sorted_rows_def handleSort_def grid_init_def js_sort_def row_cmp_def cell_cmp_def grid_cell_def to_double_def)
qed

text \<open>On a column that mixes numbers and words the comparator need not be an order: with any locale in
  which digits sort before letters character by character, three cells form a cycle.\<close>

lemma cell_cmp_cycle:
  assumes "lc ''10'' ''1a'' < 0" "lc ''1a'' ''9'' < 0"
  shows "cell_cmp lc ''10'' ''1a'' < 0 \<and> cell_cmp lc ''1a'' ''9'' < 0 \<and> cell_cmp lc ''9'' ''10'' < 0"
proof -
  have "js_number ''10'' = Fin 10" "js_number ''1a'' = NaN" "js_number ''9'' = Fin 9" by code_simp+
  with assms cell_cmp_value[of "''9''" 9 "''10''" 10 lc] show ?thesis by (auto simp: cell_cmp_def)
qed

section \<open>Reachable states\<close>

definition grid_inv :: "string \<Rightarrow> grid \<Rightarrow> bool" where
  "grid_inv raw g \<longleftrightarrow> (page g = 0 \<or> page g < page_count raw) \<and> (sortCol g = None \<longleftrightarrow> sortDir g = None)"

lemma grid_inv_step: "grid_inv raw g \<Longrightarrow> grid_inv raw (grid_step raw g e)"
  by (cases e) (auto simp: grid_inv_def handleSort_def grid_prev_def grid_next_def Let_def split: option.split SortDir.split)

interpretation grid_machine: started_machine "grid_step raw" "grid_inv raw" grid_init for raw
  by unfold_locales (erule grid_inv_step, simp add: grid_inv_def grid_init_def)

text \<open>While one file is shown, whatever the user clicks, the page number stays in range: a file with rows
  always has some on display.\<close>

theorem grid_page_in_range:
  assumes "g = foldl (grid_step raw) grid_init es" "grid_rows raw \<noteq> []"
  shows "page g < page_count raw \<and> page_rows lc raw g \<noteq> []"
proof -
  have "grid_inv raw g" unfolding assms(1) by (rule grid_machine.reachable_inv)
  moreover have "0 < page_count raw" using page_count_enough[of raw] assms(2) by (cases "page_count raw") auto
  ultimately have "page g < page_count raw" by (auto simp: grid_inv_def)
  with page_count_less[OF this] show ?thesis by (simp add: page_rows_def PAGE_SIZE_def)
qed

theorem grid_page_in_range_witness:
  "page_rows (\<lambda>a b. 0) demo_csv (foldl (grid_step demo_csv) grid_init [GridNext, GridNext, GridSort 0]) \<noteq> []"
proof -
  have "grid_rows demo_csv \<noteq> []" by code_simp
  from grid_page_in_range[OF refl this] show ?thesis by blast
qed

text \<open>The grid keeps its page when another file takes its place: after the second page of a file with
  more than 20 rows, a file with at most 20 shows no row at all, and has no buttons.\<close>

theorem grid_page_survives_file:
  assumes "page_count raw = n" "1 < n" "page_count raw' \<le> 1"
    and "g = grid_step raw grid_init GridNext"
  shows "gvBody (DataGrid lc raw' g) = [] \<and> gvButtons (DataGrid lc raw' g) = None"
proof -
  have "page g = 1" using assms(1,2,4) by (simp add: grid_next_def grid_init_def)
  moreover have "length (grid_rows raw') \<le> PAGE_SIZE" using page_count_enough[of raw'] assms(3)
    by (metis mult_le_mono1 mult_1 le_trans)
  ultimately show ?thesis using assms(3) by (simp add: DataGrid_def page_rows_def)
qed

theorem grid_page_survives_file_witness:
  "gvBody (DataGrid (\<lambda>a b. 0) (''n'' @ [CHR 0x0A] @ ''1'') (grid_step demo_csv grid_init GridNext)) = []"
proof -
  have "page_count demo_csv = 2" "page_count (''n'' @ [CHR 0x0A] @ ''1'') \<le> 1" by code_simp+
  from grid_page_survives_file[OF this(1) _ this(2) refl] show ?thesis by simp
qed

end
