(* ===== verification/Chart.thy ===== *)
theory Chart
  imports Json
begin

text \<open>
  \<open>frontend/components/ComponentRegistry.tsx\<close>, the JSON previewers: the bar chart of a timeseries and
  the WebAssembly inspector.

  Numbers are exact rationals; double precision rounding is not modelled. The source casts the parsed
  value to its expected type. Where the value has another shape, the model says what the render
  function does: reading a property that is missing and calling a method on it throws, which is the
  outcome \<open>None\<close>. Series whose data are not all numbers are left to the cast: \<open>ChartUntyped\<close>.
\<close>

section \<open>Geometry\<close>

definition CHART_COLORS :: "string list" where
  "CHART_COLORS = [''#6366f1'', ''#22c55e'', ''#f59e0b'', ''#ef4444'', ''#38bdf8'', ''#c084fc'']"

definition is_integer :: "rat \<Rightarrow> bool" where
  "is_integer x \<longleftrightarrow> x = of_int \<lfloor>x\<rfloor>"

text \<open>Ticks are never negative, so one rounding rule is enough.\<close>

fun fmtTick :: "jsnum \<Rightarrow> string" where
  "fmtTick (Fin x) =
     (if is_integer x then int_str \<lfloor>x\<rfloor> else case quotient_of x of (a, b) \<Rightarrow> toFixed1 (nat a) (nat b))"
| "fmtTick PosInf = ''Infinity''"
| "fmtTick NegInf = ''-Infinity''"
| "fmtTick NaN = ''NaN''"

definition ser_max :: "rat list \<Rightarrow> rat" where
  "ser_max xs = fold max xs 1"

text \<open>The baseline of a series with its minimum; without samples \<open>Math.min()\<close> is infinite, and so is
  the baseline.\<close>

definition baseline :: "rat list \<Rightarrow> jsnum" where
  "baseline xs = (case xs of
       [] \<Rightarrow> PosInf
     | y # ys \<Rightarrow>
         (let serMin = fold min ys y in
          Fin (if serMin > ser_max xs * (1 / 5) then max 0 (of_int \<lfloor>serMin * (4 / 5)\<rfloor>) else 0)))"

definition ser_range :: "rat list \<Rightarrow> rat" where
  "ser_range xs = (case baseline xs of Fin b \<Rightarrow> max (ser_max xs - b) 1 | _ \<Rightarrow> 1)"

definition mid_tick :: "rat list \<Rightarrow> jsnum" where
  "mid_tick xs = (case baseline xs of Fin b \<Rightarrow> Fin (b + ser_range xs / 2) | n \<Rightarrow> n)"

definition bar_height :: "rat list \<Rightarrow> rat \<Rightarrow> rat" where
  "bar_height xs v = (case baseline xs of
       Fin b \<Rightarrow> max ((v - b) / ser_range xs * 100) 0
     | _ \<Rightarrow> 0)"

section \<open>The chart\<close>

record chart_series =
  csName :: "json option"
  csColor :: string
  csTicks :: "string list"
  csBars :: "(rat \<times> rat) list"
  csLabels :: "json list"

datatype chart_view =
    ChartJson json
  | ChartSeries "chart_series list"
  | ChartUntyped

definition js_numbers :: "json list \<Rightarrow> rat list option" where
  "js_numbers vs = those (map (\<lambda>v. case v of JNum x \<Rightarrow> Some x | _ \<Rightarrow> None) vs)"

definition series_view :: "nat \<Rightarrow> json option \<Rightarrow> json list \<Rightarrow> rat list \<Rightarrow> chart_series" where
  "series_view si name labels xs =
     \<lparr>csName = name, csColor = CHART_COLORS ! (si mod length CHART_COLORS),
      csTicks = [fmtTick (Fin (ser_max xs)), fmtTick (mid_tick xs), fmtTick (baseline xs)],
      csBars = map (\<lambda>v. (v, bar_height xs v)) xs, csLabels = labels\<rparr>"

text \<open>Rendering one series: its data and the labels must be arrays. The outer option is an exception,
  the inner one data the cast does not cover.\<close>

definition render_series :: "json option \<Rightarrow> nat \<Rightarrow> json \<Rightarrow> chart_series option option" where
  "render_series labels si s = (case (jfield ''data'' s, labels) of
       (Some (JArr vs), Some (JArr ls)) \<Rightarrow> Some (map_option (series_view si (jfield ''name'' s) ls) (js_numbers vs))
     | _ \<Rightarrow> None)"

definition falsy :: "json \<Rightarrow> bool" where
  "falsy v \<longleftrightarrow> v \<in> set [JNull, JBool False, JNum 0, JStr []]"

definition ChartView :: "string \<Rightarrow> chart_view option" where
  "ChartView raw =
     (let data = (case json_parse raw of None \<Rightarrow> JNull | Some v \<Rightarrow> v) in
      case jfield ''series'' data of
        Some (JArr series) \<Rightarrow>
          if falsy data \<or> jfield ''type'' data \<noteq> Some (JStr ''timeseries'') then Some (ChartJson data)
          else map_option (\<lambda>ss. case those ss of None \<Rightarrow> ChartUntyped | Some cs \<Rightarrow> ChartSeries cs)
            (those (map (\<lambda>(si, s). render_series (jfield ''labels'' data) si s) (enumerate 0 series)))
      | _ \<Rightarrow> Some (ChartJson data))"

section \<open>The WebAssembly inspector\<close>

definition fmt_size :: "nat \<Rightarrow> string" where
  "fmt_size n = (if n > 1024 then quot_toFixed1 n 1024 @ '' KB'' else nat_str n @ '' B'')"

text \<open>A row of the section table: id, name, entries and size, as parsed; a size that is no whole number is
  outside the cast.\<close>

definition section_row :: "json \<Rightarrow> json option \<times> json option \<times> json option \<times> string option" where
  "section_row sec = (jfield ''id'' sec, jfield ''name'' sec, jfield ''entries'' sec,
     (case jfield ''size'' sec of
        Some (JNum x) \<Rightarrow> if x \<ge> 0 \<and> is_integer x then Some (fmt_size (nat \<lfloor>x\<rfloor>)) else None
      | _ \<Rightarrow> None))"

datatype wasm_view =
    WasmParseError string
  | WasmInfo (wvMagic: "json option") (wvSections: "(json option \<times> json option \<times> json option \<times> string option) list")
      (wvExports: "json list") (wvImports: "(json option \<times> json option) list")

definition WasmInspector :: "string \<Rightarrow> wasm_view option" where
  "WasmInspector raw = (case json_parse raw of
       None \<Rightarrow> Some (WasmParseError raw)
     | Some info \<Rightarrow>
         if falsy info then Some (WasmParseError raw)
         else case (jfield ''sections'' info, jfield ''exports'' info, jfield ''imports'' info) of
           (Some (JArr sections), Some (JArr exports), Some (JArr imports)) \<Rightarrow>
             if JNull \<in> set (sections @ imports) then None
             else Some (WasmInfo (jfield ''magic'' info) (map section_row sections) exports
                    (map (\<lambda>imp. (jfield ''module'' imp, jfield ''name'' imp)) imports))
         | _ \<Rightarrow> None)"

section \<open>Properties\<close>

lemma fold_max_ge: "m \<le> fold max xs m" "x \<in> set xs \<Longrightarrow> x \<le> fold max xs m" for m :: "'a :: linorder"
  by (simp_all add: Max.set_eq_fold[symmetric])

lemma fold_min_le: "fold min xs m \<le> m" "x \<in> set xs \<Longrightarrow> fold min xs m \<le> x" for m :: "'a :: linorder"
  by (simp_all add: Min.set_eq_fold[symmetric])

lemma ser_max_ge: "1 \<le> ser_max xs" "v \<in> set xs \<Longrightarrow> v \<le> ser_max xs"
  by (simp_all add: ser_max_def fold_max_ge)

text \<open>The baseline of a series with samples is a number between 0 and every sample that is not negative,
  and at most four fifths of the maximum.\<close>

lemma baseline_bounds:
  assumes "xs \<noteq> []"
  obtains b where "baseline xs = Fin b" "0 \<le> b" "\<And>v. v \<in> set xs \<Longrightarrow> 0 \<le> v \<Longrightarrow> b \<le> v" "b \<le> ser_max xs * (4 / 5)"
proof -
  obtain y ys where xs: "xs = y # ys" using assms by (cases xs) auto
  let ?m = "fold min ys y"
  define b :: rat where "b = (if ?m > ser_max xs * (1 / 5) then max 0 (of_int \<lfloor>?m * (4 / 5)\<rfloor>) else 0)"
  have "baseline xs = Fin b" by (simp add: baseline_def xs b_def)
  moreover have "0 \<le> b" by (simp add: b_def)
  moreover have le: "?m \<le> v" if "v \<in> set xs" for v using that fold_min_le(1)[where xs = ys and m = y] fold_min_le(2)[where xs = ys and m = y and x = v] by (auto simp: xs)
  moreover have fl: "of_int \<lfloor>?m * (4 / 5)\<rfloor> \<le> ?m * (4 / 5)" by (rule of_int_floor_le)
  moreover have "b \<le> v" if "v \<in> set xs" "0 \<le> v" for v
  proof (cases "0 \<le> ?m")
    case True
    then show ?thesis using le[OF that(1)] fl that(2) by (auto simp: b_def)
  next
    case False
    then have "?m * (4 / 5) \<le> 0" by simp
    then show ?thesis using fl that(2) by (auto simp: b_def)
  qed
  moreover have "b \<le> ser_max xs * (4 / 5)"
  proof -
    have "?m \<le> ser_max xs" using le[of y] ser_max_ge(2)[of y xs] by (simp add: xs)
    then show ?thesis using fl ser_max_ge(1)[of xs] by (auto simp: b_def)
  qed
  ultimately show ?thesis using that by blast
qed

text \<open>C29: The bars of a series stay within the plot and keep the order of the samples: every height is
  between 0 and 100 percent, a larger sample never has a smaller bar, and a sample that is not negative
  is drawn from the baseline without being cut off. The bar of the maximum fills the plot exactly if
  the maximum is at least one above the baseline.\<close>

theorem chart_bars_within_plot:
  assumes "v \<in> set xs" "w \<in> set xs" "v \<le> w"
  shows "0 \<le> bar_height xs v \<and> bar_height xs v \<le> bar_height xs w \<and> bar_height xs w \<le> 100 \<and>
    (\<exists>b. baseline xs = Fin b \<and> 0 \<le> b \<and> (0 \<le> v \<longrightarrow> bar_height xs v = (v - b) / ser_range xs * 100) \<and>
       (w = ser_max xs \<longrightarrow> (bar_height xs w = 100 \<longleftrightarrow> b + 1 \<le> ser_max xs)))"
proof -
  have "xs \<noteq> []" using assms by auto
  then obtain b where b: "baseline xs = Fin b" "0 \<le> b" "\<And>v. v \<in> set xs \<Longrightarrow> 0 \<le> v \<Longrightarrow> b \<le> v" "b \<le> ser_max xs * (4 / 5)"
    by (rule baseline_bounds) blast
  let ?r = "ser_range xs"
  have r: "?r = max (ser_max xs - b) 1" by (simp add: ser_range_def b)
  then have pos: "0 < ?r" by simp
  have h: "bar_height xs x = max ((x - b) / ?r * 100) 0" for x by (simp add: bar_height_def b)
  have "(v - b) / ?r \<le> (w - b) / ?r" using assms(3) pos by (simp add: divide_right_mono)
  then have "(v - b) / ?r * 100 \<le> (w - b) / ?r * 100" by (rule mult_right_mono) simp
  then have mono: "bar_height xs v \<le> bar_height xs w" unfolding h by (rule max.mono) simp
  have "w - b \<le> ?r" using ser_max_ge(2)[OF assms(2)] by (simp add: r)
  then have "bar_height xs w \<le> 100" using pos unfolding h by (simp add: divide_le_eq)
  moreover have "0 \<le> v \<longrightarrow> bar_height xs v = (v - b) / ?r * 100"
    using b(3)[OF assms(1)] pos unfolding h by (intro impI max_absorb1) simp
  moreover have "bar_height xs w = 100 \<longleftrightarrow> b + 1 \<le> ser_max xs" if "w = ser_max xs"
    using pos that unfolding h by (auto simp: r max_def field_simps split: if_splits)
  ultimately show ?thesis using mono b(1,2) by (auto simp: h)
qed

theorem chart_bars_within_plot_witness:
  "bar_height [50, 60, 100] 60 \<le> bar_height [50, 60, 100] 100 \<and> bar_height [50, 60, 100] 100 \<le> 100"
  using chart_bars_within_plot[of 60 "[50, 60, 100]" 100] by simp

text \<open>For a series that varies by less than one the top label and the middle label can coincide, while the
  bar of that value reaches only half of the plot; a series without samples has infinite labels.\<close>

lemma chart_label_examples:
  "csTicks (series_view 0 None [] [5/2, 5/2]) = [''2.5'', ''2.5'', ''2'']"
  "bar_height [5/2, 5/2] (5/2) = 50"
  "csTicks (series_view 0 None [] []) = [''1'', ''Infinity'', ''Infinity'']"
  by code_simp+

text \<open>What the JSON previewer does with a file: text that is not JSON is shown as the text \<open>null\<close>, and a
  timeseries with at least one series but no array of labels makes the page throw.\<close>

theorem chart_bad_input:
  "(json_parse raw = None \<longrightarrow> ChartView raw = Some (ChartJson JNull)) \<and>
   (json_parse raw = Some (JObj fs) \<and> map_of fs ''type'' = Some (JStr ''timeseries'') \<and>
    map_of fs ''series'' = Some (JArr (s # ss)) \<and> map_of fs ''labels'' = None \<longrightarrow> ChartView raw = None)"
proof (intro conjI impI)
  assume "json_parse raw = None"
  then show "ChartView raw = Some (ChartJson JNull)" by (simp add: ChartView_def)
next
  assume "json_parse raw = Some (JObj fs) \<and> map_of fs ''type'' = Some (JStr ''timeseries'') \<and>
    map_of fs ''series'' = Some (JArr (s # ss)) \<and> map_of fs ''labels'' = None"
  then show "ChartView raw = None"
    by (simp add: ChartView_def falsy_def render_series_def split: option.split json.split)
qed

theorem chart_bad_input_witness:
  "ChartView (stringify (JObj [(''type'', JStr ''timeseries''), (''series'', JArr [JObj [(''data'', JArr [JNum 1])]])])) = None"
proof -
  let ?fs = "[(''type'', JStr ''timeseries''), (''series'', JArr [JObj [(''data'', JArr [JNum 1])]])]"
  have "json_parse (stringify (JObj ?fs)) = Some (JObj ?fs)" by (rule json_parse_stringify) simp
  then show ?thesis
    using conjunct2[OF chart_bad_input[of "stringify (JObj ?fs)" ?fs "JObj [(''data'', JArr [JNum 1])]" "[]"]] by simp
qed

text \<open>The text that stands for fetched binary content is not JSON.\<close>

lemma inspector_placeholder: "WasmInspector ''[binary data]'' = Some (WasmParseError ''[binary data]'')"
  by code_simp

end
