(* ===== verification/Regex.thy ===== *)
theory Regex
  imports Json
begin

text \<open>
  The two ways the previewers use a regular expression: \<open>s.replace(re, "")\<close> with the global flag, and
  \<open>s.split(re)\<close> with the whole expression captured, which keeps the matches as tokens. An expression
  that never matches the empty string is given by the length of its match at the front of a text, 0 if
  there is none; both operations take the leftmost match and go on behind it.

  The locales state what the clients know of their expressions: a match lies within the text
  (\<open>matcher\<close>), and does not look past a line feed (\<open>line_matcher\<close>).
\<close>

function re_remove :: "(string \<Rightarrow> nat) \<Rightarrow> string \<Rightarrow> string" where
  "re_remove m [] = []"
| "re_remove m (c # cs) =
     (if m (c # cs) = 0 then c # re_remove m cs else re_remove m (drop (m (c # cs)) (c # cs)))"
  by pat_completeness auto
termination by (relation "measure (\<lambda>(m, s). length s)") auto

function re_split :: "(string \<Rightarrow> nat) \<Rightarrow> string \<Rightarrow> string \<Rightarrow> string list" where
  "re_split m plain [] = [plain]"
| "re_split m plain (c # cs) =
     (if m (c # cs) = 0 then re_split m (plain @ [c]) cs
      else plain # take (m (c # cs)) (c # cs) # re_split m [] (drop (m (c # cs)) (c # cs)))"
  by pat_completeness auto
termination by (relation "measure (\<lambda>(m, p, s). length s)") auto

lemma concat_re_split: "concat (re_split m plain s) = plain @ s"
  by (induction m plain s rule: re_split.induct) (simp_all del: take_Suc_Cons drop_Suc_Cons)

lemma odd_re_split: "odd (length (re_split m plain s))"
  by (induction m plain s rule: re_split.induct) simp_all

lemma subseq_re_remove: "subseq (re_remove m s) s"
proof (induction m s rule: re_remove.induct)
  case (2 m c cs)
  show ?case
  proof (cases "m (c # cs) = 0")
    case True
    with 2 show ?thesis by simp
  next
    case False
    have "subseq (drop (m (c # cs)) (c # cs)) (c # cs)" by (rule suffix_imp_subseq[OF suffix_drop])
    with 2(2)[OF False] have "subseq (re_remove m (drop (m (c # cs)) (c # cs))) (c # cs)" by (rule subseq_order.trans)
    with False show ?thesis by (simp del: drop_Suc_Cons)
  qed
qed simp

lemma set_re_remove: "x \<in> set (re_remove m s) \<Longrightarrow> x \<in> set s"
  using subseq_re_remove[of m s] by (metis subseq_singleton_left subseq_order.trans)

text \<open>A text in which nothing matches is kept.\<close>

lemma re_split_no_match: "(\<And>p q. s = p @ q \<Longrightarrow> q \<noteq> [] \<Longrightarrow> m q = 0) \<Longrightarrow> re_split m plain s = [plain @ s]"
proof (induction m plain s rule: re_split.induct)
  case (2 m plain c cs)
  have "m (c # cs) = 0" by (rule 2(3)[of "[]"]) simp_all
  moreover have "m q = 0" if "cs = p @ q" "q \<noteq> []" for p q using 2(3)[of "c # p" q] that by simp
  ultimately show ?case using 2(1) by simp
qed simp

locale matcher =
  fixes m :: "string \<Rightarrow> nat"
  assumes match_le: "m s \<le> length s"
begin

lemma match_Nil [simp]: "m [] = 0"
  using match_le[of "[]"] by simp

text \<open>A whole token: a text that matches as it stands, whatever follows.\<close>

lemma re_remove_token:
  "\<lbrakk>w \<noteq> []; m (w @ r) = length w\<rbrakk> \<Longrightarrow> re_remove m (w @ r) = re_remove m r"
  by (cases w) simp_all

lemma re_split_token:
  "\<lbrakk>w \<noteq> []; m (w @ r) = length w\<rbrakk> \<Longrightarrow> re_split m plain (w @ r) = plain # w # re_split m [] r"
  by (cases w) simp_all

text \<open>A text whose characters start no match, whatever follows.\<close>

lemma re_remove_plain:
  "(\<And>c q. c \<in> set t \<Longrightarrow> m (c # q) = 0) \<Longrightarrow> re_remove m (t @ r) = t @ re_remove m r"
  by (induction t) simp_all

lemma re_split_plain:
  "(\<And>c q. c \<in> set t \<Longrightarrow> m (c # q) = 0) \<Longrightarrow> re_split m plain (t @ r) = re_split m (plain @ t) r"
  by (induction t arbitrary: plain) simp_all

end

locale line_matcher = matcher +
  assumes match_line: "CHR 0x0A \<notin> set p \<Longrightarrow> m (p @ CHR 0x0A # q) = m p"
begin

lemma re_remove_line:
  "CHR 0x0A \<notin> set p \<Longrightarrow> re_remove m (p @ CHR 0x0A # q) = re_remove m p @ CHR 0x0A # re_remove m q"
proof (induction p rule: length_induct)
  case (1 p)
  show ?case
  proof (cases p)
    case Nil
    then show ?thesis using match_line[of "[]" q] by simp
  next
    case (Cons c cs)
    let ?n = "m p"
    have m: "m (p @ CHR 0x0A # q) = ?n" by (rule match_line[OF 1(2)])
    have len: "?n \<le> length p" by (rule match_le)
    show ?thesis
    proof (cases "?n = 0")
      case True
      with 1 Cons m show ?thesis by simp
    next
      case False
      have "length (drop ?n p) < length p" "CHR 0x0A \<notin> set (drop ?n p)"
        using False Cons 1(2) by (auto dest: in_set_dropD)
      with 1(1) have IH: "re_remove m (drop ?n p @ CHR 0x0A # q) = re_remove m (drop ?n p) @ CHR 0x0A # re_remove m q"
        by blast
      have "drop ?n (p @ CHR 0x0A # q) = drop ?n p @ CHR 0x0A # q" using len by simp
      then show ?thesis using IH m False Cons by (simp del: drop_Suc_Cons)
    qed
  qed
qed

text \<open>Removing the matches line by line is removing them in the whole text.\<close>

lemma split_re_remove: "split_on (CHR 0x0A) (re_remove m s) = map (re_remove m) (split_on (CHR 0x0A) s)"
proof (induction s rule: length_induct)
  case (1 s)
  show ?case
  proof (cases "CHR 0x0A \<in> set s")
    case False
    then have "CHR 0x0A \<notin> set (re_remove m s)" using set_re_remove by blast
    with False show ?thesis by (simp add: split_on_free)
  next
    case True
    then obtain p q where s: "s = p @ CHR 0x0A # q" "CHR 0x0A \<notin> set p" by (meson split_list_first)
    then have "CHR 0x0A \<notin> set (re_remove m p)" using set_re_remove by blast
    moreover have "split_on (CHR 0x0A) (re_remove m q) = map (re_remove m) (split_on (CHR 0x0A) q)" using 1 s by simp
    ultimately show ?thesis by (simp add: s re_remove_line split_on_append_sep)
  qed
qed

end

end
