(* ===== verification/LogView.thy ===== *)
theory LogView
  imports Regex
begin

text \<open>
  \<open>frontend/components/ComponentRegistry.tsx\<close>, the log previewer: lines, ANSI colour sequences removed,
  each with its number and colour.
\<close>

section \<open>The viewer\<close>

definition sgr_char :: "char \<Rightarrow> bool" where
  "sgr_char c \<longleftrightarrow> is_digit c \<or> c = CHR '';''"

text \<open>The length of a match of \<open>\x1b\[[0-9;]*m\<close>\<close>

definition sgr_len :: "string \<Rightarrow> nat" where
  "sgr_len s =
     (if starts_with [CHR 0x1B, CHR ''[''] s then
        (let k = length (takeWhile sgr_char (drop 2 s))
         in if starts_with ''m'' (drop (2 + k) s) then k + 3 else 0)
      else 0)"

definition stripAnsi :: "string \<Rightarrow> string" where
  "stripAnsi s = re_remove sgr_len s"

definition logLineColor :: "string \<Rightarrow> string" where
  "logLineColor line =
     (let l = to_lower line in
      if str_includes ''error'' l \<or> str_includes ''fatal'' l \<or> str_includes ''panic'' l then ''var(--color-danger)''
      else if str_includes ''warn'' l then ''var(--color-warn)''
      else if str_includes ''debug'' l then ''var(--color-text-muted)''
      else ''var(--color-text-secondary)'')"

record log_row =
  rowNumber :: nat
  rowColor :: string
  rowText :: string

definition log_lines :: "string \<Rightarrow> string list" where
  "log_lines raw = map stripAnsi (split_on (CHR 0x0A) raw)"

definition log_title :: "string \<Rightarrow> string" where
  "log_title raw = ''Log '' @ em_dash @ '' '' @ nat_str (length (log_lines raw)) @ '' lines''"

definition LogViewer :: "string \<Rightarrow> log_row list" where
  "LogViewer raw =
     map (\<lambda>(i, line). \<lparr>rowNumber = i + 1, rowColor = logLineColor line, rowText = line\<rparr>)
       (enumerate 0 (log_lines raw))"

section \<open>Properties\<close>

text \<open>A colour sequence with its parameters.\<close>

definition sgr :: "string \<Rightarrow> string" where
  "sgr ps = [CHR 0x1B, CHR ''[''] @ ps @ ''m''"

lemma sgr_char_marks [simp]: "\<not> sgr_char (CHR ''m'')" "\<not> sgr_char (CHR 0x0A)"
  by (simp_all add: sgr_char_def is_digit_def)

lemma sgr_len_le: "sgr_len s \<le> length s"
proof (cases "starts_with [CHR 0x1B, CHR ''[''] s")
  case True
  then obtain r where s: "s = CHR 0x1B # CHR ''['' # r" by (auto simp: starts_with_iff)
  let ?k = "length (takeWhile sgr_char r)"
  have "starts_with ''m'' (drop ?k r) \<Longrightarrow> ?k < length r"
    using length_takeWhile_le[of sgr_char r] by (cases "?k = length r") (auto simp: starts_with_def)
  then show ?thesis by (auto simp: sgr_len_def Let_def s)
qed (simp add: sgr_len_def)

lemma takeWhile_sgr_line: "takeWhile sgr_char (r @ CHR 0x0A # q) = takeWhile sgr_char r"
  by (induction r) simp_all

lemma sgr_len_line:
  assumes "CHR 0x0A \<notin> set p"
  shows "sgr_len (p @ CHR 0x0A # q) = sgr_len p"
proof -
  have front: "starts_with [CHR 0x1B, CHR ''[''] (p @ CHR 0x0A # q) = starts_with [CHR 0x1B, CHR ''[''] p"
    by (cases p; cases "tl p") (auto simp: starts_with_def)
  show ?thesis
  proof (cases "starts_with [CHR 0x1B, CHR ''[''] p")
    case True
    then obtain r where p: "p = CHR 0x1B # CHR ''['' # r" by (auto simp: starts_with_iff)
    let ?k = "length (takeWhile sgr_char r)"
    have "?k \<le> length r" by (rule length_takeWhile_le)
    then have "starts_with ''m'' (drop ?k (r @ CHR 0x0A # q)) = starts_with ''m'' (drop ?k r)"
      by (cases "drop ?k r") (auto simp: starts_with_def)
    then show ?thesis by (simp add: sgr_len_def Let_def p starts_with_def takeWhile_sgr_line)
  qed (simp add: sgr_len_def front)
qed

interpretation sgr_re: line_matcher sgr_len
  by unfold_locales (rule sgr_len_le, erule sgr_len_line)

lemma sgr_len_sgr: "list_all sgr_char ps \<Longrightarrow> sgr_len (sgr ps @ r) = length (sgr ps)"
proof -
  assume "list_all sgr_char ps"
  then have "takeWhile sgr_char (ps @ CHR ''m'' # r) = ps"
    by (subst takeWhile_append2) (auto simp: list_all_iff)
  then show ?thesis by (simp add: sgr_len_def sgr_def starts_with_def Let_def)
qed

lemma sgr_len_no_esc: "c \<noteq> CHR 0x1B \<Longrightarrow> sgr_len (c # q) = 0"
  by (simp add: sgr_len_def starts_with_def)

text \<open>The log viewer removes exactly the colour sequences: from any text made of plain pieces without
  an escape character and colour sequences between them, \<open>stripAnsi\<close> gives back the plain pieces, in
  order.\<close>

theorem stripAnsi_keeps_text:
  assumes "\<forall>(t, ps) \<in> set pieces. CHR 0x1B \<notin> set t \<and> list_all sgr_char ps" "CHR 0x1B \<notin> set end_text"
  shows "stripAnsi (concat (map (\<lambda>(t, ps). t @ sgr ps) pieces) @ end_text) = concat (map fst pieces) @ end_text"
proof -
  have plain: "re_remove sgr_len (t @ r) = t @ re_remove sgr_len r" if "CHR 0x1B \<notin> set t" for t r
    using that by (intro sgr_re.re_remove_plain sgr_len_no_esc) auto
  have "re_remove sgr_len end_text = end_text" using plain[OF assms(2), of "[]"] by simp
  moreover have "re_remove sgr_len (sgr ps @ r) = re_remove sgr_len r" if "list_all sgr_char ps" for ps r
    using that by (intro sgr_re.re_remove_token sgr_len_sgr) (simp_all add: sgr_def)
  ultimately show ?thesis unfolding stripAnsi_def
    using assms(1) plain by (induction pieces) auto
qed

theorem stripAnsi_keeps_text_witness:
  "stripAnsi (concat (map (\<lambda>(t, ps). t @ sgr ps) [(''a'', ''1;31''), (''bc'', [])]) @ ''d'') = ''abcd''"
proof -
  have "\<forall>(t, ps) \<in> set [(''a'', ''1;31''), (''bc'', [])]. CHR 0x1B \<notin> set t \<and> list_all sgr_char ps"
    by (simp add: sgr_char_def is_digit_def)
  from stripAnsi_keeps_text[OF this, of "''d''"] show ?thesis by simp
qed

text \<open>Stripping line by line, as the viewer does, gives the lines of the stripped text; the rows are
  numbered from 1 and there is one for every line of the file.\<close>

theorem log_rows_of_text:
  "map rowText (LogViewer raw) = split_on (CHR 0x0A) (stripAnsi raw) \<and>
   map rowNumber (LogViewer raw) = [1..<length (split_on (CHR 0x0A) raw) + 1]"
proof -
  have "map (stripAnsi) (split_on (CHR 0x0A) raw) = split_on (CHR 0x0A) (stripAnsi raw)"
    unfolding stripAnsi_def by (rule sgr_re.split_re_remove[symmetric])
  moreover have "map rowText (LogViewer raw) = log_lines raw"
    by (simp add: LogViewer_def case_prod_beta comp_def)
  moreover have "map rowNumber (LogViewer raw) = map Suc (map fst (enumerate 0 (log_lines raw)))"
    unfolding LogViewer_def map_map by (rule map_cong) auto
  moreover have "length (log_lines raw) = length (split_on (CHR 0x0A) raw)" by (simp add: log_lines_def)
  ultimately show ?thesis by (simp add: log_lines_def[of raw, symmetric] map_Suc_upt del: upt_Suc)
qed

text \<open>Removing a sequence can put the halves of another one together, which then stays: stripping is not
  idempotent.\<close>

lemma stripAnsi_not_idempotent:
  "stripAnsi ([CHR 0x1B, CHR ''[''] @ sgr ''0'' @ ''31mred'') = sgr ''31'' @ ''red''"
  by code_simp

end
