(* ===== verification/Markdown.thy ===== *)
theory Markdown
  imports Regex
begin

text \<open>
  \<open>frontend/components/ComponentRegistry.tsx\<close>, the Markdown previewer: the block loop over the lines and
  the inline tokens. Nodes carry what they display; their styling and keys are left out.
\<close>

section \<open>Inline tokens\<close>

text \<open>The length of a match of \<open>open[^stop]+close\<close>; the run is greedy, and since the closing text starts
  with the stop character no shorter run can match.\<close>

definition delim_len :: "string \<Rightarrow> char \<Rightarrow> string \<Rightarrow> string \<Rightarrow> nat" where
  "delim_len opening stop closing s =
     (let r = drop (length opening) s; k = length (takeWhile (\<lambda>c. c \<noteq> stop) r) in
      if starts_with opening s \<and> 0 < k \<and> starts_with closing (drop k r)
      then length opening + k + length closing else 0)"

definition bold_len :: "string \<Rightarrow> nat" where
  "bold_len = delim_len ''**'' (CHR ''*'') ''**''"

definition code_len :: "string \<Rightarrow> nat" where
  "code_len = delim_len ''`'' (CHR ''`'') ''`''"

definition link_len :: "string \<Rightarrow> nat" where
  "link_len s =
     (let a = delim_len ''['' (CHR '']'') '']('' s; b = delim_len [] (CHR '')'') '')'' (drop a s) in
      if a = 0 \<or> b = 0 then 0 else a + b)"

definition italic_len :: "string \<Rightarrow> nat" where
  "italic_len = delim_len ''_'' (CHR ''_'') ''_''"

definition inline_len :: "string \<Rightarrow> nat" where
  "inline_len s = (if bold_len s \<noteq> 0 then bold_len s else if code_len s \<noteq> 0 then code_len s else link_len s)"

text \<open>The longest prefix that \<open>.*\<close> matches: up to a line terminator.\<close>

fun dots :: "string \<Rightarrow> string" where
  "dots [] = []"
| "dots (c # cs) =
     (if c = CHR 0x0A \<or> c = CHR 0x0D \<or> starts_with [CHR 0xE2, CHR 0x80, CHR 0xA8] (c # cs) \<or>
         starts_with [CHR 0xE2, CHR 0x80, CHR 0xA9] (c # cs)
      then [] else c # dots cs)"

text \<open>The two groups of \<open>^\[(.+?)\]\((.+?)\)$\<close>: the first group is as short as possible.\<close>

definition link_groups :: "string \<Rightarrow> (string \<times> string) option" where
  "link_groups tok =
     (let text = (\<lambda>k. take k (drop 1 tok)); url = (\<lambda>k. butlast (drop (3 + k) tok)) in
      if starts_with ''['' tok \<and> ends_with '')'' tok then
        map_option (\<lambda>k. (text k, url k))
          (List.find (\<lambda>k. dots (text k) = text k \<and> starts_with '']('' (drop (1 + k) tok) \<and>
             url k \<noteq> [] \<and> dots (url k) = url k) [1..<length tok])
      else None)"

datatype inline_node =
    Strong string
  | CodeSpan string
  | Link string string
  | Italics "(bool \<times> string) list"
  | Span string

definition italic_part :: "string \<Rightarrow> bool \<times> string" where
  "italic_part p =
     (if starts_with ''_'' p \<and> ends_with ''_'' p \<and> length p > 2 then (True, slice_ends 1 1 p) else (False, p))"

definition token_node :: "string \<Rightarrow> inline_node" where
  "token_node tok =
     (if starts_with ''**'' tok \<and> ends_with ''**'' tok then Strong (slice_ends 2 2 tok)
      else if starts_with ''`'' tok \<and> ends_with ''`'' tok then CodeSpan (slice_ends 1 1 tok)
      else case link_groups tok of
        Some (text, url) \<Rightarrow> Link text url
      | None \<Rightarrow>
          (let parts = re_split italic_len [] tok in
           if length parts > 1 then Italics (map italic_part parts) else Span tok))"

definition renderInline :: "string \<Rightarrow> inline_node list" where
  "renderInline text = map token_node (re_split inline_len [] text)"

section \<open>Blocks\<close>

datatype block =
    MdCode string string
  | MdHeading nat "inline_node list"
  | MdRule
  | MdQuote "inline_node list"
  | MdList "inline_node list list"
  | MdTable "inline_node list list list"
  | MdPre string
  | MdPara "inline_node list"

abbreviation fence :: "string \<Rightarrow> bool" where
  "fence line \<equiv> starts_with ''```'' line"

definition heading :: "nat \<Rightarrow> string \<Rightarrow> string option" where
  "heading n line =
     (let g = dots (drop (n + 1) line) in
      if starts_with (replicate n (CHR ''#'') @ '' '') line \<and> g \<noteq> [] then Some g else None)"

definition is_rule :: "string \<Rightarrow> bool" where
  "is_rule line \<longleftrightarrow> length (trim line) \<ge> 3 \<and> list_all (\<lambda>c. c = CHR ''-'') (trim line)"

text \<open>The cells of a table row: the parts between the first and the last bar.\<close>

definition table_cells :: "string \<Rightarrow> string list" where
  "table_cells line = map trim (butlast (tl (split_on (CHR ''|'') line)))"

definition separator_cell :: "string \<Rightarrow> bool" where
  "separator_cell c \<longleftrightarrow> c \<noteq> [] \<and> list_all (\<lambda>x. x \<in> set ''-: '') c"

definition table_rows :: "string list \<Rightarrow> string list list" where
  "table_rows ls = filter (\<lambda>cells. \<not> list_all separator_cell cells) (map table_cells ls)"

text \<open>The loop over indented lines: an empty line belongs to the block if an indented one follows.\<close>

abbreviation indented :: "string \<Rightarrow> bool" where
  "indented line \<equiv> starts_with ''    '' line"

fun take_indented :: "string list \<Rightarrow> string list \<times> string list" where
  "take_indented [] = ([], [])"
| "take_indented (l # ls) =
     (if indented l \<or> (l = [] \<and> (case ls of [] \<Rightarrow> False | m # ms \<Rightarrow> indented m))
      then (case take_indented ls of (code, rest) \<Rightarrow> (drop 4 l # code, rest))
      else ([], l # ls))"

lemma take_indented_length: "length (snd (take_indented ls)) \<le> length ls"
  by (induction ls) (auto split: prod.split)

function md_blocks :: "string list \<Rightarrow> block list" where
  "md_blocks [] = []"
| "md_blocks (line # ls) =
     (if fence line then
        MdCode (trim (drop 3 line)) (join [CHR 0x0A] (takeWhile (\<lambda>l. \<not> fence l) ls))
          # md_blocks (drop 1 (dropWhile (\<lambda>l. \<not> fence l) ls))
      else case heading 1 line of Some g \<Rightarrow> MdHeading 1 (renderInline g) # md_blocks ls
      | None \<Rightarrow> case heading 2 line of Some g \<Rightarrow> MdHeading 2 (renderInline g) # md_blocks ls
      | None \<Rightarrow> case heading 3 line of Some g \<Rightarrow> MdHeading 3 (renderInline g) # md_blocks ls
      | None \<Rightarrow>
        if is_rule line then MdRule # md_blocks ls
        else if starts_with ''> '' line then MdQuote (renderInline (drop 2 line)) # md_blocks ls
        else if starts_with ''- '' line then
          MdList (map (\<lambda>l. renderInline (drop 2 l)) (line # takeWhile (starts_with ''- '') ls))
            # md_blocks (dropWhile (starts_with ''- '') ls)
        else if starts_with ''|'' line then
          (let rows = table_rows (line # takeWhile (starts_with ''|'') ls);
               rest = md_blocks (dropWhile (starts_with ''|'') ls)
           in if rows \<noteq> [] then MdTable (map (map renderInline) rows) # rest else rest)
        else if indented line then
          MdPre (join [CHR 0x0A] (drop 4 line # fst (take_indented ls))) # md_blocks (snd (take_indented ls))
        else if trim line = [] then md_blocks ls
        else MdPara (renderInline line) # md_blocks ls)"
  by pat_completeness auto
termination
  by (relation "measure length")
    (auto simp: less_Suc_eq_le length_dropWhile_le take_indented_length intro: le_trans[OF diff_le_self length_dropWhile_le])

declare md_blocks.simps(2) [simp del]

definition MarkdownViewer :: "string \<Rightarrow> block list" where
  "MarkdownViewer raw = md_blocks (split_on (CHR 0x0A) raw)"

section \<open>Inline rendering\<close>

lemma delim_len_le: "delim_len op st cl s \<le> length s"
proof -
  let ?r = "drop (length op) s"
  let ?k = "length (takeWhile (\<lambda>c. c \<noteq> st) ?r)"
  have "?k \<le> length ?r" by (rule length_takeWhile_le)
  moreover have "length w \<le> length t" if "starts_with w t" for w t using that by (auto simp: starts_with_iff)
  from this[of cl "drop ?k ?r"] this[of op s]
  have "starts_with cl (drop ?k ?r) \<Longrightarrow> length cl \<le> length ?r - ?k" "starts_with op s \<Longrightarrow> length op \<le> length s"
    by simp_all
  ultimately show ?thesis by (auto simp: delim_len_def Let_def)
qed

lemma delim_len_match:
  assumes "st \<notin> set t" "t \<noteq> []" "cl = st # cl'"
  shows "delim_len op st cl (op @ t @ cl @ r) = length op + length t + length cl"
proof -
  have "takeWhile (\<lambda>c. c \<noteq> st) (t @ cl @ r) = t" using assms by (subst takeWhile_append2) auto
  then show ?thesis using assms(2) by (simp add: delim_len_def Let_def starts_with_def)
qed

lemma delim_len_front: "op \<noteq> [] \<Longrightarrow> c \<noteq> hd op \<Longrightarrow> delim_len op st cl (c # q) = 0"
  by (cases op) (simp_all add: delim_len_def starts_with_def)

lemma link_len_le: "link_len s \<le> length s"
proof -
  let ?a = "delim_len ''['' (CHR '']'') '']('' s"
  have "?a \<le> length s" "delim_len [] (CHR '')'') '')'' (drop ?a s) \<le> length (drop ?a s)" by (rule delim_len_le)+
  then show ?thesis by (auto simp: link_len_def Let_def)
qed

interpretation inline_re: matcher inline_len
  by unfold_locales (simp add: inline_len_def bold_len_def code_len_def delim_len_le link_len_le)

interpretation italic_re: matcher italic_len
  by unfold_locales (simp add: italic_len_def delim_len_le)

lemmas inline_lens = bold_len_def code_len_def link_len_def italic_len_def inline_len_def

lemma inline_len_plain: "c \<notin> set ''*`['' \<Longrightarrow> inline_len (c # q) = 0"
  by (simp add: inline_lens delim_len_front)

text \<open>Marked text and what it should become.\<close>

datatype mark = MBold string | MCode string | MLink string string

fun mark_source :: "mark \<Rightarrow> string" where
  "mark_source (MBold t) = ''**'' @ t @ ''**''"
| "mark_source (MCode t) = ''`'' @ t @ ''`''"
| "mark_source (MLink t u) = ''['' @ t @ '']('' @ u @ '')''"

fun mark_ok :: "mark \<Rightarrow> bool" where
  "mark_ok (MBold t) \<longleftrightarrow> t \<noteq> [] \<and> CHR ''*'' \<notin> set t"
| "mark_ok (MCode t) \<longleftrightarrow> t \<noteq> [] \<and> CHR ''`'' \<notin> set t"
| "mark_ok (MLink t u) \<longleftrightarrow> t \<noteq> [] \<and> u \<noteq> [] \<and> CHR '']'' \<notin> set t \<and> CHR '')'' \<notin> set u \<and> dots t = t \<and> dots u = u"

fun mark_node :: "mark \<Rightarrow> inline_node" where
  "mark_node (MBold t) = Strong t"
| "mark_node (MCode t) = CodeSpan t"
| "mark_node (MLink t u) = Link t u"

lemma drop_marked: "drop (length t + 3) (a # t @ b # c # r) = r" "drop (3 + length t) (a # t @ b # c # r) = r"
  by (simp_all add: numeral_3_eq_3)

lemma inline_len_mark: "mark_ok mk \<Longrightarrow> inline_len (mark_source mk @ r) = length (mark_source mk)"
proof (cases mk)
  case (MBold t)
  assume "mark_ok mk"
  then show ?thesis using MBold delim_len_match[of "CHR ''*''" t "''**''" "''*''" "''**''" r]
    by (simp add: inline_lens)
next
  case (MCode t)
  assume "mark_ok mk"
  then show ?thesis using MCode delim_len_match[of "CHR ''`''" t "''`''" "[]" "''`''" r]
    by (simp add: inline_lens delim_len_front)
next
  case (MLink t u)
  assume ok: "mark_ok mk"
  have "delim_len ''['' (CHR '']'') '']('' (''['' @ t @ '']('' @ u @ '')'' @ r) = length t + 3"
    using ok MLink delim_len_match[of "CHR '']''" t "'']('' " "''(''" "''[''" "u @ '')'' @ r"] by simp
  moreover have "delim_len [] (CHR '')'') '')'' (u @ '')'' @ r) = length u + 1"
    using ok MLink delim_len_match[of "CHR '')''" u "'')''" "[]" "[]" r] by simp
  ultimately show ?thesis using MLink by (simp add: inline_lens delim_len_front Let_def drop_marked)
qed

lemma find_upt: "\<lbrakk>a \<le> k; k < n; P k; \<And>j. j < k \<Longrightarrow> \<not> P j\<rbrakk> \<Longrightarrow> List.find P [a..<n] = Some k"
  unfolding find_Some_iff by (intro exI[of _ "k - a"]) auto

lemma link_groups_link:
  assumes "t \<noteq> []" "u \<noteq> []" "CHR '']'' \<notin> set t" "dots t = t" "dots u = u"
  shows "link_groups (''['' @ t @ '']('' @ u @ '')'') = Some (t, u)"
proof -
  let ?tok = "''['' @ t @ '']('' @ u @ '')''"
  let ?text = "\<lambda>k. take k (drop 1 ?tok)" and ?url = "\<lambda>k. butlast (drop (3 + k) ?tok)"
  let ?P = "\<lambda>k. dots (?text k) = ?text k \<and> starts_with '']('' (drop (1 + k) ?tok) \<and> ?url k \<noteq> [] \<and> dots (?url k) = ?url k"
  have k: "?text (length t) = t" "?url (length t) = u" by (simp_all add: drop_marked)
  have "\<not> ?P j" if "j < length t" for j
  proof -
    have "drop (1 + j) ?tok = t ! j # drop (Suc j) t @ '']('' @ u @ '')''" using that by (simp add: Cons_nth_drop_Suc)
    moreover have "t ! j \<noteq> CHR '']''" using that assms(3) nth_mem by metis
    ultimately show ?thesis by (simp add: starts_with_def)
  qed
  moreover have "?P (length t)" using assms k by (simp add: starts_with_def)
  moreover have "1 \<le> length t" "length t < length ?tok" using assms(1) by (simp_all add: Suc_le_eq)
  ultimately have "List.find ?P [1..<length ?tok] = Some (length t)" by (intro find_upt)
  then show ?thesis using k by (simp add: link_groups_def Let_def starts_with_def ends_with_def)
qed

lemma token_node_mark: "mark_ok mk \<Longrightarrow> token_node (mark_source mk) = mark_node mk"
proof (cases mk)
  case (MLink t u)
  assume "mark_ok mk"
  then show ?thesis using MLink link_groups_link[of t u] by (simp add: token_node_def starts_with_def)
qed (auto simp: token_node_def starts_with_def ends_with_def slice_ends_def)

lemma token_node_plain:
  assumes "set p \<inter> set ''*`[_'' = {}"
  shows "token_node p = Span p"
proof -
  have "re_split italic_len [] (p @ []) = re_split italic_len ([] @ p) []"
    using assms by (intro italic_re.re_split_plain) (auto simp: italic_len_def intro!: delim_len_front)
  then have "re_split italic_len [] p = [p]" by simp
  moreover have "\<not> starts_with (c # w) p" if "c \<in> set ''*`[_''" for c w using that assms by (cases p) (auto simp: starts_with_def)
  ultimately show ?thesis by (simp add: token_node_def link_groups_def)
qed

text \<open>Inline Markdown is rendered as it is written: a text of plain pieces (without the characters
  \<open>*\<close>, \<open>`\<close>, \<open>[\<close> and \<open>_\<close>) with bold, code and link marks between them becomes those pieces and marks in
  order, with their texts unchanged. In particular the target of a link is taken over as it stands,
  whatever its scheme.\<close>

theorem renderInline_roundtrip:
  assumes "\<forall>(p, mk) \<in> set ps. set p \<inter> set ''*`[_'' = {} \<and> mark_ok mk" "set e \<inter> set ''*`[_'' = {}"
  shows "renderInline (concat (map (\<lambda>(p, mk). p @ mark_source mk) ps) @ e)
    = concat (map (\<lambda>(p, mk). [Span p, mark_node mk]) ps) @ [Span e]"
proof -
  have plain: "re_split inline_len q (p @ r) = re_split inline_len (q @ p) r" if "set p \<inter> set ''*`[_'' = {}" for p q r
    using that by (intro inline_re.re_split_plain inline_len_plain) auto
  have "mark_source mk \<noteq> []" for mk by (cases mk) simp_all
  then have mark: "re_split inline_len q (mark_source mk @ r) = q # mark_source mk # re_split inline_len [] r"
    if "mark_ok mk" for mk q r
    using that by (intro inline_re.re_split_token inline_len_mark)
  have "re_split inline_len [] (concat (map (\<lambda>(p, mk). p @ mark_source mk) ps) @ e)
      = concat (map (\<lambda>(p, mk). [p, mark_source mk]) ps) @ [e]"
    using assms plain[of e "[]" "[]"] by (induction ps) (auto simp: plain mark)
  moreover have "map token_node (case x of (p, mk) \<Rightarrow> [p, mark_source mk]) = (case x of (p, mk) \<Rightarrow> [Span p, mark_node mk])"
    if "x \<in> set ps" for x
    using assms(1) that by (auto simp: token_node_plain token_node_mark)
  ultimately show ?thesis using token_node_plain[OF assms(2)]
    by (simp add: renderInline_def map_concat comp_def cong: map_cong)
qed

theorem renderInline_roundtrip_witness:
  "renderInline (concat (map (\<lambda>(p, mk). p @ mark_source mk)
      [(''see '', MLink ''docs'' ''javascript:x''), ('' and '', MBold ''this'')]) @ ''.'')
   = [Span ''see '', Link ''docs'' ''javascript:x'', Span '' and '', Strong ''this'', Span ''.'']"
proof -
  have "\<forall>(p, mk) \<in> set [(''see '', MLink ''docs'' ''javascript:x''), ('' and '', MBold ''this'')].
      set p \<inter> set ''*`[_'' = {} \<and> mark_ok mk"
    by (simp add: starts_with_def)
  from renderInline_roundtrip[OF this, of "''.''"] show ?thesis by simp
qed

text \<open>A text that is only a delimiter is taken for an empty mark, and nothing is displayed for it.\<close>

lemma lone_delimiter_disappears: "renderInline ''**'' = [Strong []]" "renderInline ''`'' = [CodeSpan []]"
  by code_simp+

section \<open>Documents\<close>

lemma strip_left_keeps: "c \<in> set s \<Longrightarrow> (\<And>w. w \<in> set ws \<Longrightarrow> c \<notin> set w) \<Longrightarrow> c \<in> set (strip_left ws s)"
proof (induction ws s rule: strip_left.induct)
  case (1 ws s)
  show ?case
  proof (cases "List.find (\<lambda>w. w \<noteq> [] \<and> starts_with w s) ws")
    case None
    with 1 show ?thesis by (simp add: strip_left.simps)
  next
    case (Some w)
    then obtain r where "w \<in> set ws" "s = w @ r" by (auto simp: find_Some_iff starts_with_iff)
    moreover from Some have "strip_left ws s = strip_left ws (drop (length w) s)"
      by (subst strip_left.simps) simp
    ultimately show ?thesis using 1 Some by auto
  qed
qed

text \<open>A character that is part of no white space survives trimming.\<close>

definition text_char :: "char \<Rightarrow> bool" where
  "text_char c \<longleftrightarrow> list_all (\<lambda>w. c \<notin> set w) js_ws"

lemma trim_keeps: "c \<in> set s \<Longrightarrow> text_char c \<Longrightarrow> c \<in> set (trim s)"
  unfolding trim_def text_char_def list_all_iff by (auto intro!: strip_left_keeps)

lemma not_rule: "c \<in> set s \<Longrightarrow> text_char c \<Longrightarrow> c \<noteq> CHR ''-'' \<Longrightarrow> \<not> is_rule s"
  using trim_keeps by (fastforce simp: is_rule_def list_all_iff)

text \<open>Parts of a document, their source lines, and the blocks they should become.\<close>

datatype part =
    PPara string
  | PHeading nat string
  | PFence string "string list"
  | PRule
  | PQuote string
  | PList "string list"
  | PTable "string list" "string list list"

definition table_line :: "string list \<Rightarrow> string" where
  "table_line cells = ''|'' @ join ''|'' cells @ ''|''"

fun part_source :: "part \<Rightarrow> string list" where
  "part_source (PPara l) = [l]"
| "part_source (PHeading n t) = [replicate n (CHR ''#'') @ '' '' @ t]"
| "part_source (PFence lang code) = (''```'' @ lang) # code @ [''```'']"
| "part_source PRule = [''---'']"
| "part_source (PQuote t) = [''> '' @ t]"
| "part_source (PList ts) = map (\<lambda>t. ''- '' @ t) ts"
| "part_source (PTable h rows) = table_line h # table_line (map (\<lambda>c. ''---'') h) # map table_line rows"

definition cells_ok :: "string list \<Rightarrow> bool" where
  "cells_ok cells \<longleftrightarrow> (\<forall>c \<in> set cells. CHR ''|'' \<notin> set c \<and> trim c = c) \<and> \<not> list_all separator_cell cells"

fun part_ok :: "part \<Rightarrow> bool" where
  "part_ok (PPara l) \<longleftrightarrow> l \<noteq> [] \<and> hd l \<notin> set ''`#>-| '' \<and> trim l = l"
| "part_ok (PHeading n t) \<longleftrightarrow> n \<in> {1, 2, 3} \<and> t \<noteq> [] \<and> dots t = t"
| "part_ok (PFence lang code) \<longleftrightarrow> trim lang = lang \<and> (\<forall>l \<in> set code. \<not> fence l)"
| "part_ok PRule \<longleftrightarrow> True"
| "part_ok (PQuote t) \<longleftrightarrow> True"
| "part_ok (PList ts) \<longleftrightarrow> ts \<noteq> [] \<and> (\<forall>t \<in> set ts. \<exists>c \<in> set t. text_char c \<and> c \<noteq> CHR ''-'')"
| "part_ok (PTable h rows) \<longleftrightarrow> (\<forall>cells \<in> set (h # rows). cells_ok cells)"

fun part_view :: "part \<Rightarrow> block" where
  "part_view (PPara l) = MdPara (renderInline l)"
| "part_view (PHeading n t) = MdHeading n (renderInline t)"
| "part_view (PFence lang code) = MdCode lang (join [CHR 0x0A] code)"
| "part_view PRule = MdRule"
| "part_view (PQuote t) = MdQuote (renderInline t)"
| "part_view (PList ts) = MdList (map renderInline ts)"
| "part_view (PTable h rows) = MdTable (map (map renderInline) (h # rows))"

lemma starts_with_Nil [simp]: "starts_with (c # w) [] \<longleftrightarrow> False" "starts_with [] s"
  by (simp_all add: starts_with_def)

lemma starts_with_Cons [simp]: "starts_with (c # w) (x # s) \<longleftrightarrow> c = x \<and> starts_with w s"
  by (auto simp: starts_with_def)

lemma heading_None: "l = [] \<or> hd l \<noteq> CHR ''#'' \<Longrightarrow> 0 < n \<Longrightarrow> heading n l = None"
  by (cases n; cases l) (auto simp: heading_def Let_def)

lemma md_blank: "md_blocks ([] # rest) = md_blocks rest"
proof -
  have "trim [] = []" by code_simp
  then show ?thesis by (simp add: md_blocks.simps(2) heading_None is_rule_def)
qed

lemma md_para: "part_ok (PPara l) \<Longrightarrow> md_blocks (l # rest) = MdPara (renderInline l) # md_blocks rest"
proof -
  assume ok: "part_ok (PPara l)"
  then obtain c cs where l: "l = c # cs" "CHR ''`'' \<noteq> c" "c \<noteq> CHR ''#''" "CHR ''>'' \<noteq> c" "CHR ''-'' \<noteq> c"
    "CHR ''|'' \<noteq> c" "CHR '' '' \<noteq> c"
    by (cases l) auto
  then have "\<not> is_rule l" using ok by (auto simp: is_rule_def)
  then show ?thesis using ok l by (simp add: md_blocks.simps(2) heading_None)
qed

lemma starts_with_append [simp]: "starts_with (p @ q) (p @ s) \<longleftrightarrow> starts_with q s"
  by (induction p) simp_all

lemma heading_hit: "t \<noteq> [] \<Longrightarrow> dots t = t \<Longrightarrow> heading n (replicate n (CHR ''#'') @ '' '' @ t) = Some t"
  by (simp add: heading_def Let_def)

lemma heading_miss: "k < n \<Longrightarrow> heading k (replicate n (CHR ''#'') @ r) = None"
proof -
  assume "k < n"
  then have "replicate n (CHR ''#'') = replicate k (CHR ''#'') @ CHR ''#'' # replicate (n - Suc k) (CHR ''#'')"
    by (metis Suc_diff_Suc add_diff_inverse_nat less_imp_not_less replicate_Suc replicate_add)
  then show ?thesis by (simp add: heading_def Let_def)
qed

lemma md_heading:
  assumes "part_ok (PHeading n t)"
  shows "md_blocks (part_source (PHeading n t) @ rest) = part_view (PHeading n t) # md_blocks rest"
proof -
  let ?l = "replicate n (CHR ''#'') @ '' '' @ t"
  have n: "n = 1 \<or> n = 2 \<or> n = 3" and t: "heading n ?l = Some t" using assms by (auto simp: heading_hit simp del: append_Cons append_Nil)
  have "\<not> fence ?l" using n by (cases n) auto
  then show ?thesis using n t heading_miss[of 1 n "'' '' @ t"] heading_miss[of 2 n "'' '' @ t"]
    by (auto simp: md_blocks.simps(2))
qed

lemma md_fence: "part_ok (PFence lang code) \<Longrightarrow> md_blocks (part_source (PFence lang code) @ rest) = part_view (PFence lang code) # md_blocks rest"
proof -
  assume ok: "part_ok (PFence lang code)"
  then have "takeWhile (\<lambda>l. \<not> fence l) (code @ ''```'' # rest) = code"
    "dropWhile (\<lambda>l. \<not> fence l) (code @ ''```'' # rest) = ''```'' # rest"
    by (simp_all add: takeWhile_append dropWhile_append)
  then show ?thesis using ok by (simp add: md_blocks.simps(2) numeral_3_eq_3)
qed

lemma md_rule: "md_blocks (''---'' # rest) = MdRule # md_blocks rest"
proof -
  have "is_rule ''---''" by code_simp
  then show ?thesis by (simp add: md_blocks.simps(2) heading_None)
qed

lemma md_quote: "md_blocks ((''> '' @ t) # rest) = MdQuote (renderInline t) # md_blocks rest"
proof -
  have "text_char (CHR ''>'')" by code_simp
  then have "\<not> is_rule (''> '' @ t)" by (rule not_rule[rotated]) simp_all
  then show ?thesis by (simp add: md_blocks.simps(2) heading_None)
qed

lemma md_list:
  assumes "part_ok (PList ts)" "rest = [] \<or> hd rest = []"
  shows "md_blocks (part_source (PList ts) @ rest) = MdList (map renderInline ts) # md_blocks rest"
proof -
  obtain t ts' where ts: "ts = t # ts'" using assms(1) by (cases ts) auto
  obtain c where "c \<in> set t" "text_char c" "c \<noteq> CHR ''-''" using assms(1) ts by auto
  then have "\<not> is_rule (''- '' @ t)" by (intro not_rule[of c]) simp_all
  moreover have stop: "takeWhile (starts_with ''- '') rest = []" "dropWhile (starts_with ''- '') rest = rest"
    using assms(2) by (cases rest; simp)+
  have "takeWhile (starts_with ''- '') (map ((@) ''- '') ts' @ rest) = map ((@) ''- '') ts'"
    "dropWhile (starts_with ''- '') (map ((@) ''- '') ts' @ rest) = rest"
    by (simp_all add: takeWhile_append dropWhile_append stop)
  ultimately show ?thesis by (simp add: ts md_blocks.simps(2) heading_None comp_def)
qed

lemma table_cells_line:
  assumes "cells \<noteq> []" "\<forall>c \<in> set cells. CHR ''|'' \<notin> set c \<and> trim c = c"
  shows "table_cells (table_line cells) = cells"
proof -
  have "split_on (CHR ''|'') (join ''|'' cells @ ''|'') = cells @ [[]]"
    using assms split_on_join[of cells "CHR ''|''"] split_on_append[of "CHR ''|''" "join ''|'' cells" "[]"] by simp
  moreover have "map trim cells = cells" using assms(2) by (simp add: map_idI)
  ultimately show ?thesis by (simp add: table_cells_def table_line_def)
qed

lemma table_rows_lines:
  assumes "\<forall>cells \<in> set rows. cells_ok cells"
  shows "table_rows (map table_line rows) = rows"
proof -
  have "table_cells (table_line r) = r \<and> \<not> list_all separator_cell r" if "r \<in> set rows" for r
    using assms that by (cases "r = []") (auto simp: cells_ok_def table_cells_line)
  then have "map (table_cells \<circ> table_line) rows = rows" "filter (\<lambda>r. \<not> list_all separator_cell r) rows = rows"
    by (auto intro: map_idI filter_True)
  then show ?thesis by (simp add: table_rows_def)
qed

lemma table_rows_separator: "h \<noteq> [] \<Longrightarrow> table_rows (table_line (map (\<lambda>c. ''---'') h) # ls) = table_rows ls"
proof -
  assume "h \<noteq> []"
  moreover have "trim ''---'' = ''---''" "separator_cell ''---''" by code_simp+
  ultimately show ?thesis by (simp add: table_rows_def table_cells_line list_all_iff)
qed

lemma md_table:
  assumes "part_ok (PTable h rows)" "rest = [] \<or> hd rest = []"
  shows "md_blocks (part_source (PTable h rows) @ rest) = part_view (PTable h rows) # md_blocks rest"
proof -
  let ?ls = "table_line (map (\<lambda>c. ''---'') h) # map table_line rows"
  have h: "h \<noteq> []" using assms(1) by (auto simp: cells_ok_def)
  obtain x where x: "table_line h = CHR ''|'' # x" by (simp add: table_line_def)
  have "text_char (CHR ''|'')" by code_simp
  then have rule: "\<not> is_rule (CHR ''|'' # x)" by (rule not_rule[rotated]) simp_all
  have bar: "starts_with ''|'' (table_line cells)" for cells by (simp add: table_line_def)
  have stop: "takeWhile (starts_with ''|'') rest = []" "dropWhile (starts_with ''|'') rest = rest"
    using assms(2) by (cases rest; simp)+
  have ls: "takeWhile (starts_with ''|'') (?ls @ rest) = ?ls" "dropWhile (starts_with ''|'') (?ls @ rest) = rest"
    by (simp_all add: takeWhile_append dropWhile_append stop bar)
  have "table_rows (table_line h # ?ls) = table_rows [table_line h] @ table_rows ?ls"
    by (simp add: table_rows_def)
  also have "\<dots> = h # rows"
    using assms(1) h table_rows_lines[of "[h]"] table_rows_lines[of rows] by (simp add: table_rows_separator)
  finally have rows: "table_rows (table_line h # ?ls) = h # rows" .
  have "md_blocks (table_line h # ?ls @ rest) = MdTable (map (map renderInline) (h # rows)) # md_blocks rest"
    using rule rows ls unfolding x by (simp add: md_blocks.simps(2) heading_None Let_def)
  then show ?thesis by simp
qed

lemma md_part:
  assumes "part_ok p"
  shows "md_blocks (part_source p @ [] # rest) = part_view p # md_blocks rest"
proof -
  have "md_blocks (part_source p @ [] # rest) = part_view p # md_blocks ([] # rest)"
  proof (cases p)
    case (PPara l)
    then show ?thesis using assms md_para[of l] by simp
  next
    case (PHeading n t)
    then show ?thesis using assms md_heading by (simp del: part_source.simps part_ok.simps part_view.simps)
  next
    case (PFence lang code)
    then show ?thesis using assms md_fence by (simp del: part_source.simps part_ok.simps part_view.simps)
  next
    case PRule
    then show ?thesis by (simp add: md_rule)
  next
    case (PQuote t)
    then show ?thesis using md_quote[of t] by simp
  next
    case (PList ts)
    then show ?thesis using assms md_list[of ts "[] # rest"] by simp
  next
    case (PTable h rows)
    then show ?thesis using assms md_table[of h rows "[] # rest"] by simp
  qed
  then show ?thesis by (simp add: md_blank)
qed

text \<open>C25: A Markdown document is rendered block by block as it is written: for any sequence of paragraphs,
  headings, fenced code, rules, quotes, lists and tables, each followed by an empty line, the viewer
  shows exactly one block for each, in order, with the text of code unchanged and the rest rendered
  inline.\<close>

theorem markdown_roundtrip:
  assumes "list_all part_ok ps" "lines = concat (map (\<lambda>p. part_source p @ [[]]) ps)"
    "\<forall>l \<in> set lines. CHR 0x0A \<notin> set l"
  shows "MarkdownViewer (join [CHR 0x0A] lines) = map part_view ps"
proof -
  have md: "md_blocks lines = map part_view ps" unfolding assms(2)
    using assms(1) by (induction ps) (simp_all add: md_part)
  show ?thesis
  proof (cases "lines = []")
    case True
    then show ?thesis using md by (simp add: MarkdownViewer_def md_blank)
  next
    case False
    then have "split_on (CHR 0x0A) (join [CHR 0x0A] lines) = lines" using assms(3) by (intro split_on_join) auto
    then show ?thesis using md by (simp add: MarkdownViewer_def)
  qed
qed

theorem markdown_roundtrip_witness:
  "MarkdownViewer (join [CHR 0x0A]
     [''# Report'', [], ''```sh'', ''# not a heading'', [], ''```'', [], ''- one'', ''- two'', [],
      ''|k|v|'', ''|---|---|'', ''|a|1|'', []])
   = [MdHeading 1 [Span ''Report''], MdCode ''sh'' (''# not a heading'' @ [CHR 0x0A]),
      MdList [[Span ''one''], [Span ''two'']], MdTable [[[Span ''k''], [Span ''v'']], [[Span ''a''], [Span ''1'']]]]"
proof -
  let ?ps = "[PHeading 1 ''Report'', PFence ''sh'' [''# not a heading'', []], PList [''one'', ''two''],
    PTable [''k'', ''v''] [[''a'', ''1'']]]"
  let ?lines = "[''# Report'', [], ''```sh'', ''# not a heading'', [], ''```'', [], ''- one'', ''- two'', [],
      ''|k|v|'', ''|---|---|'', ''|a|1|'', []]"
  have "list_all part_ok ?ps" "?lines = concat (map (\<lambda>p. part_source p @ [[]]) ?ps)"
    "\<forall>l \<in> set ?lines. CHR 0x0A \<notin> set l" by code_simp+
  from markdown_roundtrip[OF this] have "MarkdownViewer (join [CHR 0x0A] ?lines) = map part_view ?ps" .
  moreover have "map part_view ?ps = [MdHeading 1 [Span ''Report''], MdCode ''sh'' (''# not a heading'' @ [CHR 0x0A]),
      MdList [[Span ''one''], [Span ''two'']], MdTable [[[Span ''k''], [Span ''v'']], [[Span ''a''], [Span ''1'']]]]"
    by code_simp
  ultimately show ?thesis by (rule trans)
qed

text \<open>A table row without a closing bar loses its last cell.\<close>

lemma open_row_loses_cell: "table_cells ''| a | b'' = [''a'']"
  by code_simp

end
