(* ===== verification/MarkdownLoop.thy ===== *)
theory MarkdownLoop
  imports Markdown
begin

text \<open>
  The loop of \<open>MarkdownViewer\<close> as \<open>frontend/components/ComponentRegistry.tsx\<close> writes it: an index \<open>i\<close> into
  the array of lines, an array the nodes are pushed to, and inner loops that advance the same index. The
  loops are partial functions, so that not terminating would be the value \<open>None\<close>; they are shown to
  return, and to compute \<open>md_blocks\<close>.
\<close>

section \<open>The loops\<close>

text \<open>The inner \<open>while\<close> loops: as long as the condition holds, push an item and advance.\<close>

partial_function (option) gather :: "(nat \<Rightarrow> bool) \<Rightarrow> (nat \<Rightarrow> 'a) \<Rightarrow> nat \<Rightarrow> 'a list \<Rightarrow> (nat \<times> 'a list) option" where
  "gather go item i acc = (if go i then gather go item (Suc i) (acc @ [item i]) else Some (i, acc))"

text \<open>Their conditions, each with its check of the bounds.\<close>

definition in_code :: "string list \<Rightarrow> nat \<Rightarrow> bool" where
  "in_code ls i \<longleftrightarrow> i < length ls \<and> \<not> fence (ls ! i)"

definition in_list :: "string list \<Rightarrow> nat \<Rightarrow> bool" where
  "in_list ls i \<longleftrightarrow> i < length ls \<and> starts_with ''- '' (ls ! i)"

definition in_table :: "string list \<Rightarrow> nat \<Rightarrow> bool" where
  "in_table ls i \<longleftrightarrow> i < length ls \<and> starts_with ''|'' (ls ! i)"

definition in_indented :: "string list \<Rightarrow> nat \<Rightarrow> bool" where
  "in_indented ls i \<longleftrightarrow> i < length ls \<and>
     (indented (ls ! i) \<or> ls ! i = [] \<and> Suc i < length ls \<and> indented (ls ! Suc i))"

partial_function (option) md_loop :: "string list \<Rightarrow> nat \<Rightarrow> block list \<Rightarrow> block list option" where
  "md_loop ls i out =
     (if i < length ls then
        (let line = ls ! i in
         if fence line then
           (case gather (in_code ls) (\<lambda>k. ls ! k) (Suc i) [] of None \<Rightarrow> None
            | Some (j, code) \<Rightarrow> md_loop ls (Suc j) (out @ [MdCode (trim (drop 3 line)) (join [CHR 0x0A] code)]))
         else case heading 1 line of Some g \<Rightarrow> md_loop ls (Suc i) (out @ [MdHeading 1 (renderInline g)])
         | None \<Rightarrow> case heading 2 line of Some g \<Rightarrow> md_loop ls (Suc i) (out @ [MdHeading 2 (renderInline g)])
         | None \<Rightarrow> case heading 3 line of Some g \<Rightarrow> md_loop ls (Suc i) (out @ [MdHeading 3 (renderInline g)])
         | None \<Rightarrow>
           if is_rule line then md_loop ls (Suc i) (out @ [MdRule])
           else if starts_with ''> '' line then md_loop ls (Suc i) (out @ [MdQuote (renderInline (drop 2 line))])
           else if starts_with ''- '' line then
             (case gather (in_list ls) (\<lambda>k. renderInline (drop 2 (ls ! k))) i [] of None \<Rightarrow> None
              | Some (j, items) \<Rightarrow> md_loop ls j (out @ [MdList items]))
           else if starts_with ''|'' line then
             (case gather (in_table ls) (\<lambda>k. table_cells (ls ! k)) i [] of None \<Rightarrow> None
              | Some (j, cells) \<Rightarrow>
                  (let rows = filter (\<lambda>cs. \<not> list_all separator_cell cs) cells in
                   md_loop ls j (if rows \<noteq> [] then out @ [MdTable (map (map renderInline) rows)] else out)))
           else if indented line then
             (case gather (in_indented ls) (\<lambda>k. drop 4 (ls ! k)) i [] of None \<Rightarrow> None
              | Some (j, code) \<Rightarrow> md_loop ls j (out @ [MdPre (join [CHR 0x0A] code)]))
           else if trim line = [] then md_loop ls (Suc i) out
           else md_loop ls (Suc i) (out @ [MdPara (renderInline line)]))
      else Some out)"

section \<open>The inner loops return\<close>

lemma gather_done: "\<not> go i \<Longrightarrow> gather go item i acc = Some (i, acc)"
  by (subst gather.simps) simp

lemma gather_go: "go i \<Longrightarrow> gather go item i acc = gather go item (Suc i) (acc @ [item i])"
  by (subst gather.simps) simp

lemma gather_upto:
  "\<lbrakk>i \<le> j; \<And>k. i \<le> k \<Longrightarrow> k < j \<Longrightarrow> go k; \<not> go j\<rbrakk> \<Longrightarrow> gather go item i acc = Some (j, acc @ map item [i..<j])"
proof (induction "j - i" arbitrary: i acc)
  case 0
  then show ?case by (simp add: gather_done)
next
  case (Suc n)
  then have "i < j" "go i" by simp_all
  with Suc show ?case by (simp add: gather_go upt_rec[of i j])
qed

text \<open>A loop that tests one line after the other takes the lines that pass.\<close>

lemma gather_takeWhile:
  assumes "\<And>k. go k \<longleftrightarrow> k < length ls \<and> P (ls ! k)" "i \<le> length ls"
  defines "taken \<equiv> takeWhile P (drop i ls)"
  shows "gather go (\<lambda>k. f (ls ! k)) i acc = Some (i + length taken, acc @ map f taken)"
proof -
  let ?n = "length taken"
  have n: "?n \<le> length ls - i" using length_takeWhile_le[of P "drop i ls"] by (simp add: taken_def)
  have go: "go k" if "i \<le> k" "k < i + ?n" for k
  proof -
    have "drop i ls ! (k - i) = taken ! (k - i)" using that by (simp add: taken_def takeWhile_nth)
    moreover have "taken ! (k - i) \<in> set taken" using that by (intro nth_mem) simp
    then have "P (taken ! (k - i))" unfolding taken_def by (rule set_takeWhileD[THEN conjunct2])
    ultimately show ?thesis using that n assms(1,2) by simp
  qed
  have stop: "\<not> go (i + ?n)"
    using nth_length_takeWhile[of P "drop i ls"] assms(1,2) n by (auto simp: taken_def)
  have items: "map (\<lambda>k. f (ls ! k)) [i..<i + ?n] = map f taken"
  proof (rule nth_equalityI)
    fix k assume "k < length (map (\<lambda>k. f (ls ! k)) [i..<i + ?n])"
    then show "map (\<lambda>k. f (ls ! k)) [i..<i + ?n] ! k = map f taken ! k"
      using assms(2) n by (simp add: taken_def takeWhile_nth)
  qed simp
  have "gather go (\<lambda>k. f (ls ! k)) i acc = Some (i + ?n, acc @ map (\<lambda>k. f (ls ! k)) [i..<i + ?n])"
    by (rule gather_upto) (use go stop in simp_all)
  then show ?thesis unfolding items .
qed

lemma gather_indented:
  "i \<le> length ls \<Longrightarrow> gather (in_indented ls) (\<lambda>k. drop 4 (ls ! k)) i acc
     = Some (length ls - length (snd (take_indented (drop i ls))), acc @ fst (take_indented (drop i ls)))"
proof (induction "length ls - i" arbitrary: i acc)
  case 0
  then show ?case by (simp add: gather_done in_indented_def)
next
  case (Suc n)
  then have i: "i < length ls" by simp
  then have d: "drop i ls = ls ! i # drop (Suc i) ls" by (simp add: Cons_nth_drop_Suc)
  have go: "in_indented ls i \<longleftrightarrow> indented (ls ! i) \<or>
      ls ! i = [] \<and> (case drop (Suc i) ls of [] \<Rightarrow> False | m # ms \<Rightarrow> indented m)"
    using i by (cases "Suc i < length ls") (simp_all add: in_indented_def Cons_nth_drop_Suc[symmetric])
  show ?case
  proof (cases "in_indented ls i")
    case True
    have "gather (in_indented ls) (\<lambda>k. drop 4 (ls ! k)) (Suc i) (acc @ [drop 4 (ls ! i)])
      = Some (length ls - length (snd (take_indented (drop (Suc i) ls))),
          (acc @ [drop 4 (ls ! i)]) @ fst (take_indented (drop (Suc i) ls)))"
      using Suc.hyps(2) i by (intro Suc.hyps(1)) simp_all
    with True go show ?thesis by (simp add: gather_go d split: prod.split)
  next
    case False
    then have "take_indented (drop i ls) = ([], drop i ls)" unfolding go d take_indented.simps by (simp only: if_False)
    with False show ?thesis using i by (simp add: gather_done)
  qed
qed

section \<open>The outer loop returns\<close>

lemma drop_takeWhile: "drop (length (takeWhile P xs)) xs = dropWhile P xs"
  by (metis dropWhile_eq_drop)

lemma drop_drop_takeWhile: "drop (i + length (takeWhile P (drop i xs))) xs = dropWhile P (drop i xs)"
  by (metis add.commute drop_drop drop_takeWhile)

lemma take_indented_drop:
  "snd (take_indented ls) = drop (length (fst (take_indented ls))) ls \<and> length (fst (take_indented ls)) \<le> length ls"
  by (induction ls) (auto split: prod.split)

lemma md_loop_step:
  assumes "i < length ls"
    and IH: "\<And>j out. i < j \<Longrightarrow> md_loop ls j out = Some (out @ md_blocks (drop j ls))"
  shows "md_loop ls i out = Some (out @ md_blocks (drop i ls))"
proof -
  let ?line = "ls ! i" and ?rest = "drop (Suc i) ls"
  have d: "drop i ls = ?line # ?rest" using assms(1) by (simp add: Cons_nth_drop_Suc)
  note loop = md_loop.simps[of ls i out] and blocks = md_blocks.simps(2)[of ?line ?rest, folded d]
  note one = IH[OF lessI]
  let ?plain = "heading 1 ?line = None \<and> heading 2 ?line = None \<and> heading 3 ?line = None \<and> \<not> is_rule ?line \<and>
    \<not> starts_with ''> '' ?line"
  text \<open>A loop over lines that pass a test, from a line that does.\<close>
  have run: "gather go (\<lambda>k. f (ls ! k)) i [] = Some (i + length (?line # takeWhile P ?rest), map f (?line # takeWhile P ?rest)) \<and>
      md_loop ls (i + length (?line # takeWhile P ?rest)) out' = Some (out' @ md_blocks (dropWhile P ?rest))"
    if "\<And>k. go k \<longleftrightarrow> k < length ls \<and> P (ls ! k)" "P ?line" for go and f :: "string \<Rightarrow> 'b" and P out'
  proof -
    have t: "takeWhile P (drop i ls) = ?line # takeWhile P ?rest" "dropWhile P (drop i ls) = dropWhile P ?rest"
      using that(2) by (simp_all add: d)
    show ?thesis
      using gather_takeWhile[OF that(1), of i f "[]"] assms(1) drop_drop_takeWhile[of i P ls] IH
      by (simp add: t)
  qed
  consider (fence) "fence ?line"
    | (list) "\<not> fence ?line" ?plain "starts_with ''- '' ?line"
    | (table) "\<not> fence ?line" ?plain "\<not> starts_with ''- '' ?line" "starts_with ''|'' ?line"
    | (indented) "\<not> fence ?line" ?plain "\<not> starts_with ''- '' ?line" "\<not> starts_with ''|'' ?line" "indented ?line"
    | (one_line) "\<not> fence ?line" "\<not> ?plain \<or> \<not> starts_with ''- '' ?line \<and> \<not> starts_with ''|'' ?line \<and> \<not> indented ?line"
    by blast
  then show ?thesis
  proof cases
    case fence
    have "gather (in_code ls) (\<lambda>k. ls ! k) (Suc i) []
        = Some (Suc i + length (takeWhile (\<lambda>l. \<not> fence l) ?rest), [] @ map (\<lambda>l. l) (takeWhile (\<lambda>l. \<not> fence l) ?rest))"
      using assms(1) by (intro gather_takeWhile[where f = "\<lambda>l. l"]) (simp_all add: in_code_def)
    moreover have "drop (Suc (Suc i + length (takeWhile (\<lambda>l. \<not> fence l) ?rest))) ls = drop 1 (dropWhile (\<lambda>l. \<not> fence l) ?rest)"
      by (metis drop_drop drop_drop_takeWhile plus_1_eq_Suc)
    ultimately show ?thesis using assms(1) fence unfolding loop blocks by (simp add: IH)
  next
    case list
    note r = run[of "in_list ls" "starts_with ''- ''" "\<lambda>l. renderInline (drop 2 l)"]
    show ?thesis using assms(1) list r unfolding loop blocks by (simp add: in_list_def)
  next
    case table
    note r = run[of "in_table ls" "starts_with ''|''" table_cells]
    show ?thesis using assms(1) table r unfolding loop blocks by (simp add: in_table_def table_rows_def Let_def)
  next
    case indented
    let ?t = "take_indented ?rest"
    have t: "snd ?t = drop (length (fst ?t)) ?rest" "length (fst ?t) \<le> length ls - Suc i"
      using take_indented_drop[of ?rest] by simp_all
    then have "length ls - length (snd ?t) = Suc i + length (fst ?t)" using assms(1) by simp
    moreover have "take_indented (drop i ls) = (drop 4 ?line # fst ?t, snd ?t)" using indented(5) by (simp add: d split: prod.split)
    ultimately have "gather (in_indented ls) (\<lambda>k. drop 4 (ls ! k)) i [] = Some (Suc i + length (fst ?t), drop 4 ?line # fst ?t)"
      using gather_indented[of i ls "[]"] assms(1) by simp
    moreover have "drop (Suc i + length (fst ?t)) ls = snd ?t" using t(1) by (simp add: add.commute)
    ultimately show ?thesis using assms(1) indented unfolding loop blocks by (simp add: IH)
  next
    case one_line
    then show ?thesis using assms(1) one unfolding loop blocks by (auto split: option.split)
  qed
qed

lemma md_loop_returns: "md_loop ls i out = Some (out @ md_blocks (drop i ls))"
proof (induction "length ls - i" arbitrary: i out rule: less_induct)
  case less
  show ?case
  proof (cases "i < length ls")
    case True
    then show ?thesis by (rule md_loop_step) (rule less.hyps, use True in simp)
  next
    case False
    then show ?thesis by (subst md_loop.simps) simp
  qed
qed

section \<open>Properties\<close>

text \<open>C26: The Markdown loop always ends, whatever the file contains: every branch advances the index, also
  where an inner loop does it (an unclosed code fence, a list, table or indented block up to the last
  line), and the nodes it has pushed are the blocks of the document.\<close>

theorem markdown_loop_terminates:
  "md_loop (split_on (CHR 0x0A) raw) 0 [] = Some (MarkdownViewer raw)"
  by (simp add: md_loop_returns MarkdownViewer_def)

end
