(* ===== verification/Preview.thy ===== *)
theory Preview
  imports Registry Grid Chart LogView MarkdownLoop
begin

text \<open>
  \<open>frontend/components/ComponentRegistry.tsx\<close>, the previewers inside the registry: which of them is mounted,
  the state it keeps, and what is displayed.

  Two of them have state: the grid its page and order, and the image element, which its error handler
  hides. React keeps a previewer, with its state, as long as the same kind of previewer stays on display,
  also when it is for another file.
\<close>

section \<open>The mounted previewer\<close>

text \<open>\<open>PlainViewer\<close>: no previewer, or one without state. The flag of \<open>ImageViewer\<close> is \<open>display = "none"\<close>.\<close>

datatype viewer = PlainViewer | GridViewer grid | ImageViewer bool

fun viewer_on :: "RegistryPane \<Rightarrow> viewer \<Rightarrow> viewer" where
  "viewer_on (GridPane raw) v = (case v of GridViewer g \<Rightarrow> GridViewer g | _ \<Rightarrow> GridViewer grid_init)"
| "viewer_on (ImagePane title src) v = (case v of ImageViewer hidden \<Rightarrow> ImageViewer hidden | _ \<Rightarrow> ImageViewer False)"
| "viewer_on _ v = PlainViewer"

fun viewer_grid :: "RegistryPane \<Rightarrow> grid_event \<Rightarrow> viewer \<Rightarrow> viewer" where
  "viewer_grid (GridPane raw) e (GridViewer g) = GridViewer (grid_step raw g e)"
| "viewer_grid pane e v = v"

fun image_error :: "viewer \<Rightarrow> viewer" where
  "image_error (ImageViewer hidden) = ImageViewer True"
| "image_error v = v"

section \<open>What is displayed\<close>

text \<open>The screen of a previewer: its toolbar and its content. \<open>ScreenThrows\<close> is an exception while rendering.\<close>

datatype screen_view =
    ScreenImage string string bool
  | ScreenGrid grid_view
  | ScreenChart string chart_view
  | ScreenWasm wasm_view
  | ScreenMarkdown string "block list"
  | ScreenLog string "log_row list"
  | ScreenRaw string string
  | ScreenLoading string
  | ScreenError string load_error
  | ScreenThrows

definition RawViewer :: "string \<Rightarrow> string \<Rightarrow> screen_view" where
  "RawViewer label raw = ScreenRaw label raw"

definition LoadingPane_view :: screen_view where
  "LoadingPane_view = ScreenLoading (''Loading'' @ [CHR 0xE2, CHR 0x80, CHR 0xA6])"

definition ErrorPane_view :: "load_error \<Rightarrow> screen_view" where
  "ErrorPane_view message = ScreenError ''Failed to load preview'' message"

text \<open>The title of the image toolbar is the file's name; \<open>pop\<close> of a split is never undefined.\<close>

definition ImageViewer_view :: "string \<Rightarrow> string \<Rightarrow> viewer \<Rightarrow> screen_view" where
  "ImageViewer_view title src v = ScreenImage title src (v = ImageViewer True)"

definition chart_screen :: "string \<Rightarrow> screen_view" where
  "chart_screen raw = (case ChartView raw of
       None \<Rightarrow> ScreenThrows
     | Some (ChartJson data) \<Rightarrow> ScreenChart ''JSON'' (ChartJson data)
     | Some view \<Rightarrow> ScreenChart ''Timeseries Chart'' view)"

definition wasm_screen :: "string \<Rightarrow> screen_view" where
  "wasm_screen raw = (case WasmInspector raw of
       None \<Rightarrow> ScreenThrows
     | Some (WasmParseError text) \<Rightarrow> RawViewer ''WASM (parse error)'' text
     | Some view \<Rightarrow> ScreenWasm view)"

fun preview_screen :: "(string \<Rightarrow> string \<Rightarrow> int) \<Rightarrow> viewer \<Rightarrow> RegistryPane \<Rightarrow> screen_view" where
  "preview_screen lc v (ImagePane title src) = ImageViewer_view title src v"
| "preview_screen lc v (GridPane raw) = ScreenGrid (DataGrid lc raw (case v of GridViewer g \<Rightarrow> g | _ \<Rightarrow> grid_init))"
| "preview_screen lc v (ChartPane raw) = chart_screen raw"
| "preview_screen lc v (WasmPane raw) = wasm_screen raw"
| "preview_screen lc v (MarkdownPane title raw) = ScreenMarkdown title (MarkdownViewer raw)"
| "preview_screen lc v (LogPane raw) = ScreenLog (log_title raw) (LogViewer raw)"
| "preview_screen lc v (RawPane raw) = RawViewer ''Raw'' raw"
| "preview_screen lc v LoadingPane = LoadingPane_view"
| "preview_screen lc v (ErrorPane message) = ErrorPane_view message"

text \<open>Whether rendering throws depends on the content alone.\<close>

fun pane_throws :: "RegistryPane \<Rightarrow> bool" where
  "pane_throws (ChartPane raw) \<longleftrightarrow> ChartView raw = None"
| "pane_throws (WasmPane raw) \<longleftrightarrow> WasmInspector raw = None"
| "pane_throws _ \<longleftrightarrow> False"

lemma pane_throws_screen: "pane_throws pane \<longleftrightarrow> preview_screen lc v pane = ScreenThrows"
  by (cases pane) (simp_all add: chart_screen_def wasm_screen_def RawViewer_def ImageViewer_view_def LoadingPane_view_def
      ErrorPane_view_def split: option.split chart_view.split wasm_view.split)

text \<open>The mounted previewer is that of the pane.\<close>

definition viewer_fits :: "RegistryPane \<Rightarrow> viewer \<Rightarrow> bool" where
  "viewer_fits pane v \<longleftrightarrow> (case pane of
       GridPane raw \<Rightarrow> (\<exists>g. v = GridViewer g)
     | ImagePane title src \<Rightarrow> (\<exists>hidden. v = ImageViewer hidden)
     | _ \<Rightarrow> v = PlainViewer)"

lemma viewer_on_fits: "viewer_fits pane (viewer_on pane v)"
  by (cases pane) (auto simp: viewer_fits_def split: viewer.split)

lemma viewer_on_same: "viewer_fits pane v \<Longrightarrow> viewer_on pane v = v"
  by (cases pane) (auto simp: viewer_fits_def)

end
