(* ===== verification/Workspace.thy ===== *)
theory Workspace
  imports App Preview
begin

text \<open>
  The page with the components of its main pane: \<open>ExecutionConsole.tsx\<close> shows there the previewer of a
  file, the code editor or the welcome screen, one at a time. React mounts the one on display and
  unmounts the others, so that their state is lost; the requests of an unmounted component go on.

  An unmounted previewer no longer shows what its requests return. A compilation of an unmounted editor
  still hands its program to the console, as \<open>onCompiled\<close> is the console's own function.

  Console, editor and help overlay each have a key handler on the window. An effect replaces the handler
  when what it depends on has changed, and puts the new one behind those already there. A key calls the
  handlers in that order; React renders and runs the effects after each of them, and a handler that has
  been replaced or removed by then is not called, nor is its replacement.
\<close>

section \<open>Definitions\<close>

text \<open>The components with a key handler on the window.\<close>

datatype key_target = OnConsole | OnEditor | OnHelp

record ('d, 'c) workspace =
  core :: "('d, 'c) app"
  edt :: "editor option"
  mounts :: nat
  compiles :: "nat option list"
  preview :: "registry option"
  viewing :: viewer
  keys :: "key_target list"

text \<open>\<open>mounts\<close> counts the editors mounted so far, \<open>compiles\<close> has the editor of every compile request, until
  it is answered. \<open>viewing\<close> is the state of the previewer the registry has mounted, and \<open>keys\<close> has the key
  handlers in the order in which they were added to the window.\<close>

definition workspace_init :: "('d, 'c) automerge \<Rightarrow> ('d, 'c) workspace" where
  "workspace_init am = \<lparr>core = app_init am, edt = None, mounts = 0, compiles = [], preview = None, viewing = PlainViewer,
     keys = [OnConsole]\<rparr>"

abbreviation console_of :: "('d, 'c) workspace \<Rightarrow> console" where
  "console_of w \<equiv> con (sys (core w))"

text \<open>The content of the main pane, as React reconciles it after a change of the console.\<close>

definition editor_on :: "MainPane \<Rightarrow> editor option \<Rightarrow> editor option" where
  "editor_on pane e = (case pane of
       PaneEditor running \<Rightarrow> Some (case e of None \<Rightarrow> editor_init | Some e' \<Rightarrow> e')
     | _ \<Rightarrow> None)"

definition preview_on :: "MainPane \<Rightarrow> registry option \<Rightarrow> registry option" where
  "preview_on pane r = (case pane of
       PaneRegistry path sid content b64 \<Rightarrow>
         (let p = \<lparr>rpPath = path, rpSession = sid, rpContent = content, rpB64 = b64\<rparr> in
          Some (case r of None \<Rightarrow> reg_mount p | Some r' \<Rightarrow> reg_rerender p r'))
     | _ \<Rightarrow> None)"

definition viewer_after :: "registry option \<Rightarrow> viewer \<Rightarrow> viewer" where
  "viewer_after r v = (case r of None \<Rightarrow> PlainViewer | Some r' \<Rightarrow> viewer_on (ComponentRegistry r') v)"

definition settle :: "('d, 'c) workspace \<Rightarrow> ('d, 'c) workspace" where
  "settle w =
     (let pane = main_pane (console_of w); e = editor_on pane (edt w); r = preview_on pane (preview w) in
      w\<lparr>edt := e, mounts := (if edt w = None \<and> e \<noteq> None then Suc (mounts w) else mounts w),
        preview := r, viewing := viewer_after r (viewing w)\<rparr>)"

text \<open>Events of the page: those of the editor and keys come as events of their own.\<close>

fun for_page :: "'c app_event \<Rightarrow> bool" where
  "for_page (ASys (UI (Compiled t v))) \<longleftrightarrow> False"
| "for_page (ASys (UI (Key t k))) \<longleftrightarrow> False"
| "for_page e \<longleftrightarrow> True"

text \<open>A change of the mounted editor; the compile requests it sends are its own.\<close>

definition edit :: "(editor \<Rightarrow> editor) \<Rightarrow> ('d, 'c) workspace \<Rightarrow> ('d, 'c) workspace" where
  "edit f w = (case edt w of None \<Rightarrow> w
     | Some e \<Rightarrow> w\<lparr>edt := Some (f e),
         compiles := compiles w @ replicate (length (inFlight (f e)) - length (inFlight e)) (Some (mounts w))\<rparr>)"

definition running_prop :: "('d, 'c) workspace \<Rightarrow> bool" where
  "running_prop w \<longleftrightarrow> sandboxState (console_of w) = SRunning"

text \<open>What a compile response hands to the console, and its \<open>wasm_b64\<close> as the prop expects it: a string,
  or \<open>undefined\<close>.\<close>

definition handed_over :: "json http \<Rightarrow> json option list" where
  "handed_over r = handed (compile_done r editor_init)"

definition handed_text :: "json option \<Rightarrow> string option" where
  "handed_text v = (case v of Some (JStr s) \<Rightarrow> Some s | _ \<Rightarrow> None)"

datatype 'c workspace_event =
    WPage nat "'c app_event"
  | WKey nat key_event
  | WTab string nat nat
  | WChange string
  | WEditorReset
  | WCompile
  | WCompiled nat nat "json http"
  | WPreview nat "string http"
  | WGrid grid_event
  | WImageError

fun page_events :: "('d, 'c) workspace \<Rightarrow> 'c workspace_event \<Rightarrow> (nat \<times> 'c app_event) list" where
  "page_events w (WPage now e) = (if for_page e then [(now, e)] else [])"
| "page_events w (WCompiled now i r) =
     (if i < length (compiles w) \<and> compiles w ! i \<noteq> None
      then map (\<lambda>v. (now, ASys (UI (Compiled now (handed_text v))))) (handed_over r) else [])"
| "page_events w e = []"

fun pane_event :: "'c workspace_event \<Rightarrow> ('d, 'c) workspace \<Rightarrow> ('d, 'c) workspace" where
  "pane_event (WTab k a b) w = edit (\<lambda>e. fst (handleKeyDown k a b e)) w"
| "pane_event (WChange t) w = edit (on_change t) w"
| "pane_event WEditorReset w = edit editor_reset w"
| "pane_event WCompile w = edit (compile_start (running_prop w)) w"
| "pane_event (WCompiled now i r) w =
     (if i < length (compiles w) \<and> compiles w ! i \<noteq> None then
        w\<lparr>compiles := (compiles w)[i := None],
          edt := (if compiles w ! i = Some (mounts w) then map_option (compile_done r) (edt w) else edt w)\<rparr>
      else w)"
| "pane_event (WPreview i r) w = w\<lparr>preview := map_option (reg_response i r) (preview w)\<rparr>"
| "pane_event (WGrid e) w = (case preview w of None \<Rightarrow> w
     | Some r \<Rightarrow> w\<lparr>viewing := viewer_grid (ComponentRegistry r) e (viewing w)\<rparr>)"
| "pane_event WImageError w = w\<lparr>viewing := image_error (viewing w)\<rparr>"
| "pane_event e w = w"

text \<open>What the previewer displays, if there is one. An exception of a previewer is caught by no boundary.\<close>

definition preview_display :: "(string \<Rightarrow> string \<Rightarrow> int) \<Rightarrow> ('d, 'c) workspace \<Rightarrow> screen_view option" where
  "preview_display lc w = map_option (\<lambda>r. preview_screen lc (viewing w) (ComponentRegistry r)) (preview w)"

text \<open>The key handlers: whether a component's effect replaces its own when the page goes from \<open>w\<close> to \<open>w'\<close>,
  by the dependencies of the effects. \<open>onClose\<close> of the overlay is a new function whenever the console
  renders.\<close>

definition stale :: "('d, 'c) workspace \<Rightarrow> ('d, 'c) workspace \<Rightarrow> key_target \<Rightarrow> bool" where
  "stale w w' l = (case l of
       OnConsole \<Rightarrow> sandboxState (console_of w) \<noteq> sandboxState (console_of w') \<or> previewFile (console_of w) \<noteq> previewFile (console_of w')
     | OnEditor \<Rightarrow> mounts w \<noteq> mounts w' \<or> running_prop w \<noteq> running_prop w' \<or>
         map_option (\<lambda>e. (edSource e, compileState e)) (edt w) \<noteq> map_option (\<lambda>e. (edSource e, compileState e)) (edt w')
     | OnHelp \<Rightarrow> console_of w \<noteq> console_of w')"

definition mounted :: "('d, 'c) workspace \<Rightarrow> key_target \<Rightarrow> bool" where
  "mounted w l = (case l of OnConsole \<Rightarrow> True | OnEditor \<Rightarrow> edt w \<noteq> None | OnHelp \<Rightarrow> helpOpen (console_of w))"

text \<open>The effects run children first, in the order in which they are rendered. \<open>setShowVitals\<close> is called by an
  effect itself, and so makes the console render once more.\<close>

definition relisten :: "('d, 'c) workspace \<Rightarrow> ('d, 'c) workspace \<Rightarrow> ('d, 'c) workspace" where
  "relisten w w' =
     (let again = [l \<leftarrow> [OnHelp, OnEditor, OnConsole]. stale w w' l \<and> mounted w' l];
          late = (if showVitals (console_of w) \<noteq> showVitals (console_of w') then [l \<leftarrow> again. l = OnHelp] else []) in
      w'\<lparr>keys := [l \<leftarrow> keys w. \<not> stale w w' l] @ [l \<leftarrow> again. l \<notin> set late] @ late\<rparr>)"

text \<open>One turn: \<open>w1\<close> is \<open>w\<close> with what has happened in the main pane, \<open>evs\<close> are the events of the page.\<close>

definition turn ::
  "('d, 'c) automerge \<Rightarrow> page \<Rightarrow> bool \<Rightarrow> ('d, 'c) workspace \<Rightarrow> ('d, 'c) workspace \<Rightarrow> (nat \<times> 'c app_event) list \<Rightarrow> ('d, 'c) workspace" where
  "turn am pg isMac w w1 evs = relisten w (settle (w1\<lparr>core := foldl (app_step am pg isMac) (core w) evs\<rparr>))"

fun hear ::
  "('d, 'c) automerge \<Rightarrow> page \<Rightarrow> bool \<Rightarrow> nat \<Rightarrow> key_event \<Rightarrow> key_target \<Rightarrow> ('d, 'c) workspace \<Rightarrow> ('d, 'c) workspace" where
  "hear am pg isMac now k OnConsole w = turn am pg isMac w w [(now, ASys (UI (Key now k)))]"
| "hear am pg isMac now k OnHelp w = turn am pg isMac w w (map (\<lambda>u. (now, ASys (UI u))) (help_handleKey k))"
| "hear am pg isMac now k OnEditor w =
     turn am pg isMac w (edit (editor_key (running_prop w) (evKey k) (evMeta k) (evCtrl k)) w) []"

function key_dispatch ::
  "(key_target \<Rightarrow> ('d, 'c) workspace \<Rightarrow> ('d, 'c) workspace) \<Rightarrow> key_target list \<Rightarrow> ('d, 'c) workspace \<Rightarrow> ('d, 'c) workspace" where
  "key_dispatch f [] w = w"
| "key_dispatch f (l # ls) w = key_dispatch f [l' \<leftarrow> ls. \<not> stale w (f l w) l'] (f l w)"
  by pat_completeness auto
termination by (relation "measure (\<lambda>(f, ls, w). length ls)") (auto simp: le_imp_less_Suc)

definition ws_step :: "('d, 'c) automerge \<Rightarrow> page \<Rightarrow> bool \<Rightarrow> ('d, 'c) workspace \<Rightarrow> 'c workspace_event \<Rightarrow> ('d, 'c) workspace" where
  "ws_step am pg isMac w e = (case e of
       WKey now k \<Rightarrow> key_dispatch (hear am pg isMac now k) (keys w) w
     | _ \<Rightarrow> turn am pg isMac w (pane_event e w) (page_events w e))"

section \<open>The page is part of it\<close>

lemma settle_core [simp]: "core (settle w) = core w"
  by (simp add: settle_def Let_def)

lemma edit_core [simp]: "core (edit f w) = core w"
  by (simp add: edit_def split: option.split)

lemma pane_event_core [simp]: "core (pane_event e w) = core w"
  by (cases e) (simp_all split: option.split)

lemma relisten_fields [simp]:
  "core (relisten w w') = core w'" "edt (relisten w w') = edt w'" "mounts (relisten w w') = mounts w'"
  "compiles (relisten w w') = compiles w'" "preview (relisten w w') = preview w'" "viewing (relisten w w') = viewing w'"
  by (simp_all add: relisten_def Let_def)

fun is_key :: "'c workspace_event \<Rightarrow> bool" where
  "is_key (WKey now k) \<longleftrightarrow> True"
| "is_key e \<longleftrightarrow> False"

lemma ws_step_turn: "\<not> is_key e \<Longrightarrow> ws_step am pg isMac w e = turn am pg isMac w (pane_event e w) (page_events w e)"
  by (cases e) (simp_all add: ws_step_def del: pane_event.simps page_events.simps)

lemma turn_core [simp]: "core (turn am pg isMac w w1 evs) = foldl (app_step am pg isMac) (core w) evs"
  by (simp add: turn_def)

lemma core_step: "\<not> is_key e \<Longrightarrow> core (ws_step am pg isMac w e) = foldl (app_step am pg isMac) (core w) (page_events w e)"
  by (simp add: ws_step_turn)

text \<open>What every turn keeps is kept by the dispatch of a key.\<close>

lemma key_keeps: "\<lbrakk>P w; \<And>l w. P w \<Longrightarrow> P (f l w)\<rbrakk> \<Longrightarrow> P (key_dispatch f ls w)"
  by (induction f ls w rule: key_dispatch.induct) simp_all

definition key_reaction :: "nat \<Rightarrow> nat \<times> 'c app_event \<Rightarrow> bool" where
  "key_reaction now ev \<longleftrightarrow> (\<exists>u. ev = (now, ASys (UI u)))"

lemma key_core:
  assumes "P (core w)" and step: "\<And>a ev. \<lbrakk>P a; key_reaction now ev\<rbrakk> \<Longrightarrow> P (app_step am pg isMac a ev)"
  shows "P (core (ws_step am pg isMac w (WKey now k)))"
proof -
  have run: "P (foldl (app_step am pg isMac) a evs)" if "P a" "\<And>ev. ev \<in> set evs \<Longrightarrow> key_reaction now ev" for a evs
    using that by (induction evs arbitrary: a) (auto intro: step simp del: app_step.simps)
  have "P (core (hear am pg isMac now k l w'))" if "P (core w')" for l and w' :: "('a, 'b) workspace"
    using that by (cases l) (auto simp: key_reaction_def simp del: app_step.simps intro: step intro!: run)
  with assms(1) show ?thesis unfolding ws_step_def workspace_event.case
    by (intro key_keeps[of "\<lambda>w. P (core w)"])
qed

section \<open>The main pane\<close>

definition pane_inv :: "('d, 'c) workspace \<Rightarrow> bool" where
  "pane_inv w \<longleftrightarrow> (case main_pane (console_of w) of
       PaneRegistry path sid content b64 \<Rightarrow> edt w = None \<and> preview w \<noteq> None \<and>
         regProps (the (preview w)) = \<lparr>rpPath = path, rpSession = sid, rpContent = content, rpB64 = b64\<rparr>
     | PaneEditor running \<Rightarrow> edt w \<noteq> None \<and> preview w = None
     | PaneWelcome x \<Rightarrow> edt w = None \<and> preview w = None) \<and>
     (case preview w of None \<Rightarrow> viewing w = PlainViewer | Some r \<Rightarrow> viewer_fits (ComponentRegistry r) (viewing w))"

definition compile_inv :: "('d, 'c) workspace \<Rightarrow> bool" where
  "compile_inv w \<longleftrightarrow> (\<forall>m. Some m \<in> set (compiles w) \<longrightarrow> m \<le> mounts w) \<and>
     (\<forall>e. edt w = Some e \<longrightarrow> ed_inv e \<and> (compileState e = CCompiling \<longrightarrow> Some (mounts w) \<in> set (compiles w)))"

text \<open>Every mounted component has its one key handler.\<close>

definition keys_inv :: "('d, 'c) workspace \<Rightarrow> bool" where
  "keys_inv w \<longleftrightarrow> distinct (keys w) \<and> set (keys w) = {l. mounted w l}"

definition ws_inv :: "('d, 'c) workspace \<Rightarrow> bool" where
  "ws_inv w \<longleftrightarrow> app_inv (core w) \<and> pane_inv w \<and> compile_inv w \<and> keys_inv w"

lemma stale_fresh: "\<not> stale w w' l \<Longrightarrow> mounted w l = mounted w' l"
  by (cases l; cases "edt w"; cases "edt w'") (auto simp: stale_def mounted_def)

lemma relisten_fresh [simp]: "stale w (relisten w' w'') = stale w w''" "mounted (relisten w' w'') = mounted w''"
  "running_prop (relisten w' w'') = running_prop w''"
  by (auto simp: stale_def mounted_def running_prop_def fun_eq_iff split: key_target.split)

lemma relisten_keys: "keys_inv w \<Longrightarrow> keys_inv (relisten w w')"
proof -
  assume w: "keys_inv w"
  define again where "again = [l \<leftarrow> [OnHelp, OnEditor, OnConsole]. stale w w' l \<and> mounted w' l]"
  define late where "late = (if showVitals (console_of w) \<noteq> showVitals (console_of w') then [l \<leftarrow> again. l = OnHelp] else [])"
  have k: "keys (relisten w w') = [l \<leftarrow> keys w. \<not> stale w w' l] @ [l \<leftarrow> again. l \<notin> set late] @ late"
    by (simp add: relisten_def Let_def again_def late_def)
  have "l \<in> set [OnHelp, OnEditor, OnConsole]" for l by (cases l) simp_all
  then have s: "set again = {l. stale w w' l \<and> mounted w' l}" unfolding again_def set_filter by blast
  have s': "set late \<subseteq> set again" by (auto simp: late_def)
  have d: "distinct again" "distinct late" by (simp_all add: again_def late_def)
  have "distinct (keys (relisten w w'))" using w d s s' by (auto simp: k keys_inv_def)
  moreover have "set (keys (relisten w w')) = {l. mounted w' l}"
    using w s s' stale_fresh[of w w'] by (auto simp: k keys_inv_def)
  ultimately show ?thesis by (simp add: keys_inv_def)
qed

lemma reg_effect_props [simp]: "regProps (reg_effect r) = regProps r"
  by (simp add: reg_effect_def Let_def split: option.split list.split)

lemma reg_props [simp]: "regProps (reg_mount p) = p" "regProps (reg_rerender p r) = p"
  by (simp_all add: reg_mount_def reg_rerender_def Let_def)

lemma settle_pane: "pane_inv (settle w)"
  by (auto simp: pane_inv_def settle_def editor_on_def preview_on_def viewer_after_def viewer_on_fits Let_def
      split: MainPane.split option.split)

lemma settle_compiles: "compile_inv w \<Longrightarrow> compile_inv (settle w)"
  by (auto simp: compile_inv_def settle_def editor_on_def Let_def ed_inv_def editor_init_def le_Suc_eq
      split: MainPane.split option.splits)

text \<open>A change of the editor keeps \<open>compile_inv\<close> if it enters the compiling state only with a request.\<close>

definition honest :: "(editor \<Rightarrow> editor) \<Rightarrow> bool" where
  "honest f \<longleftrightarrow> (\<forall>e. ed_inv e \<longrightarrow> ed_inv (f e) \<and>
     (compileState (f e) = CCompiling \<longrightarrow> compileState e = CCompiling \<or> length (inFlight e) < length (inFlight (f e))))"

lemma honest_ops:
  "honest (compile_start b)" "honest (on_change t)" "honest editor_reset" "honest (\<lambda>e. fst (handleKeyDown k i j e))"
  "honest (editor_key b k m c)"
  by (auto simp: honest_def ed_inv_def compile_start_def on_change_def editor_reset_def handleKeyDown_def
      editor_key_def Let_def)

lemma edit_compiles: "\<lbrakk>honest f; compile_inv w\<rbrakk> \<Longrightarrow> compile_inv (edit f w)"
  by (cases "edt w") (auto simp: compile_inv_def edit_def honest_def)

lemma answer_compiles:
  assumes w: "compile_inv w" and i: "i < length (compiles w)"
  shows "compile_inv (w\<lparr>compiles := (compiles w)[i := None],
    edt := (if compiles w ! i = Some (mounts w) then map_option (compile_done r) (edt w) else edt w)\<rparr>)"
proof -
  have "Some m \<in> set (compiles w)" if "Some m \<in> set ((compiles w)[i := None])" for m
    using that set_update_subset_insert[of "compiles w" i None] by auto
  moreover have "Some m \<in> set ((compiles w)[i := None])" if "Some m \<in> set (compiles w)" "compiles w ! i \<noteq> Some m" for m
    using that unfolding in_set_conv_nth by (metis length_list_update nth_list_update_neq)
  moreover have "ed_inv (compile_done r e) \<and> compileState (compile_done r e) \<noteq> CCompiling" if "ed_inv e" for e
    using ed_inv_done[OF that, of r] compile_done_state[of r e] by auto
  ultimately show ?thesis using w by (auto simp: compile_inv_def)
qed

lemma pane_event_compiles: "compile_inv w \<Longrightarrow> compile_inv (pane_event e w)"
proof (cases e)
  case (WCompiled now i r)
  assume "compile_inv w"
  with WCompiled answer_compiles[of w i r] show ?thesis by simp
qed (simp_all add: edit_compiles honest_ops, simp_all add: compile_inv_def split: option.split)

lemma turn_inv:
  assumes "ws_inv w" "compile_inv w1"
  shows "ws_inv (turn am pg isMac w w1 evs)"
proof -
  have c: "compile_inv (w'\<lparr>core := a\<rparr>) = compile_inv w'" for w' :: "('a, 'b) workspace" and a
    by (simp add: compile_inv_def)
  have r: "pane_inv (relisten w w') = pane_inv w'" "compile_inv (relisten w w') = compile_inv w'" for w'
    by (simp_all only: pane_inv_def compile_inv_def relisten_fields)
  have "app_inv (core (turn am pg isMac w w1 evs))"
    using assms(1) by (simp add: ws_inv_def app_machine.inv_run)
  with assms show ?thesis
    by (simp add: ws_inv_def turn_def r settle_pane settle_compiles c relisten_keys)
qed

lemma hear_inv: "ws_inv w \<Longrightarrow> ws_inv (hear am pg isMac now k l w)"
proof -
  assume w: "ws_inv w"
  then have c: "compile_inv w" by (simp add: ws_inv_def)
  then show ?thesis using turn_inv[OF w] edit_compiles[OF honest_ops(5) c] by (cases l) simp_all
qed

lemma ws_inv_step: "ws_inv w \<Longrightarrow> ws_inv (ws_step am pg isMac w e)"
proof (cases "is_key e")
  case True
  assume "ws_inv w"
  with True show ?thesis by (cases e) (simp_all add: ws_step_def key_keeps[of ws_inv] hear_inv del: hear.simps)
next
  case False
  assume w: "ws_inv w"
  then have "compile_inv (pane_event e w)" by (simp add: pane_event_compiles ws_inv_def)
  with w show ?thesis unfolding ws_step_turn[OF False] by (rule turn_inv)
qed

lemma ws_inv_init: "ws_inv (workspace_init am)"
proof -
  have c: "console_of (workspace_init am) = console_init" by (simp add: workspace_init_def app_init_def sys_init_def)
  have "mounted (workspace_init am) l = (l = OnConsole)" for l
    unfolding mounted_def c by (cases l) (simp_all add: workspace_init_def console_init_def)
  then have "keys_inv (workspace_init am)" by (simp add: keys_inv_def) (simp add: workspace_init_def)
  moreover have "pane_inv (workspace_init am)"
    unfolding pane_inv_def c by (simp add: workspace_init_def main_pane_def console_init_def)
  ultimately show ?thesis by (simp add: ws_inv_def) (simp add: workspace_init_def app_inv_init compile_inv_def)
qed

interpretation ws_machine: started_machine "ws_step am pg isMac" ws_inv "workspace_init am" for am pg isMac
  by unfold_locales (rule ws_inv_step, assumption, rule ws_inv_init)

section \<open>Steps of the main pane\<close>

lemma con_deliver: "\<not> internal u \<Longrightarrow> con (deliver pg isMac b s (UI u)) = console_step isMac (con s) u"
  by (simp add: deliver_def sync_def)

lemma app_step_UI:
  "\<not> from_child u \<Longrightarrow> sys (app_step am pg isMac a (now, ASys (UI u))) = deliver pg isMac (bnd a) (sys a) (UI u)"
  "\<not> from_child u \<Longrightarrow> bnd (app_step am pg isMac a (now, ASys (UI u))) = bnd a"
  by simp_all

lemma app_step_TE:
  "sys (app_step am pg isMac a (now, ASys (TE t))) = deliver pg isMac (bnd a) (sys a) (TE t)"
  by simp

lemma app_step_select:
  "con (sys (app_step am pg isMac a (now, ATree (HandleSelect p)))) = console_step isMac (con (sys a)) (SelectFile p)"
  by (simp add: con_deliver del: sys_step.simps)

lemma deliver_up: "\<not> hasError b \<Longrightarrow> deliver pg isMac b s e = sys_step pg isMac s e"
  by (simp add: deliver_def)

lemma deliver_TE: "hasError b \<Longrightarrow> deliver pg isMac b s (TE t) = s"
  by (simp add: deliver_def)

text \<open>While the editor stays on display, nothing is mounted or unmounted.\<close>

lemma settle_editor:
  "\<lbrakk>main_pane (console_of w) = PaneEditor b; edt w = Some e; preview w = None; viewing w = PlainViewer\<rbrakk> \<Longrightarrow> settle w = w"
  by (simp add: settle_def editor_on_def preview_on_def viewer_after_def)

lemma editor_shown:
  assumes "ws_inv w" "edt w = Some e"
  shows "main_pane (console_of w) = PaneEditor (running_prop w)" "preview w = None"
    "inputMode (console_of w) = ModeEditor"
    "activeTab (console_of w) = TabPreview \<longrightarrow> previewFile (console_of w) \<in> {None, Some []}"
    "viewing w = PlainViewer"
proof -
  have p: "pane_inv w" using assms(1) by (simp add: ws_inv_def)
  with assms(2) obtain b where b: "main_pane (console_of w) = PaneEditor b"
    by (auto simp: pane_inv_def split: MainPane.splits)
  then show "main_pane (console_of w) = PaneEditor (running_prop w)" "inputMode (console_of w) = ModeEditor"
    "activeTab (console_of w) = TabPreview \<longrightarrow> previewFile (console_of w) \<in> {None, Some []}"
    by (auto simp: main_pane_def running_prop_def split: if_splits)
  from p b show "preview w = None" "viewing w = PlainViewer" by (auto simp: pane_inv_def)
qed

lemma pane_of_mode:
  "\<lbrakk>inputMode c = ModeEditor; activeTab c = TabPreview \<longrightarrow> previewFile c \<in> {None, Some []}\<rbrakk>
     \<Longrightarrow> main_pane c = PaneEditor (sandboxState c = SRunning)"
  by (auto simp: main_pane_def)

lemma settle_keeps:
  "\<lbrakk>main_pane (con (sys a)) = PaneEditor b; edt w = Some e\<rbrakk> \<Longrightarrow>
     settle (w\<lparr>core := a\<rparr>) = w\<lparr>core := a, preview := None, viewing := PlainViewer\<rparr>"
  by (simp add: settle_def editor_on_def preview_on_def viewer_after_def)

lemma ws_step_eq:
  "\<not> is_key ev \<Longrightarrow> ws_step am pg isMac w ev = relisten w (settle ((pane_event ev w)\<lparr>core := core (ws_step am pg isMac w ev)\<rparr>))"
  by (simp add: core_step del: is_key.simps) (simp add: ws_step_turn turn_def)

text \<open>A step of the mounted editor that does not concern the page.\<close>

lemma edit_step:
  assumes w: "ws_inv w" "edt w = Some e" and ev: "pane_event ev w = edit f w" "page_events w ev = []" "\<not> is_key ev"
  shows "ws_step am pg isMac w ev = relisten w (w\<lparr>edt := Some (f e),
      compiles := compiles w @ replicate (length (inFlight (f e)) - length (inFlight e)) (Some (mounts w))\<rparr>)"
  using editor_shown(1,2,5)[OF w] w(2) by (simp add: ws_step_turn turn_def ev edit_def settle_editor)

lemma compile_done_handed: "handed (compile_done r e) = handed e @ handed_over r"
  by (cases "(r, e)" rule: compile_done.cases) (simp_all add: handed_over_def compile_failed_def editor_init_def)

lemma handed_over_program:
  "\<lbrakk>res_ok st; jfield ''wasm_b64'' body = Some (JStr b)\<rbrakk> \<Longrightarrow> handed_over (Response st (Some body)) = [Some (JStr b)]"
  by (cases "body = JNull") (auto simp: handed_over_def editor_init_def)

lemma compile_done_program:
  "\<lbrakk>res_ok st; jfield ''wasm_b64'' body = Some (JStr b)\<rbrakk> \<Longrightarrow>
     compileState (compile_done (Response st (Some body)) e) = CSuccess \<and>
     edSource (compile_done (Response st (Some body)) e) = edSource e \<and>
     inFlight (compile_done (Response st (Some body)) e) = inFlight e"
  by (cases "body = JNull") auto

lemma compiled_console:
  "inputMode c = ModeEditor \<Longrightarrow> main_pane (console_step isMac c (Compiled t v)) = PaneEditor True"
  by (simp add: console_step_def handler_defs main_pane_def)

text \<open>The response to a compile request with a program, while that editor is mounted.\<close>

lemma compiled_step:
  fixes am :: "('d, 'c) automerge" and pg :: page and isMac :: bool and now :: nat
  assumes "ws_inv w" "edt w = Some e" "i < length (compiles w)" "compiles w ! i = Some (mounts w)"
    and "res_ok st" "jfield ''wasm_b64'' body = Some (JStr b)" "\<not> hasError (bnd (core w))"
  defines "w' \<equiv> ws_step am pg isMac w (WCompiled now i (Response st (Some body)))"
  shows "edt w' = Some (compile_done (Response st (Some body)) e)" "bnd (core w') = bnd (core w)"
    "sys (core w') = sys_step pg isMac (sys (core w)) (UI (Compiled now (Some b)))" "preview w' = None"
proof -
  let ?r = "Response st (Some body)"
  have ev: "page_events w (WCompiled now i ?r) = [(now, ASys (UI (Compiled now (Some b))))]"
    using assms(3,4) handed_over_program[OF assms(5,6)] by (simp add: handed_text_def)
  have core: "core w' = app_step am pg isMac (core w) (now, ASys (UI (Compiled now (Some b))))"
    unfolding w'_def by (subst core_step) (simp_all add: ev del: app_step.simps page_events.simps)
  have sys: "sys (core w') = sys_step pg isMac (sys (core w)) (UI (Compiled now (Some b)))"
    unfolding core using assms(7) by (simp add: deliver_up del: sys_step.simps)
  have "main_pane (con (sys (core w'))) = PaneEditor True"
    unfolding sys using editor_shown(3)[OF assms(1,2)] compiled_console by (simp add: sync_def)
  moreover have p: "edt (pane_event (WCompiled now i ?r) w) = Some (compile_done ?r e)"
    using assms(2-4) by (simp del: compile_done.simps)
  ultimately have "settle ((pane_event (WCompiled now i ?r) w)\<lparr>core := core w'\<rparr>)
      = (pane_event (WCompiled now i ?r) w)\<lparr>core := core w', preview := None, viewing := PlainViewer\<rparr>"
    by (intro settle_keeps)
  then have w': "w' = relisten w ((pane_event (WCompiled now i ?r) w)\<lparr>core := core w', preview := None, viewing := PlainViewer\<rparr>)"
    using ws_step_eq[of "WCompiled now i ?r" am pg isMac w, folded w'_def] by (simp del: pane_event.simps compile_done.simps)
  from arg_cong[OF w', of edt] p show "edt w' = Some (compile_done ?r e)" by (simp del: pane_event.simps)
  from arg_cong[OF w', of preview] show "preview w' = None" by simp
  show "bnd (core w') = bnd (core w)" unfolding core by simp
  show "sys (core w') = sys_step pg isMac (sys (core w)) (UI (Compiled now (Some b)))" by (rule sys)
qed

text \<open>The request of an editor that is not compiling, while no session is running.\<close>

lemma compile_step:
  fixes am :: "('d, 'c) automerge" and pg :: page and isMac :: bool
  assumes "ws_inv w" "edt w = Some e" "compileState e \<noteq> CCompiling" "\<not> running_prop w"
  defines "w' \<equiv> ws_step am pg isMac w WCompile"
  shows "edt w' = Some (compile_start False e)" "compiles w' = compiles w @ [Some (mounts w)]"
    "mounts w' = mounts w" "core w' = core w"
proof -
  have "w' = relisten w (w\<lparr>edt := Some (compile_start False e), compiles := compiles w @ [Some (mounts w)]\<rparr>)"
    unfolding w'_def using assms(3,4)
    by (subst edit_step[OF assms(1,2), where f = "compile_start False"]) (simp_all add: compile_start_def)
  then show "edt w' = Some (compile_start False e)" "compiles w' = compiles w @ [Some (mounts w)]"
    "mounts w' = mounts w" "core w' = core w" by simp_all
qed

lemma page_step:
  assumes "for_page ev"
  shows "core (ws_step am pg isMac w (WPage now ev)) = app_step am pg isMac (core w) (now, ev)"
    "\<lbrakk>edt w = Some e; main_pane (con (sys (app_step am pg isMac (core w) (now, ev)))) = PaneEditor r\<rbrakk> \<Longrightarrow>
       edt (ws_step am pg isMac w (WPage now ev)) = Some e"
  using assms by (simp_all add: core_step del: app_step.simps)
    (simp add: ws_step_turn turn_def settle_keeps del: app_step.simps)

lemma sys_inv_up: "\<lbrakk>ws_inv w; \<not> hasError (bnd (core w))\<rbrakk> \<Longrightarrow> sys_inv (sys (core w))"
  by (simp add: ws_inv_def app_inv_def sys_ok_def)

text \<open>Selecting a file in the tree opens its preview, and unmounts the editor.\<close>

lemma select_step:
  fixes am :: "('d, 'c) automerge" and pg :: page and isMac :: bool and now :: nat and w :: "('d, 'c) workspace"
  assumes "path \<noteq> []"
  defines "c' \<equiv> handleFileSelect path (console_of w)"
    and "w' \<equiv> ws_step am pg isMac w (WPage now (ATree (HandleSelect path)))"
  defines "p \<equiv> \<lparr>rpPath = path, rpSession = sessionId (console_of w), rpContent = inlineFileContent c', rpB64 = inlineFileB64 c'\<rparr>"
  shows "edt w' = None" "preview w' = Some (case preview w of None \<Rightarrow> reg_mount p | Some r \<Rightarrow> reg_rerender p r)"
    "compiles w' = compiles w" "mounts w' = mounts w" "bnd (core w') = bnd (core w)"
    "console_of w' = console_step isMac (console_of w) (SelectFile path)"
    "viewing w' = viewer_after (preview w') (viewing w)"
proof -
  let ?a = "app_step am pg isMac (core w) (now, ATree (HandleSelect path))"
  have c': "activeTab c' = TabPreview" "previewFile c' = Some path" "sessionId c' = sessionId (console_of w)"
    by (simp_all add: c'_def handleFileSelect_def Let_def split: option.split list.split)
  have con: "con (sys ?a) = console_step isMac (console_of w) (SelectFile path)" by (rule app_step_select)
  have "main_pane (vitals_shown c') = PaneRegistry path (rpSession p) (rpContent p) (rpB64 p)"
    using assms(1) c' by (simp add: main_pane_def vitals_shown_def p_def)
  then have pane: "main_pane (con (sys ?a)) = PaneRegistry path (rpSession p) (rpContent p) (rpB64 p)"
    unfolding con by (simp add: console_step_def c'_def)
  have ev: "page_events w (WPage now (ATree (HandleSelect path))) = [(now, ATree (HandleSelect path))]" by simp
  have p: "\<lparr>rpPath = path, rpSession = rpSession p, rpContent = rpContent p, rpB64 = rpB64 p\<rparr> = p" by (simp add: p_def)
  have "w' = relisten w (w\<lparr>core := ?a, edt := None,
      preview := Some (case preview w of None \<Rightarrow> reg_mount p | Some r \<Rightarrow> reg_rerender p r),
      viewing := viewer_after (Some (case preview w of None \<Rightarrow> reg_mount p | Some r \<Rightarrow> reg_rerender p r)) (viewing w)\<rparr>)"
    unfolding w'_def ws_step_turn[of "WPage now (ATree (HandleSelect path))", simplified] turn_def ev
    by (simp add: settle_def editor_on_def preview_on_def pane Let_def del: app_step.simps) (simp only: p)
  moreover have "bnd ?a = bnd (core w)" by simp
  ultimately show "edt w' = None" "preview w' = Some (case preview w of None \<Rightarrow> reg_mount p | Some r \<Rightarrow> reg_rerender p r)"
    "compiles w' = compiles w" "mounts w' = mounts w" "bnd (core w') = bnd (core w)"
    "console_of w' = console_step isMac (console_of w) (SelectFile path)"
    "viewing w' = viewer_after (preview w') (viewing w)"
    using con by simp_all
qed

section \<open>Keys\<close>

lemma reg_rerender_same: "reg_rerender (regProps r) r = r"
  by (simp add: reg_rerender_def Let_def)

lemma settle_same: "ws_inv w \<Longrightarrow> settle w = w"
proof -
  assume "ws_inv w"
  then have p: "pane_inv w" by (simp add: ws_inv_def)
  have e: "editor_on (main_pane (console_of w)) (edt w) = edt w"
    using p by (auto simp: pane_inv_def editor_on_def split: MainPane.splits)
  have r: "preview_on (main_pane (console_of w)) (preview w) = preview w"
    using p reg_rerender_same by (auto simp: pane_inv_def preview_on_def split: MainPane.splits) metis
  have "viewer_after (preview w) (viewing w) = viewing w"
    using p by (auto simp: pane_inv_def viewer_after_def viewer_on_same split: option.splits)
  then show ?thesis by (auto simp: settle_def e r Let_def)
qed

lemma stale_same [simp]: "\<not> stale w w l"
  by (simp add: stale_def split: key_target.split)

lemma turn_nothing: "ws_inv w \<Longrightarrow> turn am pg isMac w w [] = w"
  by (simp add: turn_def settle_same relisten_def)

text \<open>Handlers that do nothing with a key, and a handler whose reaction replaces all that would follow.\<close>

lemma key_skip: "(\<And>l. l \<in> set hs \<Longrightarrow> f l w = w) \<Longrightarrow> key_dispatch f (hs @ ls) w = key_dispatch f ls w"
  by (induction hs) simp_all

lemma key_last: "(\<And>l'. l' \<in> set ls \<Longrightarrow> stale w (f l w) l') \<Longrightarrow> key_dispatch f (l # ls) w = f l w"
  by (simp add: filter_empty_conv)

text \<open>The overlay listens for Escape, the editor for Enter.\<close>

lemma hear_help: "\<lbrakk>ws_inv w; evKey k \<noteq> ''Escape''\<rbrakk> \<Longrightarrow> hear am pg isMac now k OnHelp w = w"
  by (simp add: help_handleKey_def turn_nothing)

lemma hear_editor: "\<lbrakk>ws_inv w; evKey k \<noteq> ''Enter''\<rbrakk> \<Longrightarrow> hear am pg isMac now k OnEditor w = w"
proof -
  assume "ws_inv w" "evKey k \<noteq> ''Enter''"
  moreover from this have "edit (editor_key (running_prop w) (evKey k) (evMeta k) (evCtrl k)) w = w"
    by (simp add: edit_def editor_key_def split: option.split)
  ultimately show ?thesis by (simp add: turn_nothing)
qed

text \<open>The run shortcut in the console, while no session is running: every other handler is replaced, as the
  session is a prop of the editor and the overlay gets a new \<open>onClose\<close>.\<close>

lemma hear_run:
  fixes am :: "('d, 'c) automerge" and pg :: page and now :: nat
  assumes w: "ws_inv w" "edt w = Some e" "\<not> running_prop w" "\<not> hasError (bnd (core w))"
    and k: "evKey k = ''Enter''" "\<not> evShift k" "if isMac then evMeta k else evCtrl k"
  defines "w' \<equiv> hear am pg isMac now k OnConsole w"
  shows "edt w' = Some e" "compiles w' = compiles w" "mounts w' = mounts w" "bnd (core w') = bnd (core w)"
    "sys (core w') = sys_step pg isMac (sys (core w)) (UI (ClickRun now))" "stale w w' l"
proof -
  have "console_step isMac c (Key now k) = console_step isMac c (ClickRun now)" for c
    using k by (simp add: console_step_def keyboard_def handleRun_def)
  then have run: "sys_step pg isMac s (UI (Key now k)) = sys_step pg isMac s (UI (ClickRun now))" for s by simp
  let ?a = "app_step am pg isMac (core w) (now, ASys (UI (Key now k)))"
  have a: "sys ?a = sys_step pg isMac (sys (core w)) (UI (ClickRun now))" "bnd ?a = bnd (core w)"
    using w(4) by (simp_all add: deliver_up run del: sys_step.simps)
  have c: "sandboxState (con (sys ?a)) = SRunning" "main_pane (con (sys ?a)) = PaneEditor True"
    unfolding a(1) using editor_shown(3)[OF w(1,2)] w(3)
    by (simp_all add: sync_def console_step_def handler_defs main_pane_def running_prop_def vitals_shown_def)
  have w': "w' = relisten w (w\<lparr>core := ?a, preview := None, viewing := PlainViewer\<rparr>)"
    unfolding w'_def using settle_keeps[OF c(2) w(2)] by (simp add: turn_def del: app_step.simps)
  show "edt w' = Some e" "compiles w' = compiles w" "mounts w' = mounts w" "bnd (core w') = bnd (core w)"
    "sys (core w') = sys_step pg isMac (sys (core w)) (UI (ClickRun now))"
    using a w(2) by (simp_all add: w' del: app_step.simps)
  have "sandboxState (console_of w') = SRunning" using c(1) by (simp add: w' del: app_step.simps)
  then show "stale w w' l" using w(3) by (cases l) (auto simp: stale_def running_prop_def)
qed

text \<open>The shortcut in the editor: it sends a request; the handler of the console is the same as before.\<close>

lemma hear_compile:
  fixes am :: "('d, 'c) automerge" and pg :: page and isMac :: bool and now :: nat
  assumes w: "ws_inv w" "edt w = Some e" "compileState e \<noteq> CCompiling" "\<not> running_prop w"
    and k: "evKey k = ''Enter''" "evMeta k \<or> evCtrl k"
  defines "w' \<equiv> hear am pg isMac now k OnEditor w"
  shows "edt w' = Some (compile_start False e)" "compiles w' = compiles w @ [Some (mounts w)]" "mounts w' = mounts w"
    "core w' = core w" "l \<noteq> OnEditor \<Longrightarrow> \<not> stale w w' l"
proof -
  have "edit (editor_key (running_prop w) (evKey k) (evMeta k) (evCtrl k)) w
      = w\<lparr>edt := Some (compile_start False e), compiles := compiles w @ [Some (mounts w)]\<rparr>"
    using w(2-4) k by (simp add: edit_def editor_key_def compile_start_def)
  then have w': "w' = relisten w (w\<lparr>edt := Some (compile_start False e), compiles := compiles w @ [Some (mounts w)]\<rparr>)"
    unfolding w'_def using editor_shown(1,2,5)[OF w(1,2)] by (simp add: turn_def settle_editor)
  show "edt w' = Some (compile_start False e)" "compiles w' = compiles w @ [Some (mounts w)]" "mounts w' = mounts w"
    and c: "core w' = core w" by (simp_all add: w')
  show "l \<noteq> OnEditor \<Longrightarrow> \<not> stale w w' l" by (cases l) (simp_all add: stale_def c)
qed

text \<open>The order of the handlers: a handler that is replaced alone comes last; after a change of the session
  that of the editor comes before that of the console.\<close>

lemma keys_retyped:
  assumes "ws_inv w" "edt w = Some e" "src \<noteq> edSource e"
  shows "\<exists>hs hs'. set hs \<subseteq> {OnHelp} \<and> keys (ws_step am pg isMac w (WChange src)) = hs @ OnConsole # hs' @ [OnEditor]"
proof -
  let ?w = "w\<lparr>edt := Some (on_change src e)\<rparr>"
  have i: "inFlight (on_change src e) = inFlight e" "edSource (on_change src e) = src" by (simp_all add: on_change_def Let_def)
  have w': "ws_step am pg isMac w (WChange src) = relisten w ?w"
    using i by (subst edit_step[OF assms(1,2), where f = "on_change src"]) simp_all
  have "stale w ?w l \<longleftrightarrow> l = OnEditor" for l
    using assms(2,3) i by (cases l) (simp_all add: stale_def running_prop_def)
  then have k: "keys (relisten w ?w) = [l \<leftarrow> keys w. l \<noteq> OnEditor] @ [OnEditor]"
    by (simp add: relisten_def Let_def mounted_def)
  have "keys_inv w" using assms(1) by (simp add: ws_inv_def)
  then have "OnConsole \<in> set [l \<leftarrow> keys w. l \<noteq> OnEditor]" by (simp add: keys_inv_def mounted_def)
  then obtain hs hs' where h: "[l \<leftarrow> keys w. l \<noteq> OnEditor] = hs @ OnConsole # hs'" "OnConsole \<notin> set hs"
    by (meson split_list_first)
  have "l = OnHelp" if "l \<in> set hs" for l
  proof -
    have "l \<in> set [l \<leftarrow> keys w. l \<noteq> OnEditor]" unfolding h(1) using that by simp
    then have "l \<noteq> OnEditor" by simp
    moreover have "l \<noteq> OnConsole" using that h(2) by blast
    ultimately show ?thesis by (cases l) simp_all
  qed
  with h(1) k w' show ?thesis by auto
qed

lemma keys_after_session:
  assumes "running_prop w \<noteq> running_prop w'" "edt w' = Some e"
  shows "keys (relisten w w') \<in> {[OnEditor, OnConsole], [OnHelp, OnEditor, OnConsole], [OnEditor, OnConsole, OnHelp]}"
proof -
  have "sandboxState (console_of w) \<noteq> sandboxState (console_of w')" using assms(1) by (auto simp: running_prop_def)
  then have "stale w w' l" for l using assms(1) by (cases l) (auto simp: stale_def)
  then show ?thesis using assms(2) by (simp add: relisten_def mounted_def)
qed

lemma keys_after_page:
  "\<lbrakk>w = ws_step am pg isMac w0 (WPage t ev); running_prop w0 \<noteq> running_prop w; edt w = Some e\<rbrakk> \<Longrightarrow>
     keys w \<in> {[OnEditor, OnConsole], [OnHelp, OnEditor, OnConsole], [OnEditor, OnConsole, OnHelp]}"
  using keys_after_session[of w0 "settle (pane_event (WPage t ev) w0\<lparr>core := foldl (app_step am pg isMac) (core w0) (page_events w0 (WPage t ev))\<rparr>)" e]
  by (simp add: ws_step_turn turn_def del: page_events.simps)

text \<open>The run shortcut when the editor's handler comes first: both react.\<close>

lemma run_key_step:
  fixes am :: "('d, 'c) automerge" and pg :: page and now :: nat
  assumes w: "ws_inv w" "edt w = Some e" "compileState e \<noteq> CCompiling" "\<not> running_prop w" "\<not> hasError (bnd (core w))"
    and k: "evKey k = ''Enter''" "\<not> evShift k" "if isMac then evMeta k else evCtrl k"
    and order: "keys w \<in> {[OnEditor, OnConsole], [OnHelp, OnEditor, OnConsole], [OnEditor, OnConsole, OnHelp]}"
  defines "w' \<equiv> ws_step am pg isMac w (WKey now k)"
  shows "edt w' = Some (compile_start False e)" "compiles w' = compiles w @ [Some (mounts w)]"
    "mounts w' = mounts w" "bnd (core w') = bnd (core w)"
    "sys (core w') = sys_step pg isMac (sys (core w)) (UI (ClickRun now))"
proof -
  let ?f = "hear am pg isMac now k"
  define w1 where "w1 = ?f OnEditor w"
  have m: "evMeta k \<or> evCtrl k" using k(3) by (simp split: if_splits)
  note c = hear_compile[OF w(1-4) k(1) m, where am = am and pg = pg and isMac = isMac and now = now, folded w1_def]
  have inv1: "ws_inv w1" unfolding w1_def using w(1) by (rule hear_inv)
  have run: "\<not> running_prop w1" using w(4) by (simp add: running_prop_def c(4))
  note r = hear_run[OF inv1 c(1) run, unfolded c(4), OF w(5) k, where am = am and pg = pg and now = now]
  have h: "?f OnHelp w = w" using k(1) by (intro hear_help[OF w(1)]) simp
  have "key_dispatch ?f [OnHelp, OnEditor, OnConsole] w = key_dispatch ?f [OnEditor, OnConsole] w"
    using key_skip[of "[OnHelp]" ?f w "[OnEditor, OnConsole]"] h by (simp del: key_dispatch.simps hear.simps)
  then have "\<exists>hs. set hs \<subseteq> {OnHelp} \<and> key_dispatch ?f (keys w) w = key_dispatch ?f (OnEditor # OnConsole # hs) w"
    using order exI[of "\<lambda>hs. set hs \<subseteq> {OnHelp} \<and> key_dispatch ?f (keys w) w = key_dispatch ?f (OnEditor # OnConsole # hs) w" "[]"]
      exI[of "\<lambda>hs. set hs \<subseteq> {OnHelp} \<and> key_dispatch ?f (keys w) w = key_dispatch ?f (OnEditor # OnConsole # hs) w" "[OnHelp]"]
    by (elim insertE emptyE) (simp_all del: key_dispatch.simps hear.simps)
  then obtain hs where hs: "set hs \<subseteq> {OnHelp}" "key_dispatch ?f (keys w) w = key_dispatch ?f (OnEditor # OnConsole # hs) w"
    by blast
  have "[l \<leftarrow> OnConsole # hs. \<not> stale w w1 l] = OnConsole # hs" using hs(1) c(5) by (auto simp: filter_id_conv)
  then have "w' = key_dispatch ?f (OnConsole # hs) w1"
    unfolding w'_def ws_step_def workspace_event.case hs(2) by (simp only: key_dispatch.simps(2) w1_def[symmetric])
  then have w': "w' = ?f OnConsole w1" using key_last[of hs w1 ?f OnConsole] r(6) by simp
  show "edt w' = Some (compile_start False e)" "compiles w' = compiles w @ [Some (mounts w)]"
    "mounts w' = mounts w" "bnd (core w') = bnd (core w)"
    "sys (core w') = sys_step pg isMac (sys (core w)) (UI (ClickRun now))"
    unfolding w' using r(1-5) c(1-4) by simp_all
qed

section \<open>Properties\<close>

text \<open>A page on which the editor has been opened.\<close>

definition demo_open :: "'c workspace_event list" where
  "demo_open = [WPage 1 (ASys (UI (ChooseMode ModeEditor)))]"

definition demo_module :: json where
  "demo_module = JObj [(''wasm_b64'', JStr ''AGFz'')]"

lemma demo_module_ok: "res_ok 200" "jfield ''wasm_b64'' demo_module = Some (JStr ''AGFz'')"
  by (simp_all add: res_ok_def demo_module_def)

lemma demo_editor:
  fixes w :: "(DocEntry list, DocEntry list) workspace"
  defines "w \<equiv> foldl (ws_step plain_doc demo_page True) (workspace_init plain_doc) demo_open"
  shows "edt w = Some editor_init" "console_of w = console_init\<lparr>inputMode := ModeEditor\<rparr>"
    "\<not> hasError (bnd (core w))" "compiles w = []" "length (sockets (trm (sys (core w)))) = 0"
    "compileState editor_init \<noteq> CCompiling" "\<not> running_prop w"
proof -
  let ?a = "app_step plain_doc demo_page True (app_init plain_doc) (1, ASys (UI (ChooseMode ModeEditor)))"
  have "con (sys ?a) = console_step True (con (sys (app_init plain_doc))) (ChooseMode ModeEditor)"
    by (subst app_step_UI(1)) (simp_all add: con_deliver)
  then have c: "con (sys ?a) = console_init\<lparr>inputMode := ModeEditor\<rparr>"
    by (simp add: app_init_def sys_init_def console_step_def vitals_shown_def console_init_def)
  have b: "\<not> hasError (bnd ?a)" by (simp add: app_init_def boundary_init_def)
  have t: "length (sockets (trm (sys ?a))) = 0"
    by (simp add: deliver_def app_init_def boundary_init_def sys_init_def sync_def terminal_props_def
        console_step_def vitals_shown_def console_init_def terminal_wasm_def terminal_init_def)
  have core: "core w = ?a" by (simp add: w_def demo_open_def core_step workspace_init_def del: app_step.simps)
  have "w = relisten (workspace_init plain_doc) (settle ((workspace_init plain_doc)\<lparr>core := ?a\<rparr>))"
    by (simp add: w_def demo_open_def ws_step_turn turn_def del: app_step.simps) (simp add: workspace_init_def)
  then show "edt w = Some editor_init" "compiles w = []"
    using c by (simp_all add: settle_def editor_on_def Let_def main_pane_def console_init_def workspace_init_def del: app_step.simps)
  show "console_of w = console_init\<lparr>inputMode := ModeEditor\<rparr>" "\<not> hasError (bnd (core w))"
    "length (sockets (trm (sys (core w)))) = 0" unfolding core by (rule c b t)+
  then show "\<not> running_prop w" "compileState editor_init \<noteq> CCompiling"
    by (simp_all add: running_prop_def console_init_def editor_init_def)
qed

text \<open>On that page a session has been run and stopped.\<close>

lemma demo_stopped:
  fixes w1 :: "(DocEntry list, DocEntry list) workspace"
  defines "w1 \<equiv> ws_step plain_doc demo_page True (foldl (ws_step plain_doc demo_page True) (workspace_init plain_doc) demo_open)
    (WPage 5 (ASys (UI (ClickRun 5))))"
    and "w2 \<equiv> ws_step plain_doc demo_page True w1 (WPage 6 (ASys (UI ClickStop)))"
  shows "running_prop w1 \<noteq> running_prop w2" "edt w2 = Some editor_init" "sandboxState (console_of w2) \<noteq> SRunning"
    "\<not> hasError (bnd (core w2))" "compiles w2 = []" "length (sockets (trm (sys (core w2)))) = 1"
proof -
  let ?w = "foldl (ws_step plain_doc demo_page True) (workspace_init plain_doc) demo_open :: (DocEntry list, DocEntry list) workspace"
  have inv: "ws_inv ?w" by (rule ws_machine.reachable_inv)
  have idle: "sandboxState (console_of ?w) \<noteq> SRunning" by (simp add: demo_editor(2) console_init_def)
  note c = sys_click_run[OF sys_inv_up[OF inv demo_editor(3)] idle, of demo_page True 5]
  have 1: "sys (core w1) = sys_step demo_page True (sys (core ?w)) (UI (ClickRun 5))" "bnd (core w1) = bnd (core ?w)"
    unfolding w1_def using demo_editor(3) by (simp_all add: page_step(1) deliver_up del: sys_step.simps)
  have m1: "inputMode (console_of w1) = ModeEditor" "main_pane (console_of w1) = PaneEditor True"
    unfolding 1 by (simp_all add: demo_editor(2) sync_def console_step_def handler_defs vitals_shown_def console_init_def main_pane_def)
  have e1: "edt w1 = Some editor_init" unfolding w1_def
    by (rule page_step(2)[where r = True]) (use demo_editor(1) m1(2) in \<open>simp_all add: w1_def page_step(1) del: app_step.simps\<close>)
  have 2: "sys (core w2) = sys_step demo_page True (sys (core w1)) (UI ClickStop)" "bnd (core w2) = bnd (core w1)"
    unfolding w2_def using demo_editor(3) 1(2) by (simp_all add: page_step(1) deliver_up del: sys_step.simps)
  have m2: "main_pane (console_of w2) = PaneEditor False" "sandboxState (console_of w2) = SIdle"
    unfolding 2 1 by (simp_all add: demo_editor(2) sync_def console_step_def handler_defs vitals_shown_def console_init_def main_pane_def)
  show "edt w2 = Some editor_init" unfolding w2_def
    by (rule page_step(2)[where r = False]) (use e1 m2(1) in \<open>simp_all add: w2_def page_step(1) del: app_step.simps\<close>)
  show "running_prop w1 \<noteq> running_prop w2" "sandboxState (console_of w2) \<noteq> SRunning"
    using c(1) m2(2) 1 by (simp_all add: running_prop_def)
  show "\<not> hasError (bnd (core w2))" using 1 2 demo_editor(3) by simp
  have "compiles w2 = compiles ?w" unfolding w2_def w1_def by (simp add: ws_step_turn turn_def settle_def Let_def del: app_step.simps)
  then show "compiles w2 = []" by (simp add: demo_editor(4))
  have inv1: "sys_inv (sys (core w1))" unfolding w1_def
    by (rule sys_inv_up[OF ws_inv_step[OF inv]]) (use 1(2) demo_editor(3) in \<open>simp add: w1_def\<close>)
  have "length (sockets (trm (sys (core w1)))) = 1" using c(5) demo_editor(5) 1(1) by simp
  then show "length (sockets (trm (sys (core w2)))) = 1"
    using sys_click_stop(2)[OF inv1, of 0 demo_page True] c(6,7) demo_editor(5) unfolding 1(1) 2(1) by simp
qed

text \<open>The props of the previewer, where the main pane has one.\<close>

definition pane_props :: "MainPane \<Rightarrow> reg_props option" where
  "pane_props pane = (case pane of
       PaneRegistry path sid content b64 \<Rightarrow> Some \<lparr>rpPath = path, rpSession = sid, rpContent = content, rpB64 = b64\<rparr>
     | _ \<Rightarrow> None)"

lemma ws_inv_parts:
  assumes "ws_inv w"
  shows "(edt w \<noteq> None \<longleftrightarrow> main_pane (console_of w) = PaneEditor (running_prop w)) \<and>
    map_option regProps (preview w) = pane_props (main_pane (console_of w)) \<and>
    (\<forall>e. edt w = Some e \<longrightarrow> (compileState e = CCompiling \<longrightarrow> Some (mounts w) \<in> set (compiles w)) \<and>
       (compileState e = CSuccess \<longrightarrow> (\<exists>r. compileResult e = Some r \<and> handed e \<noteq> [] \<and> crWasmB64 r = last (handed e))))"
proof -
  have "pane_inv w" "compile_inv w" using assms by (simp_all add: ws_inv_def)
  moreover have "edt w \<noteq> None \<longleftrightarrow> main_pane (console_of w) = PaneEditor (running_prop w)"
    using editor_shown(1)[OF assms] \<open>pane_inv w\<close> by (auto simp: pane_inv_def)
  moreover have "map_option regProps (preview w) = pane_props (main_pane (console_of w))"
    using \<open>pane_inv w\<close> by (auto simp: pane_inv_def pane_props_def split: MainPane.splits)
  ultimately show ?thesis by (auto simp: compile_inv_def ed_inv_def)
qed

text \<open>C15: The main pane in every reachable state of the page: the editor is mounted exactly while its pane is
  on display; the previewer is mounted exactly while a preview is, and for the file, session and inline
  content the console has selected; the editor says it is compiling only while a request of its own is
  unanswered, and that it succeeded only with the result whose program it handed over last.\<close>

theorem main_pane_follows_console:
  "case foldl (ws_step am pg isMac) (workspace_init am) es of w \<Rightarrow>
     (edt w \<noteq> None \<longleftrightarrow> main_pane (console_of w) = PaneEditor (running_prop w)) \<and>
     map_option regProps (preview w) = pane_props (main_pane (console_of w)) \<and>
     (\<forall>e. edt w = Some e \<longrightarrow> (compileState e = CCompiling \<longrightarrow> Some (mounts w) \<in> set (compiles w)) \<and>
        (compileState e = CSuccess \<longrightarrow> (\<exists>r. compileResult e = Some r \<and> handed e \<noteq> [] \<and> crWasmB64 r = last (handed e))))"
  by (rule ws_inv_parts[OF ws_machine.reachable_inv])

theorem main_pane_follows_console_witness:
  "case foldl (ws_step plain_doc demo_page True) (workspace_init plain_doc) (demo_open @ [WCompile]) of w \<Rightarrow>
     Some (mounts w) \<in> set (compiles w) \<and> preview w = None"
proof -
  let ?o = "foldl (ws_step plain_doc demo_page True) (workspace_init plain_doc) demo_open"
  let ?w = "foldl (ws_step plain_doc demo_page True) (workspace_init plain_doc) (demo_open @ [WCompile])"
  have "?w = ws_step plain_doc demo_page True ?o WCompile" by simp
  note r = compile_step[OF ws_machine.reachable_inv demo_editor(1,6,7), of plain_doc demo_page True, folded this]
  have "compileState (compile_start False editor_init) = CCompiling" by (simp add: compile_start_def)
  moreover have "main_pane (console_of ?w) = PaneEditor False"
    unfolding r(4) demo_editor(2) by (simp add: main_pane_def console_init_def)
  moreover note main_pane_follows_console[where am = plain_doc and pg = demo_page and isMac = True and es = "demo_open @ [WCompile]"]
  ultimately show ?thesis using r(1) by (simp add: pane_props_def del: foldl_append)
qed

text \<open>C2: From source text to execution: with the editor on display, no session running and no compilation
  going on, typing a program and clicking Compile \& Run sends one compile request, from which the
  server reads exactly that text; when it answers with a program, the editor reports success, and the
  console runs a new session; when the socket opens, one request is sent, and it is for that program
  and that session.\<close>

theorem compile_and_run:
  fixes am :: "('d, 'c) automerge" and i :: nat
  assumes w: "w = foldl (ws_step am pg isMac) (workspace_init am) es" "edt w = Some e" "compileState e \<noteq> CCompiling"
    and page: "sandboxState (console_of w) \<noteq> SRunning" "\<not> hasError (bnd (core w))"
      "sessionId (console_of w) \<noteq> Some (new_session_id now)"
    and body: "res_ok st" "jfield ''wasm_b64'' body = Some (JStr b)" "b \<noteq> []"
    and i: "i = length (sockets (trm (sys (core w))))"
    and w': "w' = foldl (ws_step am pg isMac) w [WChange src, WCompile,
      WCompiled now (length (compiles w)) (Response st (Some body)), WPage now (ASys (TE (SockOpened i)))]"
  shows "\<exists>e'. edt w' = Some e' \<and> compileState e' = CSuccess \<and> edSource e' = src \<and>
      (\<exists>req. inFlight e' = inFlight e @ [req] \<and>
         json_parse req = Some (JObj [(''source'', JStr src), (''edition'', JStr ''2021'')])) \<and>
      sandboxState (console_of w') = SRunning \<and> sessionId (console_of w') = Some (new_session_id now) \<and>
      sockSent (sockets (trm (sys (core w'))) ! i) = [stringify (execute_payload b (new_session_id now))]"
proof -
  let ?f = "ws_step am pg isMac" and ?r = "Response st (Some body)" and ?n = "length (compiles w)"
  define w1 where "w1 = ?f w (WChange src)"
  define w2 where "w2 = ?f w1 WCompile"
  define w3 where "w3 = ?f w2 (WCompiled now ?n ?r)"
  let ?e1 = "on_change src e"
  let ?e2 = "compile_start False ?e1"
  have inv: "ws_inv w" unfolding w(1) by (rule ws_machine.reachable_inv)
  then have invs: "ws_inv w1" "ws_inv w2" by (simp_all add: ws_inv_step w1_def w2_def)
  have e1: "compileState ?e1 \<noteq> CCompiling" "edSource ?e1 = src" "inFlight ?e1 = inFlight e"
    using w(3) by (simp_all add: on_change_def Let_def)
  have w1: "w1 = relisten w (w\<lparr>edt := Some ?e1\<rparr>)"
    unfolding w1_def using e1(3) by (subst edit_step[OF inv w(2), where f = "on_change src"]) simp_all
  have run: "\<not> running_prop w1" using page(1) by (simp add: w1 running_prop_def)
  have "edt w1 = Some ?e1" by (simp add: w1)
  note r2 = compile_step[OF invs(1) this e1(1) run, of am pg isMac, folded w2_def]
  have w2: "?n < length (compiles w2)" "compiles w2 ! ?n = Some (mounts w2)" "core w2 = core w"
    using r2 by (simp_all add: w1 nth_append)
  note r3 = compiled_step[OF invs(2) r2(1) w2(1,2) body(1,2), unfolded w2(3), OF page(2), of am pg isMac now, folded w3_def]
  have "sys_inv (sys (core w))" using inv page(2) by (rule sys_inv_up)
  note s3 = sys_compiled[OF this editor_shown(3)[OF inv w(2)] body(3) page(3), where pg = pg and isMac = isMac, folded r3(3), folded i]
  have up: "\<not> hasError (bnd (core w3))" using r3(2) page(2) by simp
  have i3: "i < length (sockets (trm (sys (core w3))))" using s3(4) by simp
  note s4 = sys_socket_opened[OF i3 s3(6,8) body(3), of pg isMac]
  have w'4: "w' = ?f w3 (WPage now (ASys (TE (SockOpened i))))"
    by (simp add: w' w3_def w2_def w1_def)
  have core: "sys (core w') = sys_step pg isMac (sys (core w3)) (TE (SockOpened i))"
    unfolding w'4 using up by (subst page_step(1)) (simp_all add: deliver_up del: sys_step.simps)
  have "ws_inv w3" unfolding w3_def by (rule ws_inv_step[OF invs(2)])
  then have "main_pane (console_of w3) = PaneEditor (running_prop w3)" using r3(1) by (rule editor_shown(1))
  then have "edt w' = Some (compile_done ?r ?e2)"
    unfolding w'4 using up r3(1) s4(1)
    by (intro page_step(2)) (simp_all add: deliver_up del: sys_step.simps)
  moreover have "compileState (compile_done ?r ?e2) = CSuccess" "edSource (compile_done ?r ?e2) = src"
    "inFlight (compile_done ?r ?e2) = inFlight e @ [compile_request src]"
    using compile_done_program[OF body(1,2), of ?e2] e1 by (simp_all add: compile_start_def)
  moreover have "sandboxState (console_of w') = SRunning" "sessionId (console_of w') = Some (new_session_id now)"
    "sockSent (sockets (trm (sys (core w'))) ! i) = [stringify (execute_payload b (new_session_id now))]"
    using s3(1,2,7,9) s4(1,4) by (simp_all add: core del: sys_step.simps)
  ultimately show ?thesis using compile_request_roundtrip[of src] by blast
qed

theorem compile_and_run_witness:
  "sandboxState (console_of (foldl (ws_step plain_doc demo_page True)
     (foldl (ws_step plain_doc demo_page True) (workspace_init plain_doc) demo_open)
     [WChange ''fn main() {}'', WCompile, WCompiled 7 0 (Response 200 (Some demo_module)),
      WPage 7 (ASys (TE (SockOpened 0)))])) = SRunning"
proof -
  let ?w = "foldl (ws_step plain_doc demo_page True) (workspace_init plain_doc) demo_open"
  have c: "sandboxState (console_of ?w) \<noteq> SRunning" "sessionId (console_of ?w) \<noteq> Some (new_session_id 7)"
    by (simp_all add: demo_editor(2) console_init_def)
  have n: "0 = length (compiles ?w)" "0 = length (sockets (trm (sys (core ?w))))"
    using demo_editor(4,5) by simp_all
  have b: "''AGFz'' \<noteq> ([] :: string)" by simp
  from compile_and_run[OF refl demo_editor(1,6) c(1) demo_editor(3) c(2) demo_module_ok b n(2) refl, of "''fn main() {}''"]
  show ?thesis unfolding n(1)[symmetric] by blast
qed

text \<open>C35: The run shortcut while a program is being written runs another program: with the editor on display,
  no session running and text typed that differs from what was there before, the shortcut sends no compile request;
  it starts a session for the program of before (the selected demo, or what was compiled last). The
  console's handler comes first, and the session it starts has the editor replace its own.\<close>

theorem shortcut_runs_old_program:
  fixes am :: "('d, 'c) automerge"
  assumes w: "w = foldl (ws_step am pg isMac) (workspace_init am) es" "edt w = Some e" "src \<noteq> edSource e"
    and page: "sandboxState (console_of w) \<noteq> SRunning" "\<not> hasError (bnd (core w))"
    and k: "evKey k = ''Enter''" "\<not> evShift k" "if isMac then evMeta k else evCtrl k"
    and i: "i = length (sockets (trm (sys (core w))))"
    and w': "w' = foldl (ws_step am pg isMac) w [WChange src, WKey now k]"
  shows "edt w' = Some (on_change src e) \<and> inFlight (on_change src e) = inFlight e \<and> compiles w' = compiles w \<and>
    sandboxState (console_of w') = SRunning \<and> wsEffect (trm (sys (core w'))) = Some i \<and>
    sockPayload (sockets (trm (sys (core w'))) ! i) = Some (terminal_wasm (console_of w))"
proof -
  let ?f = "hear am pg isMac now k"
  define w1 where "w1 = ws_step am pg isMac w (WChange src)"
  have inv: "ws_inv w" unfolding w(1) by (rule ws_machine.reachable_inv)
  then have inv1: "ws_inv w1" by (simp add: w1_def ws_inv_step)
  have i1: "inFlight (on_change src e) = inFlight e" by (simp add: on_change_def Let_def)
  have w1: "w1 = relisten w (w\<lparr>edt := Some (on_change src e)\<rparr>)"
    unfolding w1_def using i1 by (subst edit_step[OF inv w(2), where f = "on_change src"]) simp_all
  then have e1: "edt w1 = Some (on_change src e)" "compiles w1 = compiles w" "core w1 = core w" by simp_all
  have run: "\<not> running_prop w1" using page(1) by (simp add: running_prop_def e1)
  obtain hs hs' where h: "set hs \<subseteq> {OnHelp}" "keys w1 = hs @ OnConsole # hs' @ [OnEditor]"
    using keys_retyped[OF inv w(2,3), of am pg isMac, folded w1_def] by auto
  note r = hear_run[OF inv1 e1(1) run, unfolded e1(3), OF page(2) k, where am = am and pg = pg and now = now]
  have "?f l w1 = w1" if "l \<in> set hs" for l using that h(1) hear_help[OF inv1] k(1) by auto
  then have "key_dispatch ?f (keys w1) w1 = key_dispatch ?f (OnConsole # hs' @ [OnEditor]) w1" unfolding h(2) by (rule key_skip)
  then have "w' = key_dispatch ?f (OnConsole # hs' @ [OnEditor]) w1"
    by (simp only: w' foldl.simps w1_def[symmetric]) (simp only: ws_step_def workspace_event.case)
  then have w'1: "w' = ?f OnConsole w1" using key_last[of "hs' @ [OnEditor]" w1 ?f OnConsole] r(6) by simp
  note r' = r(1,2,5)[folded w'1]
  note c = sys_click_run[OF sys_inv_up[OF inv page(2)] page(1), of pg isMac now, folded r'(3) i]
  show ?thesis using r'(1,2) e1(2) i1 c(1,6,9) by simp
qed

theorem shortcut_runs_old_program_witness:
  "sandboxState (console_of (foldl (ws_step plain_doc demo_page True)
     (foldl (ws_step plain_doc demo_page True) (workspace_init plain_doc) demo_open)
     [WChange ''fn main() {}'', WKey 7 \<lparr>evKey = ''Enter'', evMeta = True, evCtrl = False, evShift = False, evInText = True\<rparr>])) = SRunning"
proof -
  let ?w = "foldl (ws_step plain_doc demo_page True) (workspace_init plain_doc) demo_open"
  let ?k = "\<lparr>evKey = ''Enter'', evMeta = True, evCtrl = False, evShift = False, evInText = True\<rparr>"
  have c: "sandboxState (console_of ?w) \<noteq> SRunning" by (simp add: demo_editor(2) console_init_def)
  have k: "evKey ?k = ''Enter''" "\<not> evShift ?k" "if True then evMeta ?k else evCtrl ?k" by simp_all
  have t: "''fn main() {}'' \<noteq> edSource editor_init" by code_simp
  from shortcut_runs_old_program[OF refl demo_editor(1) t c demo_editor(3) k refl refl, of 7] show ?thesis by blast
qed

text \<open>C36: The run shortcut kills the program it compiles when a session has started or ended since the last
  change of the text: then the editor's handler comes first and sends a request, and the console's also starts a
  session for the program of before; the compiled program replaces that session when it arrives, and the
  close of the replaced session's socket then ends the new one, whose socket is closed.\<close>

theorem shortcut_kills_compiled_program:
  fixes am :: "('d, 'c) automerge"
  assumes w: "w0 = foldl (ws_step am pg isMac) (workspace_init am) es" "w = ws_step am pg isMac w0 (WPage t ev)"
      "running_prop w0 \<noteq> running_prop w" "edt w = Some e" "compileState e \<noteq> CCompiling"
    and page: "sandboxState (console_of w) \<noteq> SRunning" "\<not> hasError (bnd (core w))"
    and k: "evKey k = ''Enter''" "\<not> evShift k" "if isMac then evMeta k else evCtrl k"
    and body: "res_ok st" "jfield ''wasm_b64'' body = Some (JStr b)" "b \<noteq> []" and now: "now \<noteq> now'"
    and i: "i = length (sockets (trm (sys (core w))))"
    and w1: "w1 = ws_step am pg isMac w (WKey now k)"
    and w2: "w2 = ws_step am pg isMac w1 (WCompiled now' (length (compiles w)) (Response st (Some body)))"
    and w3: "w3 = ws_step am pg isMac w2 (WPage now' (ASys (TE (SockClosed i code reason))))"
  shows "sockPayload (sockets (trm (sys (core w1))) ! i) = Some (terminal_wasm (console_of w)) \<and>
    wsEffect (trm (sys (core w2))) = Some (Suc i) \<and>
    sockPayload (sockets (trm (sys (core w2))) ! Suc i) = Some b \<and>
    sandboxState (console_of w3) \<in> {SComplete, SNonzero, SCrashed} \<and> wsEffect (trm (sys (core w3))) = None \<and>
    sockState (sockets (trm (sys (core w3))) ! Suc i) = CLOSING"
proof -
  let ?n = "length (compiles w)"
  have inv: "ws_inv w" unfolding w(1,2) by (intro ws_inv_step ws_machine.reachable_inv)
  then have inv1: "ws_inv w1" by (simp add: ws_inv_step w1)
  have run: "\<not> running_prop w" using page(1) by (simp add: running_prop_def)
  note r1 = run_key_step[OF inv w(4,5) run page(2) k keys_after_page[OF w(2,3,4)], of am pg now, folded w1]
  have n: "?n < length (compiles w1)" "compiles w1 ! ?n = Some (mounts w1)" "\<not> hasError (bnd (core w1))"
    using r1 page(2) by (simp_all add: nth_append)
  note r2 = compiled_step[OF inv1 r1(1) n(1,2) body(1,2) n(3), of am pg isMac now', folded w2]
  have s: "sys_inv (sys (core w))" "sys_inv (sys (core w1))" using inv inv1 page(2) n(3) by (blast intro: sys_inv_up)+
  note c1 = sys_click_run[OF s(1) page(1), of pg isMac now, folded r1(5) i]
  have id: "sessionId (console_of w1) \<noteq> Some (new_session_id now')" using c1(2) now new_session_id_inj by auto
  note c2 = sys_compiled[OF s(2) editor_shown(3)[OF inv1 r1(1)] body(3) id, where pg = pg and isMac = isMac,
      folded r2(3), unfolded c1(5)]
  have old: "sockState (sockets (trm (sys (core w2))) ! i) = CLOSING" using c2(10)[OF c1(6)] c1(7) by simp
  have "sys_inv (sys (core w2))" unfolding r2(3) by (rule sys_inv_step[OF s(2)])
  note c3 = sys_any_close[OF this c2(5) _ _ _ old, of pg isMac code reason]
  have "sys (core w3) = sys_step pg isMac (sys (core w2)) (TE (SockClosed i code reason))"
    unfolding w3 using r2(2) n(3) by (subst page_step(1)) (simp_all add: deliver_up del: sys_step.simps)
  then show ?thesis using c1(9) c2(4,5,6,8) c3 by simp
qed

theorem shortcut_kills_compiled_program_witness:
  "sandboxState (console_of (ws_step plain_doc demo_page True (ws_step plain_doc demo_page True
     (ws_step plain_doc demo_page True
       (ws_step plain_doc demo_page True
         (foldl (ws_step plain_doc demo_page True) (workspace_init plain_doc) (demo_open @ [WPage 5 (ASys (UI (ClickRun 5)))]))
         (WPage 6 (ASys (UI ClickStop))))
       (WKey 7 \<lparr>evKey = ''Enter'', evMeta = True, evCtrl = False, evShift = False, evInText = True\<rparr>))
     (WCompiled 8 0 (Response 200 (Some demo_module))))
     (WPage 8 (ASys (TE (SockClosed 1 1000 [])))))) \<in> {SComplete, SNonzero, SCrashed}"
proof -
  let ?f = "ws_step plain_doc demo_page True"
  let ?o = "foldl ?f (workspace_init plain_doc) demo_open"
  let ?r = "foldl ?f (workspace_init plain_doc) (demo_open @ [WPage 5 (ASys (UI (ClickRun 5)))])"
  let ?w = "?f ?r (WPage 6 (ASys (UI ClickStop)))"
  let ?k = "\<lparr>evKey = ''Enter'', evMeta = True, evCtrl = False, evShift = False, evInText = True\<rparr>"
  have d: "?r = ?f ?o (WPage 5 (ASys (UI (ClickRun 5))))" by simp
  note x = demo_stopped[folded d]
  have k: "evKey ?k = ''Enter''" "\<not> evShift ?k" "if True then evMeta ?k else evCtrl ?k" by simp_all
  have b: "''AGFz'' \<noteq> ([] :: string)" "(7 :: nat) \<noteq> 8" by simp_all
  note t = shortcut_kills_compiled_program[OF refl refl x(1,2) demo_editor(6) x(3,4) k demo_module_ok b refl refl refl refl, of 1000 "[]"]
  show ?thesis using t unfolding x(5,6) by simp
qed

text \<open>Escape with the help open and a session running: if the help was opened last, the console's handler
  comes first; it stops the session, and the overlay, which gets a new \<open>onClose\<close> by that, misses the key and stays open.\<close>

theorem escape_stops_behind_help:
  assumes w: "w = foldl (ws_step am pg isMac) (workspace_init am) es" "\<not> helpOpen (console_of w)"
    "sandboxState (console_of w) = SRunning"
    and k: "evKey k = ''Escape''" "\<not> evShift k" "\<not> evMeta k" "\<not> evCtrl k"
    and w': "w' = foldl (ws_step am pg isMac) w [WPage t (ASys (UI ClickHelp)), WKey now k]"
  shows "sandboxState (console_of w') = SIdle \<and> helpOpen (console_of w')"
proof -
  let ?f = "hear am pg isMac now k"
  define w1 where "w1 = ws_step am pg isMac w (WPage t (ASys (UI ClickHelp)))"
  have inv: "ws_inv w" unfolding w(1) by (rule ws_machine.reachable_inv)
  then have inv1: "ws_inv w1" by (simp add: w1_def ws_inv_step)
  have c: "console_of w1 = console_step isMac (console_of w) ClickHelp"
    unfolding w1_def by (subst page_step(1)) (simp_all add: con_deliver del: sys_step.simps)
  then have c1: "sandboxState (console_of w1) = SRunning" "helpOpen (console_of w1)" "previewFile (console_of w1) = previewFile (console_of w)"
    using w(3) by (simp_all add: console_step_def vitals_shown_def)
  define u where "u = settle (w\<lparr>core := core w1\<rparr>)"
  have w1: "w1 = relisten w u" unfolding u_def w1_def by (subst core_step) (simp_all add: ws_step_turn turn_def del: app_step.simps)
  have cu: "console_of u = console_of w1" by (simp add: u_def)
  have st: "stale w u OnHelp" "\<not> stale w u OnConsole"
    using w(2,3) c1 by (auto simp: stale_def cu)
  have "OnConsole \<in> set [l \<leftarrow> keys w. \<not> stale w u l]" using inv st by (simp add: ws_inv_def keys_inv_def mounted_def)
  then obtain hs hs' where h: "[l \<leftarrow> keys w. \<not> stale w u l] = hs @ OnConsole # hs'" "OnConsole \<notin> set hs"
    by (meson split_list_first)
  obtain ls where k1: "keys w1 = hs @ OnConsole # ls" by (simp add: w1 relisten_def Let_def h(1))
  have hs: "l = OnEditor" if "l \<in> set hs" for l
  proof -
    have "l \<in> set [l \<leftarrow> keys w. \<not> stale w u l]" unfolding h(1) using that by simp
    then have "l \<noteq> OnHelp" using st by auto
    moreover have "l \<noteq> OnConsole" using that h(2) by blast
    ultimately show ?thesis by (cases l) simp_all
  qed
  have "?f l w1 = w1" if "l \<in> set hs" for l
    unfolding hs[OF that] by (rule hear_editor[OF inv1]) (simp add: k(1))
  then have "key_dispatch ?f (keys w1) w1 = key_dispatch ?f (OnConsole # ls) w1" unfolding k1 by (rule key_skip)
  then have w'1: "w' = key_dispatch ?f (OnConsole # ls) w1"
    by (simp only: w' foldl.simps w1_def[symmetric]) (simp only: ws_step_def workspace_event.case)
  have "console_of (?f OnConsole w1) = console_step isMac (console_of w1) (Key now k)"
    by (simp add: con_deliver del: sys_step.simps)
  then have c2: "sandboxState (console_of (?f OnConsole w1)) = SIdle" "helpOpen (console_of (?f OnConsole w1))"
    using k c1 by (simp_all add: console_step_def keyboard_def handleStop_def vitals_shown_def del: hear.simps)
  have "stale w1 (?f OnConsole w1) l" for l
    using c1(1) c2(1) by (cases l) (auto simp: stale_def running_prop_def simp del: hear.simps)
  then have "w' = ?f OnConsole w1" unfolding w'1 by (rule key_last)
  with c2 show ?thesis by simp
qed

theorem escape_stops_behind_help_witness:
  "sandboxState (console_of (foldl (ws_step plain_doc demo_page True)
     (foldl (ws_step plain_doc demo_page True) (workspace_init plain_doc) (demo_open @ [WPage 5 (ASys (UI (ClickRun 5)))]))
     [WPage 6 (ASys (UI ClickHelp)),
      WKey 7 \<lparr>evKey = ''Escape'', evMeta = False, evCtrl = False, evShift = False, evInText = True\<rparr>])) = SIdle"
proof -
  let ?f = "ws_step plain_doc demo_page True"
  let ?w = "foldl ?f (workspace_init plain_doc) (demo_open @ [WPage 5 (ASys (UI (ClickRun 5)))])"
  let ?k = "\<lparr>evKey = ''Escape'', evMeta = False, evCtrl = False, evShift = False, evInText = True\<rparr>"
  have "?w = ?f (foldl ?f (workspace_init plain_doc) demo_open) (WPage 5 (ASys (UI (ClickRun 5))))" by simp
  then have "console_of ?w = console_step True (console_init\<lparr>inputMode := ModeEditor\<rparr>) (ClickRun 5)"
    by (simp add: page_step(1) con_deliver demo_editor(2) del: sys_step.simps foldl_append)
  then have c: "\<not> helpOpen (console_of ?w)" "sandboxState (console_of ?w) = SRunning"
    by (simp_all add: console_step_def handler_defs vitals_shown_def console_init_def del: foldl_append)
  have k: "evKey ?k = ''Escape''" "\<not> evShift ?k" "\<not> evMeta ?k" "\<not> evCtrl ?k" by simp_all
  from escape_stops_behind_help[OF refl c k refl, of 6 7] show ?thesis by (rule conjunct1)
qed

text \<open>C37: Looking at a file throws the editor away: its text is gone, coming back to the console tab shows the
  starter program, and a compilation that was going on is not cancelled; its program is run when it
  arrives, in front of an editor with the starter program and no trace of a compilation.\<close>

theorem preview_discards_editor:
  assumes w: "w = foldl (ws_step am pg isMac) (workspace_init am) es" "edt w = Some e" and path: "path \<noteq> []"
    and i: "i < length (compiles w)" "compiles w ! i = Some (mounts w)"
    and body: "res_ok st" "jfield ''wasm_b64'' body = Some (JStr (x # xs))"
    and w1: "w1 = ws_step am pg isMac w (WPage now (ATree (HandleSelect path)))"
    and w2: "w2 = ws_step am pg isMac w1 (WCompiled now' i (Response st (Some body)))"
  shows "edt w1 = None \<and> edt (ws_step am pg isMac w1 (WPage now (ASys (UI (ClickTab TabTerminal))))) = Some editor_init \<and>
    edt w2 = Some editor_init \<and> sandboxState (console_of w2) = SRunning \<and> terminal_wasm (console_of w2) = x # xs"
proof -
  have inv: "ws_inv w" unfolding w(1) by (rule ws_machine.reachable_inv)
  note r1 = select_step[OF path, of am pg isMac w now, folded w1]
  have m: "inputMode (console_of w1) = ModeEditor" unfolding r1(6) using editor_shown(3)[OF inv w(2)]
    by (simp add: console_step_def vitals_shown_def handleFileSelect_def Let_def split: option.split list.split)
  have remount: "edt (settle (w1'\<lparr>core := a\<rparr>)) = Some editor_init"
    if "edt w1' = None" "main_pane (con (sys a)) = PaneEditor r" for w1' :: "('a, 'b) workspace" and a r
    using that by (simp add: settle_def editor_on_def Let_def)
  have tab: "edt (ws_step am pg isMac w1 (WPage now (ASys (UI (ClickTab TabTerminal))))) = Some editor_init"
  proof -
    let ?a = "app_step am pg isMac (core w1) (now, ASys (UI (ClickTab TabTerminal)))"
    have "con (sys ?a) = console_step isMac (console_of w1) (ClickTab TabTerminal)"
      by (subst app_step_UI(1)) (simp_all add: con_deliver)
    then have "main_pane (con (sys ?a)) = PaneEditor (running_prop w1)"
      using m by (simp add: console_step_def vitals_shown_def main_pane_def running_prop_def)
    from remount[OF r1(1) this] show ?thesis by (simp add: ws_step_turn turn_def del: app_step.simps)
  qed
  let ?a = "app_step am pg isMac (core w1) (now', ASys (UI (Compiled now' (Some (x # xs)))))"
  have con: "con (sys ?a) = console_step isMac (console_of w1) (Compiled now' (Some (x # xs)))"
    by (subst app_step_UI(1)) (simp_all add: con_deliver)
  have ev: "page_events w1 (WCompiled now' i (Response st (Some body))) = [(now', ASys (UI (Compiled now' (Some (x # xs)))))]"
    using i handed_over_program[OF body] by (simp add: handed_text_def r1(3))
  have core: "core w2 = ?a" unfolding w2 by (subst core_step) (simp_all add: ev del: app_step.simps page_events.simps)
  have "edt (pane_event (WCompiled now' i (Response st (Some body))) w1) = None" using r1(1) by (simp del: compile_done.simps)
  moreover have "main_pane (con (sys ?a)) = PaneEditor True" unfolding con by (rule compiled_console[OF m])
  ultimately have "edt (settle ((pane_event (WCompiled now' i (Response st (Some body))) w1)\<lparr>core := ?a\<rparr>)) = Some editor_init"
    by (rule remount)
  then have "edt w2 = Some editor_init" unfolding w2
    by (subst ws_step_turn) (simp_all add: turn_def ev del: app_step.simps pane_event.simps page_events.simps)
  moreover have "sandboxState (console_of w2) = SRunning" "terminal_wasm (console_of w2) = x # xs"
    unfolding core con using m by (simp_all add: console_step_def handler_defs terminal_wasm_def)
  ultimately show ?thesis using r1(1) tab by blast
qed

theorem preview_discards_editor_witness:
  "edt (ws_step plain_doc demo_page True
     (ws_step plain_doc demo_page True
       (foldl (ws_step plain_doc demo_page True) (workspace_init plain_doc) (demo_open @ [WCompile]))
       (WPage 2 (ATree (HandleSelect ''/a''))))
     (WCompiled 3 0 (Response 200 (Some demo_module)))) = Some editor_init"
proof -
  let ?o = "foldl (ws_step plain_doc demo_page True) (workspace_init plain_doc) demo_open"
  let ?w = "foldl (ws_step plain_doc demo_page True) (workspace_init plain_doc) (demo_open @ [WCompile])"
  have "?w = ws_step plain_doc demo_page True ?o WCompile" by simp
  note r = compile_step[OF ws_machine.reachable_inv demo_editor(1,6,7), of plain_doc demo_page True, folded this]
  have i: "0 < length (compiles ?w)" "compiles ?w ! 0 = Some (mounts ?w)" "''/a'' \<noteq> ([] :: string)"
    unfolding r by (simp_all add: demo_editor(4))
  from preview_discards_editor[OF refl r(1) i(3,1,2) demo_module_ok refl refl, of 2 3] show ?thesis by blast
qed

text \<open>The preview of a file of the snapshot.\<close>

lemma preview_of_selected:
  assumes "map_of (inlineVfsSnapshot (console_of w)) path = Some (btoa bs)" "bs \<noteq> []" "utf8_valid bs" "\<not> starts_with bom bs"
    "\<not> is_image_ext (file_ext path)" "path \<noteq> []"
  shows "\<exists>r. preview (ws_step am pg isMac w (WPage now (ATree (HandleSelect path)))) = Some r \<and>
    requests r = (case preview w of None \<Rightarrow> [] | Some old \<Rightarrow> requests old) \<and>
    ComponentRegistry r = (if detectKind path = KWasm then RawPane bs else pane_for path bs)"
proof -
  have "length (btoa bs) \<noteq> 0" using assms(2) by (cases bs) (simp_all add: length_btoa div_greater_zero_iff)
  then obtain x xs where b: "btoa bs = x # xs" by (cases "btoa bs") auto
  have sel: "inlineFileContent (handleFileSelect path (console_of w)) = Some bs"
    using assms(1,5) atob_btoa[of bs] text_decode_valid[OF assms(3,4)]
    by (simp add: handleFileSelect_def Let_def b)
  define r where "r = the (preview (ws_step am pg isMac w (WPage now (ATree (HandleSelect path)))))"
  note s = select_step(2)[OF assms(6), of am pg isMac w now, unfolded sel]
  have k: "detectKind path \<noteq> KImage" using assms(5) by (auto simp: detectKind_def is_image_ext_def Let_def)
  have "rpPath (regProps r) = path" "rpContent (regProps r) = Some bs"
    unfolding r_def s by (simp_all split: option.split)
  then have "ComponentRegistry r = (if detectKind path = KWasm then RawPane bs else pane_for path bs)"
    using k by (cases "detectKind path") (simp_all add: ComponentRegistry_def pane_for_def)
  moreover have "requests r = (case preview w of None \<Rightarrow> [] | Some old \<Rightarrow> requests old)"
    unfolding r_def s by (simp add: reg_mount_def reg_rerender_def reg_effect_def needsFetch_def Let_def split: option.split)
  ultimately show ?thesis using s by (auto simp: r_def)
qed

text \<open>A text file of the session is previewed from what the session delivered, without any request: if
  the stored snapshot holds the base64 form of valid UTF-8 bytes (not starting with a byte order mark),
  selecting the file in the tree puts the previewer of its extension on display with exactly those
  bytes, whatever was on display before (a WebAssembly file is shown raw).\<close>

theorem selected_file_previewed:
  assumes "map_of (inlineVfsSnapshot (console_of w)) path = Some (btoa bs)" "bs \<noteq> []" "utf8_valid bs" "\<not> starts_with bom bs"
    "\<not> is_image_ext (file_ext path)" "path \<noteq> []"
  shows "\<exists>r. preview (ws_step am pg isMac w (WPage now (ATree (HandleSelect path)))) = Some r \<and>
    requests r = (case preview w of None \<Rightarrow> [] | Some old \<Rightarrow> requests old) \<and>
    ComponentRegistry r = (if detectKind path = KWasm then RawPane bs else pane_for path bs)"
  using assms by (rule preview_of_selected)

theorem selected_file_previewed_witness:
  "\<exists>r. preview (ws_step plain_doc demo_page True ((workspace_init plain_doc)\<lparr>core := (app_init plain_doc)
       \<lparr>sys := sys_init\<lparr>con := console_init\<lparr>inlineVfsSnapshot := [(''/a.log'', btoa ''hi'')]\<rparr>\<rparr>\<rparr>\<rparr>)
     (WPage 1 (ATree (HandleSelect ''/a.log'')))) = Some r \<and> ComponentRegistry r = LogPane ''hi''"
proof -
  let ?w = "(workspace_init plain_doc)\<lparr>core := (app_init plain_doc)
       \<lparr>sys := sys_init\<lparr>con := console_init\<lparr>inlineVfsSnapshot := [(''/a.log'', btoa ''hi'')]\<rparr>\<rparr>\<rparr>\<rparr>"
  have p: "map_of (inlineVfsSnapshot (console_of ?w)) ''/a.log'' = Some (btoa ''hi'')" "''hi'' \<noteq> ([] :: string)"
    "''/a.log'' \<noteq> ([] :: string)" by simp_all
  have q: "utf8_valid ''hi''" "\<not> starts_with bom ''hi''" "\<not> is_image_ext (file_ext ''/a.log'')"
    "detectKind ''/a.log'' = KLog" by code_simp+
  from selected_file_previewed[OF p(1,2) q(1,2,3) p(3), of plain_doc demo_page True 1] show ?thesis
    by (auto simp: q(4) pane_for_def)
qed

text \<open>An exit frame with a snapshot, and the normal close that follows.\<close>

lemma exit_stores_snapshot:
  fixes am :: "('d, 'c) automerge" and pg :: page and isMac :: bool and now :: nat and reason :: string
  assumes w: "ws_inv w" "\<not> hasError (bnd (core w))"
    and sock: "sock_in (trm (sys (core w))) i [OPEN]" "\<not> hasTrapRef (trm (sys (core w)))"
    and frame: "json_parse t = Some msg" "jfield ''type'' msg = Some (JStr ''exit'')"
      "jfield ''trap'' msg = None" "jfield ''code'' msg = Some (JNum code)"
    and snap: "jfield ''vfs_snapshot'' msg = Some v" "snapshot_files v = Some fs" "fs \<noteq> []"
  defines "w1 \<equiv> foldl (ws_step am pg isMac) w
      [WPage now (ASys (TE (SockMessage i (TextFrame t)))), WPage now (ASys (TE (SockClosed i 1000 reason)))]"
  shows "inlineVfsSnapshot (console_of w1) = fs" "sandboxState (console_of w1) = (if code = 0 then SComplete else SNonzero)"
    "sessionId (console_of w1) = sessionId (console_of w)"
proof -
  let ?s = "sys (core w)" and ?g = "sys_step pg isMac"
  obtain f fs' where fs: "fs = f # fs'" using snap(3) by (cases fs) auto
  note x = sys_exit_and_close(1)[OF sys_inv_up[OF w] sock frame(1,2), of pg isMac reason]
  have "sys (core w1) = ?g (?g ?s (TE (SockMessage i (TextFrame t)))) (TE (SockClosed i 1000 reason))"
    unfolding w1_def foldl.simps using w(2)
    by (simp add: page_step(1) deliver_up del: sys_step.simps)
  then have con: "console_of w1 = console_step isMac (con ?s) (end_event (announced msg (vfsSnapshotRef (trm ?s))))"
    using x by simp
  have "announced msg u = EndComplete (Some v) (JNum code)" for u
    using frame(3,4) snap(1,2) by (cases v) (simp_all add: announced_def nullish_def)
  then have "console_of w1 = console_step isMac (con ?s) (SessionEnded True (Some (f # fs')) (Some (JNum code)))"
    using con snap(2) fs by (simp add: end_event_def)
  then show "inlineVfsSnapshot (console_of w1) = fs" "sandboxState (console_of w1) = (if code = 0 then SComplete else SNonzero)"
    "sessionId (console_of w1) = sessionId (console_of w)"
    using fs by (simp_all add: console_step_def handler_defs vitals_shown_def Let_def)
qed

text \<open>C3: From the end of a session to the preview: when the sandbox reports its exit with a snapshot of its
  files and the socket closes normally, the console shows completion or a non-zero exit; selecting a
  text file of that snapshot in the tree then puts the previewer of its extension on display, with the
  bytes the sandbox wrote and without a further request.\<close>

theorem session_file_previewed:
  fixes am :: "('d, 'c) automerge"
  assumes w: "w = foldl (ws_step am pg isMac) (workspace_init am) es" "\<not> hasError (bnd (core w))"
    and sock: "sock_in (trm (sys (core w))) i [OPEN]" "\<not> hasTrapRef (trm (sys (core w)))"
    and frame: "json_parse t = Some msg" "jfield ''type'' msg = Some (JStr ''exit'')"
      "jfield ''trap'' msg = None" "jfield ''code'' msg = Some (JNum code)"
    and snap: "jfield ''vfs_snapshot'' msg = Some v" "snapshot_files v = Some fs" "map_of fs path = Some (btoa bs)"
    and bytes: "bs \<noteq> []" "utf8_valid bs" "\<not> starts_with bom bs" "\<not> is_image_ext (file_ext path)" "path \<noteq> []"
    and w1: "w1 = foldl (ws_step am pg isMac) w
      [WPage now (ASys (TE (SockMessage i (TextFrame t)))), WPage now (ASys (TE (SockClosed i 1000 reason)))]"
  shows "sandboxState (console_of w1) = (if code = 0 then SComplete else SNonzero) \<and>
    (\<exists>r. preview (ws_step am pg isMac w1 (WPage now (ATree (HandleSelect path)))) = Some r \<and>
      requests r = (case preview w1 of None \<Rightarrow> [] | Some old \<Rightarrow> requests old) \<and>
      ComponentRegistry r = (if detectKind path = KWasm then RawPane bs else pane_for path bs))"
proof -
  have inv: "ws_inv w" unfolding w(1) by (rule ws_machine.reachable_inv)
  have "fs \<noteq> []" using snap(3) by auto
  from exit_stores_snapshot[OF inv w(2) sock frame snap(1,2) this, of am pg isMac now reason, folded w1]
  have "inlineVfsSnapshot (console_of w1) = fs" "sandboxState (console_of w1) = (if code = 0 then SComplete else SNonzero)"
    by simp_all
  with snap(3) show ?thesis
    using preview_of_selected[OF _ bytes, of w1 am pg isMac now] by simp
qed

definition demo_result :: json where
  "demo_result = JObj [(''type'', JStr ''exit''), (''code'', JNum 0),
     (''vfs_snapshot'', JObj [(''/a.log'', JStr (btoa ''hi''))])]"

lemma demo_session:
  defines "w \<equiv> foldl (ws_step plain_doc demo_page True) (workspace_init plain_doc)
    [WPage 1 (ASys (UI (ClickRun 1))), WPage 1 (ASys (TE (SockOpened 0)))]"
  shows "\<not> hasError (bnd (core w))" "sock_in (trm (sys (core w))) 0 [OPEN]" "\<not> hasTrapRef (trm (sys (core w)))"
proof -
  let ?s = "sys_step demo_page True sys_init (UI (ClickRun 1))"
  have e: "\<not> hasError (bnd (core (workspace_init plain_doc)))" "sys (core (workspace_init plain_doc)) = sys_init"
    by (simp_all add: workspace_init_def app_init_def boundary_init_def)
  have idle: "sandboxState (con sys_init) \<noteq> SRunning" by (simp add: sys_init_def console_init_def)
  note c = sys_click_run[OF sys_inv_init idle, of demo_page True 1]
  have z: "length (sockets (trm sys_init)) = 0" by (simp add: sys_init_def terminal_init_def)
  have "0 < length (sockets (trm ?s))" "sockState (sockets (trm ?s) ! 0) = CONNECTING"
    "sockPayload (sockets (trm ?s) ! 0) = Some (terminal_wasm (con sys_init))"
    using c(5,7,9) unfolding z by simp_all
  note o = sys_socket_opened[OF this terminal_wasm_not_Nil, of demo_page True]
  have "sys (core w) = sys_step demo_page True ?s (TE (SockOpened 0))" and b: "\<not> hasError (bnd (core w))"
    using e by (simp_all add: w_def page_step(1) deliver_up del: sys_step.simps)
  then show "\<not> hasError (bnd (core w))" "sock_in (trm (sys (core w))) 0 [OPEN]" "\<not> hasTrapRef (trm (sys (core w)))"
    using o(2,5) c(12) by (simp_all add: sys_init_def terminal_init_def del: sys_step.simps)
qed

theorem session_file_previewed_witness:
  "\<exists>r. preview (ws_step plain_doc demo_page True
     (foldl (ws_step plain_doc demo_page True)
       (foldl (ws_step plain_doc demo_page True) (workspace_init plain_doc)
         [WPage 1 (ASys (UI (ClickRun 1))), WPage 1 (ASys (TE (SockOpened 0)))])
       [WPage 2 (ASys (TE (SockMessage 0 (TextFrame (stringify demo_result))))), WPage 2 (ASys (TE (SockClosed 0 1000 [])))])
     (WPage 2 (ATree (HandleSelect ''/a.log'')))) = Some r \<and> ComponentRegistry r = LogPane ''hi''"
proof -
  have j: "json_parse (stringify demo_result) = Some demo_result"
    by (rule json_parse_stringify) (simp add: demo_result_def)
  have f: "jfield ''type'' demo_result = Some (JStr ''exit'')" "jfield ''trap'' demo_result = None"
    "jfield ''code'' demo_result = Some (JNum 0)"
    "jfield ''vfs_snapshot'' demo_result = Some (JObj [(''/a.log'', JStr (btoa ''hi''))])"
    by (simp_all add: demo_result_def)
  have s: "snapshot_files (JObj [(''/a.log'', JStr (btoa ''hi''))]) = Some [(''/a.log'', btoa ''hi'')]"
    "map_of [(''/a.log'', btoa ''hi'')] ''/a.log'' = Some (btoa ''hi'')" "''hi'' \<noteq> ([] :: string)" "''/a.log'' \<noteq> ([] :: string)"
    by simp_all
  have q: "utf8_valid ''hi''" "\<not> starts_with bom ''hi''" "\<not> is_image_ext (file_ext ''/a.log'')"
    "detectKind ''/a.log'' = KLog" by code_simp+
  from session_file_previewed[OF refl demo_session j f s(1-3) q(1-3) s(4) refl, of 2 "[]"] show ?thesis
    by (auto simp: q(4) pane_for_def)
qed

text \<open>The previewer of an image shows the image element, whatever the registry has fetched.\<close>

lemma image_pane:
  "detectKind (rpPath p) = KImage \<Longrightarrow> regProps r = p \<Longrightarrow>
     ComponentRegistry r = ImagePane (base_name (rpPath p)) (image_src (rpPath p) (rpSession p) (rpB64 p))"
  by (simp add: ComponentRegistry_def Let_def)

text \<open>An event of the mounted previewer, with the same pane on display.\<close>

lemma viewer_step:
  assumes "ws_inv w" "preview w = Some r" "core w1 = core w" "edt w1 = edt w" "preview w1 = Some r"
  shows "preview (settle w1) = Some r" "viewing (settle w1) = viewer_on (ComponentRegistry r) (viewing w1)"
proof -
  have "pane_inv w" using assms(1) by (simp add: ws_inv_def)
  with assms(2) obtain p sid c b where m: "main_pane (console_of w) = PaneRegistry p sid c b"
    and r: "regProps r = \<lparr>rpPath = p, rpSession = sid, rpContent = c, rpB64 = b\<rparr>"
    by (auto simp: pane_inv_def split: MainPane.splits)
  have "preview_on (main_pane (console_of w)) (Some r) = Some r"
    using reg_rerender_same[of r] by (simp add: preview_on_def m r)
  then show "preview (settle w1) = Some r" "viewing (settle w1) = viewer_on (ComponentRegistry r) (viewing w1)"
    using assms(3,5) by (simp_all add: settle_def Let_def viewer_after_def)
qed

text \<open>C33: An image that fails to load hides the next one: its error handler hides the image element, and
  React keeps that element when another image is selected, so that one is given its own source and
  title and stays hidden.\<close>

theorem failed_image_hides_next:
  assumes w: "w = foldl (ws_step am pg isMac) (workspace_init am) es" "preview w = Some r"
    and kinds: "detectKind (rpPath (regProps r)) = KImage" "detectKind path = KImage" and path: "path \<noteq> []"
    and w': "w' = foldl (ws_step am pg isMac) w [WImageError, WPage now (ATree (HandleSelect path))]"
  shows "preview_display lc w' = Some (ScreenImage (base_name path)
    (image_src path (sessionId (console_of w)) (inlineFileB64 (handleFileSelect path (console_of w)))) True)"
proof -
  let ?f = "ws_step am pg isMac"
  define w1 where "w1 = ?f w WImageError"
  have inv: "ws_inv w" unfolding w(1) by (rule ws_machine.reachable_inv)
  have pane: "ComponentRegistry r = ImagePane (base_name (rpPath (regProps r)))
      (image_src (rpPath (regProps r)) (rpSession (regProps r)) (rpB64 (regProps r)))"
    using kinds(1) by (rule image_pane) simp
  have "viewer_fits (ComponentRegistry r) (viewing w)" using inv w(2) by (simp add: ws_inv_def pane_inv_def)
  then obtain h where h: "viewing w = ImageViewer h" by (auto simp: viewer_fits_def pane)
  have w1: "w1 = relisten w (settle (w\<lparr>viewing := ImageViewer True\<rparr>))" by (simp add: w1_def ws_step_turn turn_def h)
  note s = viewer_step[OF inv w(2), of "w\<lparr>viewing := ImageViewer True\<rparr>", simplified, OF w(2)]
  have v1: "viewing w1 = ImageViewer True" using s(2) by (simp add: w1 pane)
  have c1: "console_of w1 = console_of w" by (simp add: w1)
  have w'1: "w' = ?f w1 (WPage now (ATree (HandleSelect path)))" by (simp add: w' w1_def)
  note r2 = select_step[OF path, of am pg isMac w1 now, folded w'1, unfolded c1]
  define r' where "r' = the (preview w')"
  have p': "preview w' = Some r'" using r2(2) by (simp add: r'_def)
  have "regProps r' = \<lparr>rpPath = path, rpSession = sessionId (console_of w),
      rpContent = inlineFileContent (handleFileSelect path (console_of w)), rpB64 = inlineFileB64 (handleFileSelect path (console_of w))\<rparr>"
    unfolding r'_def r2(2) by (simp split: option.split)
  from image_pane[OF _ this] kinds(2) have pane': "ComponentRegistry r' = ImagePane (base_name path)
      (image_src path (sessionId (console_of w)) (inlineFileB64 (handleFileSelect path (console_of w))))" by simp
  have "viewing w' = ImageViewer True" using r2(7) v1 by (simp add: p' viewer_after_def pane')
  then show ?thesis by (simp add: preview_display_def p' pane' ImageViewer_view_def)
qed

theorem failed_image_hides_next_witness:
  "\<exists>title src. preview_display (\<lambda>a b. 0) (foldl (ws_step plain_doc demo_page True)
     (foldl (ws_step plain_doc demo_page True) (workspace_init plain_doc) [WPage 1 (ATree (HandleSelect ''/a.png''))])
     [WImageError, WPage 2 (ATree (HandleSelect ''/b.png''))]) = Some (ScreenImage title src True)"
proof -
  let ?w = "foldl (ws_step plain_doc demo_page True) (workspace_init plain_doc) [WPage 1 (ATree (HandleSelect ''/a.png''))]"
  have k: "detectKind ''/a.png'' = KImage" "detectKind ''/b.png'' = KImage" by code_simp+
  have n: "''/a.png'' \<noteq> ([] :: string)" "''/b.png'' \<noteq> ([] :: string)" by simp_all
  obtain r where r: "preview ?w = Some r" "rpPath (regProps r) = ''/a.png''"
    using select_step(2)[OF n(1), of plain_doc demo_page True "workspace_init plain_doc" 1]
    by (simp add: workspace_init_def del: ws_step_def)
  have "detectKind (rpPath (regProps r)) = KImage" unfolding r(2) by (rule k(1))
  from failed_image_hides_next[OF refl r(1) this k(2) n(2) refl, of "\<lambda>a b. 0" 2] show ?thesis by blast
qed

end
