(* ===== verification/OrchStatus.thy ===== *)
theory OrchStatus
  imports Polling
begin

text \<open>
  \<open>frontend/components/OrchestratorStatus.tsx\<close>: the health poll of the top bar, its exponential
  back-off, and the countdown shown while the orchestrator is unreachable. The state holds the
  React state, the refs and the closure variable \<open>remaining\<close> of the running interval; the browser's
  timers are the events \<open>orch_poll\<close> (the request that the timeout starts has ended) and
  \<open>countdown_tick\<close> (one second of the interval has passed).
\<close>

section \<open>Model\<close>

datatype HealthState = Checking | Online | Offline

definition ORCH_POLL_BASE_MS :: nat where "ORCH_POLL_BASE_MS = 10000"
definition ORCH_POLL_MAX_MS :: nat where "ORCH_POLL_MAX_MS = 120000"

lemmas orch_consts = ORCH_POLL_BASE_MS_def ORCH_POLL_MAX_MS_def

text \<open>\<open>checkHealth\<close>: the status of the response decides, any exception means unreachable.\<close>

fun checkHealth :: "unit http \<Rightarrow> bool" where
  "checkHealth (FetchThrows e) = False"
| "checkHealth (Response status body) = res_ok status"

record orch =
  healthStatus :: HealthState
  retryIn :: "int option"
  orchBackoffMs :: nat
  countdown :: "int option"
  orchTimer :: "nat option"
  orchCancelled :: bool

definition orch_init :: orch where
  "orch_init = \<lparr>healthStatus = Checking, retryIn = None, orchBackoffMs = ORCH_POLL_BASE_MS,
     countdown = None, orchTimer = None, orchCancelled = False\<rparr>"

definition clearCountdown :: "orch \<Rightarrow> orch" where
  "clearCountdown s = s\<lparr>countdown := None, retryIn := None\<rparr>"

definition startCountdown :: "nat \<Rightarrow> orch \<Rightarrow> orch" where
  "startCountdown totalMs s =
     (let s' = clearCountdown s; remaining = int (round_div totalMs 1000) in
      s'\<lparr>retryIn := Some remaining, countdown := Some remaining\<rparr>)"

text \<open>The interval callback; without a running interval it is not called.\<close>

definition countdown_tick :: "orch \<Rightarrow> orch" where
  "countdown_tick s = (case countdown s of
       None \<Rightarrow> s
     | Some remaining \<Rightarrow>
         (let r = remaining - 1 in
          if r \<le> 0 then clearCountdown s
          else s\<lparr>countdown := Some r, retryIn := Some r\<rparr>))"

definition orch_bump :: "nat \<Rightarrow> nat" where
  "orch_bump b = min (b * 2) ORCH_POLL_MAX_MS"

definition orch_poll :: "orch \<Rightarrow> unit http \<Rightarrow> orch" where
  "orch_poll s exchange =
     (if orchCancelled s then s
      else if checkHealth exchange then
        (let s1 = clearCountdown (s\<lparr>orchBackoffMs := ORCH_POLL_BASE_MS\<rparr>) in
         s1\<lparr>healthStatus := Online, orchTimer := Some ORCH_POLL_BASE_MS\<rparr>)
      else
        (let s1 = s\<lparr>healthStatus := Offline, orchBackoffMs := orch_bump (orchBackoffMs s)\<rparr>;
             s2 = startCountdown (orchBackoffMs s1) s1 in
         s2\<lparr>orchTimer := Some (orchBackoffMs s2)\<rparr>))"

definition orch_unmount :: "orch \<Rightarrow> orch" where
  "orch_unmount s = s\<lparr>orchCancelled := True, orchTimer := None, countdown := None\<rparr>"

definition dotClass :: "orch \<Rightarrow> string" where
  "dotClass s = (case healthStatus s of
       Online \<Rightarrow> ''bg-[var(--color-ok)]''
     | Offline \<Rightarrow> ''bg-[var(--color-warn)] animate-pulse''
     | Checking \<Rightarrow> ''bg-[var(--color-text-muted)] animate-pulse'')"

definition tipText :: "orch \<Rightarrow> string" where
  "tipText s = (case healthStatus s of
       Online \<Rightarrow> ''Orchestrator reachable''
     | Offline \<Rightarrow> (case retryIn s of
           Some r \<Rightarrow> ''Orchestrator offline '' @ em_dash @ '' retrying in '' @ int_str r @ ''s''
         | None \<Rightarrow> ''Orchestrator offline '' @ em_dash @ '' retrying'' @ ellipsis)
     | Checking \<Rightarrow> ''Checking orchestrator'' @ ellipsis)"

section \<open>The events of the component and its invariant\<close>

datatype orch_event = PollDone "unit http" | Tick | Unmount

fun orch_step :: "orch \<Rightarrow> orch_event \<Rightarrow> orch" where
  "orch_step s (PollDone x) = orch_poll s x"
| "orch_step s Tick = countdown_tick s"
| "orch_step s Unmount = orch_unmount s"

text \<open>
  The displayed count is the interval's, is positive and is only there while offline; the delay of
  the next request is the back-off value, in its range.
\<close>

definition orch_inv :: "orch \<Rightarrow> bool" where
  "orch_inv s \<longleftrightarrow>
     (\<forall>r. countdown s = Some r \<longrightarrow> retryIn s = Some r) \<and>
     (\<forall>r. retryIn s = Some r \<longrightarrow> 0 < r \<and> healthStatus s = Offline) \<and>
     (\<not> orchCancelled s \<longrightarrow> retryIn s = countdown s) \<and>
     (orchCancelled s \<longrightarrow> countdown s = None \<and> orchTimer s = None) \<and>
     (\<forall>d. orchTimer s = Some d \<longrightarrow> d = orchBackoffMs s) \<and>
     ORCH_POLL_BASE_MS \<le> orchBackoffMs s \<and> orchBackoffMs s \<le> ORCH_POLL_MAX_MS"

lemma orch_init_inv: "orch_inv orch_init"
  by (simp add: orch_inv_def orch_init_def orch_consts)

lemma round_div_pos: "1000 \<le> t \<Longrightarrow> 0 < round_div t 1000"
  by (simp add: round_div_def div_greater_zero_iff)

lemma orch_step_inv: "orch_inv s \<Longrightarrow> orch_inv (orch_step s e)"
proof (cases e)
  case (PollDone x)
  assume inv: "orch_inv s"
  then have "1000 \<le> orch_bump (orchBackoffMs s)"
    by (simp add: orch_inv_def orch_bump_def orch_consts)
  note round_div_pos[OF this]
  then show ?thesis using inv PollDone
    by (simp add: orch_inv_def orch_poll_def clearCountdown_def startCountdown_def Let_def
        orch_bump_def orch_consts)
next
  case Tick
  assume "orch_inv s"
  with Tick show ?thesis
    by (auto simp: orch_inv_def countdown_tick_def clearCountdown_def Let_def split: option.split)
next
  case Unmount
  assume "orch_inv s"
  with Unmount show ?thesis by (simp add: orch_inv_def orch_unmount_def)
qed

interpretation orch_machine: started_machine orch_step orch_inv orch_init
  by unfold_locales (simp_all add: orch_step_inv orch_init_inv)

interpretation orchp: poller ORCH_POLL_BASE_MS ORCH_POLL_MAX_MS orch_bump orchBackoffMs orch_poll
  "\<lambda>s. \<not> orchCancelled s" checkHealth "\<lambda>x. \<not> checkHealth x"
  by unfold_locales
     (auto simp: orch_bump_def orch_consts orch_poll_def clearCountdown_def startCountdown_def Let_def)

section \<open>Countdown\<close>

lemma countdown_ticks:
  assumes "countdown s = Some r" "int k < r"
  shows "countdown ((countdown_tick ^^ k) s) = Some (r - int k)
    \<and> healthStatus ((countdown_tick ^^ k) s) = healthStatus s
    \<and> (0 < k \<longrightarrow> retryIn ((countdown_tick ^^ k) s) = Some (r - int k))"
  using assms
proof (induction k)
  case (Suc k)
  then have "countdown ((countdown_tick ^^ k) s) = Some (r - int k)" by simp
  with Suc show ?case by (simp add: countdown_tick_def Let_def)
qed simp

lemma countdown_done:
  assumes "countdown s = Some r" "0 < r"
  shows "retryIn ((countdown_tick ^^ nat r) s) = None"
proof -
  obtain k where k: "nat r = Suc k" using assms(2) by (cases "nat r") auto
  then have "int k < r" "r - int k = 1" using assms(2) by linarith+
  with countdown_ticks[OF assms(1), of k] have "countdown ((countdown_tick ^^ k) s) = Some 1" by simp
  then show ?thesis by (simp add: k countdown_tick_def clearCountdown_def Let_def)
qed

lemma round_div_1000: "d mod 1000 = 0 \<Longrightarrow> round_div d 1000 = d div 1000"
proof -
  assume "d mod 1000 = 0"
  then obtain q where "d = 1000 * q" by (auto elim: dvdE simp: mod_eq_0_iff_dvd)
  moreover have "(2 * (1000 * q) + 1000) div (2 * 1000) = q"
    using div_mult_self2[of "2 * 1000" 1000 q] by (simp add: ac_simps)
  ultimately show ?thesis by (simp add: round_div_def)
qed

definition outage_delay :: "nat \<Rightarrow> nat" where
  "outage_delay n = min (ORCH_POLL_BASE_MS * 2 ^ n) ORCH_POLL_MAX_MS"

lemma outage_delay_1000: "outage_delay n mod 1000 = 0"
proof -
  have "1000 dvd (10000 * m)" for m :: nat by (rule dvd_mult2) simp
  then show ?thesis by (simp add: outage_delay_def orch_consts min_def mod_eq_0_iff_dvd)
qed

lemma orch_after_failures:
  assumes "\<And>x. x \<in> set xs \<Longrightarrow> \<not> checkHealth x" "xs \<noteq> []"
  defines "s \<equiv> foldl orch_poll orch_init xs" and "d \<equiv> outage_delay (length xs)"
  shows "orchTimer s = Some d" "countdown s = Some (int (d div 1000))"
    "retryIn s = Some (int (d div 1000))" "healthStatus s = Offline"
proof -
  obtain ys x where xs: "xs = ys @ [x]" using assms(2) by (metis rev_exhaust)
  let ?t = "foldl orch_poll orch_init ys"
  have live: "\<not> orchCancelled ?t" by (rule orchp.live_run) (simp add: orch_init_def)
  have x: "\<not> checkHealth x" using assms(1) xs by simp
  have "orchBackoffMs s = (orch_bump ^^ length xs) ORCH_POLL_BASE_MS"
    unfolding s_def using assms(1)
    by (subst orchp.delay_run_down) (simp_all add: orch_init_def)
  then have b: "orchBackoffMs s = d"
    by (simp add: orchp.bump_iter d_def outage_delay_def)
  have r: "round_div d 1000 = d div 1000"
    by (rule round_div_1000) (simp add: d_def outage_delay_1000)
  have s: "s = orch_poll ?t x" by (simp add: s_def xs)
  with live x b have bump: "orch_bump (orchBackoffMs ?t) = d"
    by (simp add: orch_poll_def startCountdown_def clearCountdown_def Let_def)
  show "orchTimer s = Some d" "countdown s = Some (int (d div 1000))"
    "retryIn s = Some (int (d div 1000))" "healthStatus s = Offline"
    using live x bump r
    by (simp_all add: s orch_poll_def startCountdown_def clearCountdown_def Let_def)
qed

text \<open>C30: While the orchestrator stays unreachable, the tooltip counts down whole seconds and
  reaches zero exactly when the retry timer fires: after the \<open>n\<close>-th failed probe in a row the timer
  is set to \<open>d = min (10000 * 2^n) 120000\<close> ms, a whole number of seconds; \<open>k\<close> seconds later the text
  shows that many seconds less \<open>k\<close>, and once the timer's full time has passed the count is gone.\<close>

theorem countdown_matches_retry:
  assumes down: "\<And>x. x \<in> set xs \<Longrightarrow> \<not> checkHealth x" and some: "xs \<noteq> []"
    and s: "s = foldl orch_poll orch_init xs" and d: "d = min (10000 * 2 ^ length xs) 120000"
  shows "orchTimer s = Some d \<and> d mod 1000 = 0 \<and>
    (\<forall>k < d div 1000. tipText ((countdown_tick ^^ k) s) =
       ''Orchestrator offline '' @ em_dash @ '' retrying in '' @ nat_str (d div 1000 - k) @ ''s'') \<and>
    retryIn ((countdown_tick ^^ (d div 1000)) s) = None"
proof -
  have d': "d = outage_delay (length xs)" by (simp add: d outage_delay_def orch_consts)
  note st = orch_after_failures[OF down some, folded s d']
  have "1 * 10000 \<le> 2 ^ length xs * (10000 :: nat)" by (rule mult_le_mono1) simp
  then have pos: "0 < d div 1000" by (simp add: d div_greater_zero_iff mult.commute)
  have "tipText ((countdown_tick ^^ k) s) =
      ''Orchestrator offline '' @ em_dash @ '' retrying in '' @ nat_str (d div 1000 - k) @ ''s''"
    if k: "k < d div 1000" for k
  proof -
    have "retryIn ((countdown_tick ^^ k) s) = Some (int (d div 1000) - int k)"
      using countdown_ticks[OF st(2), of k] k st(3) by (cases k) auto
    moreover have "healthStatus ((countdown_tick ^^ k) s) = Offline"
      using countdown_ticks[OF st(2), of k] k st(4) by simp
    moreover have "int_str (int (d div 1000) - int k) = nat_str (d div 1000 - k)"
      using k by (simp add: int_str_def nat_diff_distrib)
    ultimately show ?thesis by (simp add: tipText_def)
  qed
  moreover have "retryIn ((countdown_tick ^^ (d div 1000)) s) = None"
    using countdown_done[OF st(2)] pos by simp
  ultimately show ?thesis using st(1) by (simp add: d' outage_delay_1000)
qed

theorem countdown_matches_retry_witness:
  "orchTimer (foldl orch_poll orch_init [Response 503 None, FetchThrows TypeError]) = Some 40000 \<and>
   tipText ((countdown_tick ^^ 5) (foldl orch_poll orch_init [Response 503 None, FetchThrows TypeError]))
     = ''Orchestrator offline '' @ em_dash @ '' retrying in '' @ nat_str 35 @ ''s''"
proof -
  let ?xs = "[Response 503 None, FetchThrows TypeError]"
  have down: "\<And>x. x \<in> set ?xs \<Longrightarrow> \<not> checkHealth x" by (auto simp: res_ok_def)
  have d: "(40000 :: nat) = min (10000 * 2 ^ length ?xs) 120000" by simp
  note w = countdown_matches_retry[OF down _ refl d]
  show ?thesis
    using w conjunct1[OF conjunct2[OF conjunct2[OF w]], rule_format, of 5] by simp
qed

text \<open>In every reachable state of the health indicator, under any interleaving of probe results,
  countdown ticks and unmounting: a countdown is displayed only while offline and is positive; the
  next probe is scheduled after the current back-off, which stays between 10 s and 2 min; and after
  unmounting neither a timer nor an interval is left running.\<close>

theorem orch_reachable_inv:
  "case foldl orch_step orch_init es of s \<Rightarrow>
     (\<forall>r. retryIn s = Some r \<longrightarrow> 0 < r \<and> healthStatus s = Offline) \<and>
     (\<forall>d. orchTimer s = Some d \<longrightarrow> 10000 \<le> d \<and> d \<le> 120000 \<and> d = orchBackoffMs s) \<and>
     (Unmount \<in> set es \<longrightarrow> orchTimer s = None \<and> countdown s = None)"
proof -
  have cancel: "orchCancelled (foldl orch_step t es)"
    if "orchCancelled t \<or> Unmount \<in> set es" for t
    using that
  proof (induction es arbitrary: t)
    case (Cons e es)
    have "orchCancelled t \<Longrightarrow> orchCancelled (orch_step t e)"
      by (cases e) (auto simp: orch_poll_def countdown_tick_def clearCountdown_def orch_unmount_def
          Let_def split: option.split)
    with Cons show ?case by (auto simp: orch_unmount_def)
  qed simp
  have "orch_inv (foldl orch_step orch_init es)" by (rule orch_machine.reachable_inv)
  with cancel[of orch_init] show ?thesis by (auto simp: orch_inv_def orch_consts)
qed

theorem orch_reachable_inv_witness:
  "orchTimer (foldl orch_step orch_init [PollDone (FetchThrows TypeError), Tick, Unmount]) = None"
  using orch_reachable_inv[of "[PollDone (FetchThrows TypeError), Tick, Unmount]"]
  by (simp del: orch_step.simps)

end
