(* ===== verification/Overlay.thy ===== *)
theory Overlay
  imports Chrome
begin

text \<open>
  The whole panic screen of \<open>TerminalErrorBoundary.tsx\<close> with its time stamp, and the sections of
  \<open>HelpOverlay.tsx\<close> with what closes it.
\<close>

section \<open>Time stamps\<close>

text \<open>\<open>Date.toISOString\<close> in the proleptic Gregorian calendar, for times from 1970 on. \<open>civil_year\<close> and
  \<open>civil_month\<close> count the days down to the year and the month; both give the rest.\<close>

definition leap :: "nat \<Rightarrow> bool" where
  "leap y \<longleftrightarrow> y mod 4 = 0 \<and> (y mod 100 \<noteq> 0 \<or> y mod 400 = 0)"

definition year_days :: "nat \<Rightarrow> nat" where
  "year_days y = (if leap y then 366 else 365)"

definition month_days :: "nat \<Rightarrow> nat list" where
  "month_days y = [31, if leap y then 29 else 28, 31, 30, 31, 30, 31, 31, 30, 31, 30, 31]"

function civil_year :: "nat \<Rightarrow> nat \<Rightarrow> nat \<times> nat" where
  "civil_year y d = (if d < year_days y then (y, d) else civil_year (Suc y) (d - year_days y))"
  by pat_completeness auto
termination by (relation "measure snd") (auto simp: year_days_def split: if_splits)

declare civil_year.simps [simp del]

fun civil_month :: "nat \<Rightarrow> nat list \<Rightarrow> nat \<Rightarrow> nat \<times> nat" where
  "civil_month m [] d = (m, d)"
| "civil_month m (n # ns) d = (if d < n then (m, d) else civil_month (Suc m) ns (d - n))"

definition pad :: "nat \<Rightarrow> nat \<Rightarrow> string" where
  "pad w n = replicate (w - length (nat_str n)) (CHR ''0'') @ nat_str n"

text \<open>Year, month, day, hour, minute and second of a time in milliseconds.\<close>

definition civil :: "nat \<Rightarrow> nat list" where
  "civil ms =
     (let s = ms div 1000; (y, d) = civil_year 1970 (s div 86400); (m, d') = civil_month 1 (month_days y) d
      in [y, m, d' + 1, s mod 86400 div 3600, s mod 3600 div 60, s mod 60])"

text \<open>Up to the year 9999.\<close>

definition toISOString :: "nat \<Rightarrow> string" where
  "toISOString ms = (case civil ms of
       [y, mo, d, h, mi, s] \<Rightarrow> pad 4 y @ ''-'' @ pad 2 mo @ ''-'' @ pad 2 d @ ''T'' @ pad 2 h @ '':'' @ pad 2 mi @ '':'' @ pad 2 s
         @ ''.'' @ pad 3 (ms mod 1000) @ ''Z''
     | _ \<Rightarrow> [])"

text \<open>\<open>timestamp.slice(0, 19).replace("T", " ")\<close>\<close>

definition panic_time :: "nat \<Rightarrow> string" where
  "panic_time ms = (let t = take 19 (toISOString ms) in
     case dropWhile (\<lambda>c. c \<noteq> CHR ''T'') t of
       [] \<Rightarrow> t
     | x # rest \<Rightarrow> takeWhile (\<lambda>c. c \<noteq> CHR ''T'') t @ '' '' @ rest)"

section \<open>Panic screen\<close>

record panic_screen =
  psHeader :: "string list"
  psBanner :: "string list"
  psTrace :: "string list"
  psSystem :: "(string \<times> string) list"
  psPrompt :: "string list"

definition panic_system :: "nat \<Rightarrow> (string \<times> string) list" where
  "panic_system now =
     [(''PID'', em_dash), (''CPU'', ''0x00''), (''Signal'', ''SIGABRT''), (''Timestamp'', panic_time now),
      (''Module'', ''xterm-renderer''), (''Subsystem'', ''terminal'')]"

definition panic_render :: "nat \<Rightarrow> (string \<times> string option) option \<Rightarrow> panic_screen" where
  "panic_render now err =
     \<lparr>psHeader = [''*** KERNEL PANIC '' @ em_dash @ '' NOT SYNCING'', ''isolator-v / terminal subsystem''],
      psBanner = [''[  FATAL  ] Unhandled exception in render tree'', panicMessage (KernelPanic err)],
      psTrace = (if panicTrace (KernelPanic err) = [] then [] else ''Call Trace:'' # panicTrace (KernelPanic err)),
      psSystem = panic_system now,
      psPrompt = [''Press '', ''Reconnect'', '' to restart the terminal subsystem.'']\<rparr>"

section \<open>Help overlay\<close>

definition HELP_STEPS :: "(string \<times> string \<times> string) list" where
  "HELP_STEPS =
     [(''1'', ''Start a Session'',
       ''Press Run ('' @ cmd_key @ enter_key @ '') to create a new sandbox session. A unique session ID appears in the toolbar.''),
      (''2'', ''Watch the Terminal'',
       ''The execution terminal streams live stdout and stderr from your WASM module. You can type to send stdin.''),
      (''3'', ''Inspect Output Files'',
       ''Files written by the sandbox appear in the left panel. Click any file to open an interactive preview.'')]"

definition HELP_TIPS :: "string list" where
  "HELP_TIPS =
     [''Drag the resize handles between panels to customise the layout to your workflow.'',
      ''The file tree polls for new files every 3 s. Ghost files (faded, '' @ [CHR 0x22] @ ''pending'' @ [CHR 0x22]
        @ '' badge) are optimistically shown before the server confirms them.'',
      ''Opening the same session in multiple tabs keeps the file trees in sync automatically using CRDT merge (Automerge).'',
      ''The terminal supports full ANSI colour sequences and passes keystrokes back to the sandbox as stdin.'',
      ''If the terminal crashes with a Kernel Panic screen, click Reconnect to reinitialise the renderer without losing the session.'']"

datatype help_section =
    HelpSteps "(string \<times> string \<times> string) list"
  | HelpKeys "(string list \<times> string) list" string
  | HelpPanels "(string \<times> string \<times> string) list"
  | HelpPreviews "(string list \<times> string) list"
  | HelpTips "string list"

definition help_steps :: help_section where
  "help_steps = HelpSteps (map (\<lambda>(step, heading, body). (step @ '' / 3'', heading, body)) HELP_STEPS)"

definition help_sections :: "(string \<times> help_section) list" where
  "help_sections =
     [(''Getting Started'', help_steps),
      (''Keyboard Shortcuts'', HelpKeys SHORTCUTS (''On Windows / Linux replace '' @ cmd_key @ '' with Ctrl.'')),
      (''Panel Guide'', HelpPanels PANELS),
      (''File Previews'', HelpPreviews PREVIEWS),
      (''Tips'', HelpTips HELP_TIPS)]"

text \<open>A click on the overlay: only the backdrop itself and the two buttons close it.\<close>

datatype help_click = ClickBackdrop | ClickPanel | ClickX | ClickGotIt

fun help_onClick :: "help_click \<Rightarrow> ui_event list" where
  "help_onClick ClickBackdrop = [CloseHelp]"
| "help_onClick ClickPanel = []"
| "help_onClick ClickX = [CloseHelp]"
| "help_onClick ClickGotIt = [CloseHelp]"

section \<open>The time stamp is right\<close>

text \<open>The days before a year and before a month.\<close>

definition days_before :: "nat \<Rightarrow> nat" where
  "days_before y = (\<Sum>k \<in> {1970..<y}. year_days k)"

text \<open>Reading a date back.\<close>

fun seconds_of :: "nat list \<Rightarrow> nat" where
  "seconds_of [y, mo, d, h, mi, s] =
     (days_before y + sum_list (take (mo - 1) (month_days y)) + (d - 1)) * 86400 + h * 3600 + mi * 60 + s"
| "seconds_of _ = 0"

lemma civil_year_correct:
  "\<lbrakk>civil_year y d = (y', r); 1970 \<le> y\<rbrakk> \<Longrightarrow> y \<le> y' \<and> days_before y + d = days_before y' + r \<and> r < year_days y'"
proof (induction y d rule: civil_year.induct)
  case (1 y d)
  show ?case
  proof (cases "d < year_days y")
    case True
    with 1(2) show ?thesis by (simp add: civil_year.simps[of y d])
  next
    case False
    have "days_before (Suc y) = days_before y + year_days y" using 1(3) by (simp add: days_before_def)
    with False 1 show ?thesis by (fastforce simp: civil_year.simps[of y d])
  qed
qed

lemma civil_month_correct:
  "\<lbrakk>civil_month m ns d = (m', r); d < sum_list ns\<rbrakk> \<Longrightarrow>
     m \<le> m' \<and> m' - m < length ns \<and> d = sum_list (take (m' - m) ns) + r \<and> r < ns ! (m' - m)"
proof (induction m ns d rule: civil_month.induct)
  case (2 m n ns d)
  show ?case
  proof (cases "d < n")
    case True
    with 2(2) show ?thesis by simp
  next
    case False
    with 2 have "Suc m \<le> m' \<and> m' - Suc m < length ns \<and> d - n = sum_list (take (m' - Suc m) ns) + r \<and> r < ns ! (m' - Suc m)"
      by simp
    moreover from this have "m' - m = Suc (m' - Suc m)" by linarith
    ultimately show ?thesis using False by auto
  qed
qed simp

lemma sum_month_days: "sum_list (month_days y) = year_days y"
  by (simp add: month_days_def year_days_def)

text \<open>The time stamp of the panic screen is the time of the crash to the second: the date it is made of
  reads back as that second, and month, day, hour, minute and second are in range.\<close>

lemma panic_time_correct:
  "\<exists>y mo d h mi s. civil ms = [y, mo, d, h, mi, s] \<and> seconds_of (civil ms) = ms div 1000 \<and>
     1970 \<le> y \<and> 1 \<le> mo \<and> mo \<le> 12 \<and> 1 \<le> d \<and> d \<le> month_days y ! (mo - 1) \<and> h < 24 \<and> mi < 60 \<and> s < 60"
proof -
  let ?s = "ms div 1000"
  obtain y r where y: "civil_year 1970 (?s div 86400) = (y, r)" by fastforce
  obtain mo d where m: "civil_month 1 (month_days y) r = (mo, d)" by fastforce
  note cy = civil_year_correct[OF y order_refl]
  have "r < sum_list (month_days y)" using cy by (simp add: sum_month_days)
  note cm = civil_month_correct[OF m this]
  have "length (month_days y) = 12" by (simp add: month_days_def)
  then have "mo \<le> 12" using cm by linarith
  have c: "civil ms = [y, mo, d + 1, ?s mod 86400 div 3600, ?s mod 3600 div 60, ?s mod 60]"
    by (simp add: civil_def Let_def y m[simplified])
  have "days_before 1970 = 0" by (simp add: days_before_def)
  then have days: "days_before y + sum_list (take (mo - 1) (month_days y)) + d = ?s div 86400" using cy cm by simp
  have "?s mod 3600 = ?s mod 86400 mod 3600" "?s mod 60 = ?s mod 3600 mod 60" by (simp_all add: mod_mod_cancel)
  then have time: "?s mod 86400 div 3600 * 3600 + ?s mod 3600 div 60 * 60 + ?s mod 60 = ?s mod 86400" by simp
  have date: "days_before y + sum_list (take (mo - 1) (month_days y)) + (d + 1 - 1) = ?s div 86400" using days by simp
  have "seconds_of (civil ms) = (days_before y + sum_list (take (mo - 1) (month_days y)) + (d + 1 - 1)) * 86400
      + (?s mod 86400 div 3600 * 3600 + ?s mod 3600 div 60 * 60 + ?s mod 60)"
    unfolding c seconds_of.simps by (simp only: add.assoc)
  also have "\<dots> = ?s" unfolding date time by (rule div_mult_mod_eq)
  finally have "seconds_of (civil ms) = ?s" .
  then show ?thesis using c cy cm \<open>mo \<le> 12\<close> by (simp add: less_mult_imp_div_less Suc_le_eq)
qed

lemma panic_time_example: "panic_time 1709210096789 = ''2024-02-29 12:34:56''"
  by (simp add: panic_time_def toISOString_def civil_def civil_year.simps year_days_def leap_def month_days_def pad_def) code_simp

end
