(* ===== verification/Home.thy ===== *)
theory Home
  imports Workspace OrchStatus Overlay
begin

text \<open>
  The document: \<open>app/layout.tsx\<close>, \<open>app/page.tsx\<close>, \<open>ConsoleLoader.tsx\<close> and \<open>next.config.ts\<close>. The page has a
  bar with the health indicator, and below it the console, which is loaded on demand. The two keep
  their own state and have no way to each other.

  The only error boundary of the program is the one around the terminal. An exception of any other
  component while it renders is caught nowhere, and then React unmounts everything: the effects are
  cleaned up and nothing of the program is on display (Next shows a page of its own that says so). Three
  components may throw for what the sandboxed program or its supervisor sends: the previewers of JSON and WebAssembly
  files; the file tree, as the icon of a file is looked up by its extension in an object literal, and
  \<open>constructor\<close> and \<open>__proto__\<close> give what \<open>Object.prototype\<close> has under these names; and the summary of a session whose exit code
  is an object.
\<close>

section \<open>Definitions\<close>

record metadata =
  metaTitle :: string
  metaDescription :: string
  metaIcon :: string
  colorScheme :: string
  themeColor :: string

definition metadata :: metadata where
  "metadata = \<lparr>metaTitle = ''Isolator-V '' @ em_dash @ '' Execution Console'',
     metaDescription = ''WASM sandbox execution environment with real-time telemetry'',
     metaIcon = ''/favicon.svg'', colorScheme = ''dark light'', themeColor = ''#08080a''\<rparr>"

text \<open>The webpack hook: two experiments are switched on, all others stay as they are.\<close>

definition webpack_experiments :: "(string \<rightharpoonup> bool) \<Rightarrow> (string \<rightharpoonup> bool)" where
  "webpack_experiments experiments = experiments(''asyncWebAssembly'' \<mapsto> True, ''layers'' \<mapsto> True)"

text \<open>\<open>loaded\<close> is \<open>None\<close> until the chunk of \<open>ExecutionConsole\<close> has arrived; \<open>gone\<close> means unmounted by an
  exception.\<close>

record ('d, 'c) home =
  loaded :: "('d, 'c) workspace option"
  indicator :: orch
  gone :: bool

definition home_init :: "('d, 'c) home" where
  "home_init = \<lparr>loaded = None, indicator = orch_init, gone = False\<rparr>"

datatype 'c home_event =
    HLoaded
  | HConsole "'c workspace_event"
  | HHealth orch_event

text \<open>Whether the workspace throws when it is rendered: its previewer, its file tree, its welcome pane.\<close>

fun row_throws :: "Row \<Rightarrow> bool" where
  "row_throws (FileRow path indent sel icon name sz ghost) \<longleftrightarrow> icon = INotAnIcon"
| "row_throws (DirRow path indent isOpen name) \<longleftrightarrow> False"

fun tree_throws :: "TreeView \<Rightarrow> bool" where
  "tree_throws (TreeRows off rows) \<longleftrightarrow> list_ex row_throws rows"
| "tree_throws _ \<longleftrightarrow> False"

fun welcome_throws :: "MainPane \<Rightarrow> bool" where
  "welcome_throws (PaneWelcome (WpNonzero code)) \<longleftrightarrow> react_text code = None"
| "welcome_throws _ \<longleftrightarrow> False"

definition throws :: "(string \<Rightarrow> string \<Rightarrow> int) \<Rightarrow> ('d, 'c) workspace \<Rightarrow> bool" where
  "throws lc w \<longleftrightarrow> (case preview w of None \<Rightarrow> False | Some r \<Rightarrow> pane_throws (ComponentRegistry r)) \<or>
     tree_throws (VirtualFileTree lc (sessionId (console_of w)) (Some (inlineVfsEntries (console_of w))) (tree (core w))) \<or>
     welcome_throws (main_pane (console_of w))"

definition unmount_all :: "('d, 'c) home \<Rightarrow> ('d, 'c) home" where
  "unmount_all h = h\<lparr>loaded := None, indicator := orch_unmount (indicator h), gone := True\<rparr>"

text \<open>The chunk has arrived: the console is mounted.\<close>

definition load_console :: "('d, 'c) automerge \<Rightarrow> ('d, 'c) home \<Rightarrow> ('d, 'c) home" where
  "load_console am h = (if gone h \<or> loaded h \<noteq> None then h else h\<lparr>loaded := Some (workspace_init am)\<rparr>)"

declare load_console_def [simp]

definition loading_text :: string where
  "loading_text = ''Initialising sandbox runtime'' @ [CHR 0xE2, CHR 0x80, CHR 0xA6]"

fun home_step :: "(string \<Rightarrow> string \<Rightarrow> int) \<Rightarrow> ('d, 'c) automerge \<Rightarrow> Terminal.page \<Rightarrow> bool \<Rightarrow> ('d, 'c) home \<Rightarrow> 'c home_event \<Rightarrow> ('d, 'c) home" where
  "home_step lc am pg isMac h HLoaded = load_console am h"
| "home_step lc am pg isMac h (HConsole e) = (case loaded h of None \<Rightarrow> h
     | Some w \<Rightarrow>
         (let w' = ws_step am pg isMac w e in
          if throws lc w' then unmount_all h else h\<lparr>loaded := Some w'\<rparr>))"
| "home_step lc am pg isMac h (HHealth e) = (if gone h \<or> e = Unmount then h else h\<lparr>indicator := orch_step (indicator h) e\<rparr>)"

text \<open>The health indicator: the class of its dot, and the text of its tooltip, which is also its label.\<close>

definition OrchestratorStatus_view :: "orch \<Rightarrow> string \<times> string" where
  "OrchestratorStatus_view s = (dotClass s, tipText s)"

record home_view =
  hvTitle :: string
  hvVersion :: string
  hvHealth :: "string \<times> string"
  hvBody :: "string option"

text \<open>The bar, and the text in place of the console while it is being loaded.\<close>

definition home_view :: "('d, 'c) home \<Rightarrow> home_view option" where
  "home_view h = (if gone h then None else
     Some \<lparr>hvTitle = ''isolator-v / execution console'', hvVersion = ''v0.1.0-alpha'', hvHealth = OrchestratorStatus_view (indicator h),
       hvBody = (if loaded h = None then Some loading_text else None)\<rparr>)"

section \<open>The invariant\<close>

definition home_inv :: "(string \<Rightarrow> string \<Rightarrow> int) \<Rightarrow> ('d, 'c) home \<Rightarrow> bool" where
  "home_inv lc h \<longleftrightarrow> (gone h \<longrightarrow> loaded h = None \<and> orchTimer (indicator h) = None \<and> countdown (indicator h) = None) \<and>
     (\<forall>w. loaded h = Some w \<longrightarrow> ws_inv w \<and> \<not> throws lc w) \<and> orch_inv (indicator h)"

lemma workspace_init_quiet: "\<not> throws lc (workspace_init am)"
proof -
  have "console_of (workspace_init am) = console_init" by (simp add: workspace_init_def app_init_def sys_init_def)
  then show ?thesis
    by (simp add: throws_def VirtualFileTree_def) (simp add: workspace_init_def console_init_def main_pane_def welcome_pane_def)
qed

lemma home_inv_step: "home_inv lc h \<Longrightarrow> home_inv lc (home_step lc am pg isMac h e)"
proof (cases e)
  case HLoaded
  assume "home_inv lc h"
  with HLoaded show ?thesis by (simp add: home_inv_def ws_inv_init workspace_init_quiet)
next
  case (HConsole e')
  assume h: "home_inv lc h"
  have "orch_inv (orch_unmount (indicator h))" using orch_step_inv[of "indicator h" Unmount] h by (simp add: home_inv_def)
  with HConsole h show ?thesis
    by (auto simp: home_inv_def Let_def unmount_all_def ws_inv_step orch_unmount_def split: option.split)
next
  case (HHealth e')
  assume "home_inv lc h"
  with HHealth show ?thesis by (simp add: home_inv_def orch_step_inv)
qed

interpretation home_machine: started_machine "home_step lc am pg isMac" "home_inv lc" home_init for lc am pg isMac
  by unfold_locales (rule home_inv_step, assumption, simp add: home_inv_def home_init_def orch_init_inv)

lemma gone_stays: "gone h \<Longrightarrow> loaded h = None \<Longrightarrow> home_step lc am pg isMac h e = h"
  by (cases e) simp_all

lemma gone_stays_run: "gone h \<Longrightarrow> loaded h = None \<Longrightarrow> foldl (home_step lc am pg isMac) h es = h"
  by (induction es) (simp_all add: gone_stays del: home_step.simps)

section \<open>Properties\<close>

text \<open>C32: A file that the sandboxed program wrote can take down the whole page: if it is a JSON file on which
  the chart throws, for instance a timeseries without labels, then selecting it unmounts everything,
  the health indicator included; nothing of the program is on display any more, and no event brings it back.\<close>

theorem sandbox_file_breaks_page:
  assumes h: "loaded h = Some w"
    and snap: "map_of (inlineVfsSnapshot (console_of w)) path = Some (btoa bs)"
    and bytes: "bs \<noteq> []" "utf8_valid bs" "\<not> starts_with bom bs" "detectKind path = KJson" "path \<noteq> []" "ChartView bs = None"
    and h': "h' = home_step lc am pg isMac h (HConsole (WPage now (ATree (HandleSelect path))))"
  shows "home_view (foldl (home_step lc am pg isMac) h' es') = None \<and> loaded (foldl (home_step lc am pg isMac) h' es') = None \<and>
    orchTimer (indicator (foldl (home_step lc am pg isMac) h' es')) = None"
proof -
  let ?e = "WPage now (ATree (HandleSelect path))"
  have ext: "\<not> is_image_ext (file_ext path)" using bytes(4) by (auto simp: detectKind_def is_image_ext_def Let_def split: if_splits)
  obtain r where r: "preview (ws_step am pg isMac w ?e) = Some r" "ComponentRegistry r = ChartPane bs"
    using preview_of_selected[OF snap bytes(1-3) ext bytes(5), of am pg isMac now] bytes(4) by (auto simp: pane_for_def)
  then have "throws lc (ws_step am pg isMac w ?e)" using bytes(6) by (simp add: throws_def)
  then have h'_eq: "h' = unmount_all h" by (simp add: h' h Let_def)
  then have "gone h'" "loaded h' = None" "orchTimer (indicator h') = None"
    by (simp_all add: unmount_all_def orch_unmount_def)
  then show ?thesis by (simp add: gone_stays_run home_view_def del: home_step.simps)
qed

theorem sandbox_file_breaks_page_witness:
  "home_view (foldl (home_step (\<lambda>a b. 0) plain_doc demo_page True)
     (home_step (\<lambda>a b. 0) plain_doc demo_page True
       (home_init\<lparr>loaded := Some ((workspace_init plain_doc)\<lparr>core := (app_init plain_doc)\<lparr>sys := sys_init\<lparr>con := console_init
         \<lparr>inlineVfsSnapshot := [(''/a.json'', btoa (stringify (JObj [(''type'', JStr ''timeseries''), (''series'', JArr [JNull])])))]\<rparr>\<rparr>\<rparr>\<rparr>)\<rparr>)
       (HConsole (WPage 1 (ATree (HandleSelect ''/a.json'')))))
     [HLoaded, HHealth Tick]) = None"
proof -
  let ?fs = "[(''type'', JStr ''timeseries''), (''series'', JArr [JNull])]"
  let ?bs = "stringify (JObj ?fs)"
  let ?w = "(workspace_init plain_doc)\<lparr>core := (app_init plain_doc)
       \<lparr>sys := sys_init\<lparr>con := console_init\<lparr>inlineVfsSnapshot := [(''/a.json'', btoa ?bs)]\<rparr>\<rparr>\<rparr>\<rparr>"
  have j: "json_parse ?bs = Some (JObj ?fs)" by (rule json_parse_stringify) simp
  then have c: "ChartView ?bs = None"
    using conjunct2[OF chart_bad_input[of ?bs ?fs JNull "[]"]] by simp
  have b: "?bs \<noteq> []" "utf8_valid ?bs" "\<not> starts_with bom ?bs" "detectKind ''/a.json'' = KJson" "''/a.json'' \<noteq> ([] :: string)"
    by code_simp+
  have p: "map_of (inlineVfsSnapshot (console_of ?w)) ''/a.json'' = Some (btoa ?bs)" by simp
  have l: "loaded (home_init\<lparr>loaded := Some ?w\<rparr>) = Some ?w" by simp
  from sandbox_file_breaks_page[OF l p b(1-5) c refl, of "\<lambda>a b. 0" plain_doc demo_page True 1 "[HLoaded, HHealth Tick]"]
  show ?thesis by (rule conjunct1)
qed

text \<open>So can a file that is only named: if the snapshot of a session has a file at the root with the extension
  \<open>constructor\<close> or \<open>__proto__\<close> (the name alone will do), then the end of that session unmounts everything, as
  its row in the file tree has no icon.\<close>

lemma path_parts_root: "CHR ''/'' \<notin> set nm \<Longrightarrow> path_parts (''/'' @ nm) = [nm]"
  by (simp add: path_parts_def strip_slash_def split_on_free)

lemma named_row_throws:
  assumes "console_inv (console_of w)" "sessionId (console_of w) \<noteq> None" "(''/'' @ nm, b) \<in> set (inlineVfsSnapshot (console_of w))"
    and "CHR ''/'' \<notin> set nm" "file_ext nm \<in> set inherited_keys"
  shows "throws lc w"
proof -
  define c where "c = console_of w"
  have e: "inlineVfsEntries c = map snapshot_entry (inlineVfsSnapshot c)" and "\<exists>now. sessionId c = Some (new_session_id now)"
    using assms(1-3) by (auto simp: console_inv_def c_def)
  then obtain now where sid: "sessionId c = Some (new_session_id now)" by blast
  have ne: "inlineVfsEntries c \<noteq> []" using assms(3) e by (auto simp: c_def)
  define t where "t = tree (core w)"
  let ?rows = "TreeNodes 0 (stExpanded (tstate t)) (selectedRef t) (buildTree lc (inlineVfsEntries c))"
  have v: "VirtualFileTree lc (sessionId c) (Some (inlineVfsEntries c)) t = TreeRows (stOffline (tstate t)) ?rows"
    using buildTree_not_Nil[OF ne, of lc] ne by (cases "inlineVfsEntries c") (simp_all add: VirtualFileTree_def displayEntries_def sid Let_def)
  let ?e = "snapshot_entry (''/'' @ nm, b)"
  have p: "path_parts (entryPath ?e) = [nm]" using path_parts_root[OF assms(4)] by (simp add: snapshot_entry_def)
  have "?e \<in> set (inlineVfsEntries c)" using assms(3) e by (auto simp: c_def)
  then have "entry_row (selectedRef t) ?e \<in> set (file_rows ?rows)"
    using arg_cong[OF tree_file_rows, of set_mset] p by (auto simp: visible_def)
  then have "entry_row (selectedRef t) ?e \<in> set ?rows" by (simp add: file_rows_def)
  moreover have "FileIcon nm = INotAnIcon" using assms(5) by (auto simp: FileIcon_def inherited_keys_def EXT_ICONS_def)
  then have "row_throws (entry_row (selectedRef t) ?e)" using p by (simp add: entry_row_def file_row_def)
  ultimately have "tree_throws (VirtualFileTree lc (sessionId c) (Some (inlineVfsEntries c)) t)"
    by (auto simp: v list_ex_iff)
  then show ?thesis by (simp add: throws_def c_def t_def)
qed

theorem prototype_file_breaks_page:
  assumes h: "h = foldl (home_step lc am pg isMac) home_init es" "loaded h = Some w" "\<not> hasError (bnd (core w))"
    and sock: "sock_in (trm (sys (core w))) i [OPEN]" "\<not> hasTrapRef (trm (sys (core w)))"
    and frame: "json_parse t = Some msg" "jfield ''type'' msg = Some (JStr ''exit'')"
      "jfield ''trap'' msg = None" "jfield ''code'' msg = Some (JNum code)"
    and snap: "jfield ''vfs_snapshot'' msg = Some v" "snapshot_files v = Some fs" "(''/'' @ nm, b) \<in> set fs"
    and name: "CHR ''/'' \<notin> set nm" "file_ext nm \<in> set inherited_keys"
    and h': "h' = foldl (home_step lc am pg isMac) h
      [HConsole (WPage now (ASys (TE (SockMessage i (TextFrame t))))), HConsole (WPage now (ASys (TE (SockClosed i 1000 reason))))]"
  shows "home_view (foldl (home_step lc am pg isMac) h' es') = None"
proof -
  let ?e1 = "WPage now (ASys (TE (SockMessage i (TextFrame t))))" and ?e2 = "WPage now (ASys (TE (SockClosed i 1000 reason)))"
  define w1 where "w1 = ws_step am pg isMac w ?e1"
  define w2 where "w2 = ws_step am pg isMac w1 ?e2"
  have "home_inv lc h" unfolding h(1) by (rule home_machine.reachable_inv)
  then have inv: "ws_inv w" using h(2) by (simp add: home_inv_def)
  then have inv2: "ws_inv w2" by (simp add: w1_def w2_def ws_inv_step)
  have "fs \<noteq> []" using snap(3) by auto
  from exit_stores_snapshot[OF inv h(3) sock frame snap(1,2) this, of am pg isMac now reason]
  have c: "inlineVfsSnapshot (console_of w2) = fs" "sessionId (console_of w2) = sessionId (console_of w)"
    by (simp_all add: w1_def w2_def)
  have s: "sys_inv (sys (core w))" using inv h(3) by (rule sys_inv_up)
  then have "wsEffect (trm (sys (core w))) = Some i" using sock(1) by (auto simp: sys_inv_def term_inv_def sock_inv_def up_def sock_in_def)
  then have "sessionId (console_of w) \<noteq> None" using s by (auto simp: sys_inv_def linked_def console_inv_def split: if_splits)
  moreover have "console_inv (console_of w2)" using inv2 by (auto simp: ws_inv_def app_inv_def sys_ok_def sys_inv_def split: if_splits)
  ultimately have t: "throws lc w2" using c snap(3) name by (intro named_row_throws) simp_all
  have "gone h' \<and> loaded h' = None"
  proof (cases "throws lc w1")
    case True
    then have "home_step lc am pg isMac h (HConsole ?e1) = unmount_all h" using h(2) by (simp add: Let_def w1_def)
    then show ?thesis by (simp add: h' unmount_all_def)
  next
    case False
    then have "home_step lc am pg isMac h (HConsole ?e1) = h\<lparr>loaded := Some w1\<rparr>" using h(2) by (simp add: Let_def w1_def)
    then show ?thesis using t by (simp add: h' unmount_all_def Let_def w2_def)
  qed
  then show ?thesis by (simp add: gone_stays_run home_view_def del: home_step.simps)
qed

definition demo_proto :: json where
  "demo_proto = JObj [(''type'', JStr ''exit''), (''code'', JNum 0), (''vfs_snapshot'', JObj [(''/constructor'', JStr ''aGk='')])]"

lemma buildTree_Nil: "buildTree lc [] = []"
  by code_simp

lemma quiet_running:
  "\<lbrakk>preview w = None; inlineVfsEntries (console_of w) = []; stEntries (tstate (tree (core w))) = [];
    sandboxState (console_of w) = SRunning\<rbrakk> \<Longrightarrow> \<not> throws lc w"
  by (simp add: throws_def VirtualFileTree_def displayEntries_def Let_def main_pane_def welcome_pane_def buildTree_Nil split: option.split list.split)

lemma terminal_tab_no_preview:
  "activeTab (console_of (ws_step am pg isMac w (WPage now e))) = TabTerminal \<Longrightarrow> preview (ws_step am pg isMac w (WPage now e)) = None"
  by (simp add: ws_step_turn turn_def settle_def main_pane_def preview_on_def Let_def del: app_step.simps)

lemma demo_run_quiet:
  defines "w1 \<equiv> ws_step plain_doc demo_page True (workspace_init plain_doc) (WPage 1 (ASys (UI (ClickRun 1))))"
  shows "\<not> throws lc w1" "\<not> throws lc (ws_step plain_doc demo_page True w1 (WPage 1 (ASys (TE (SockOpened 0)))))"
proof -
  let ?w2 = "ws_step plain_doc demo_page True w1 (WPage 1 (ASys (TE (SockOpened 0))))"
  let ?s = "sys_step demo_page True sys_init (UI (ClickRun 1))"
  have e: "\<not> hasError (bnd (core (workspace_init plain_doc)))" "sys (core (workspace_init plain_doc)) = sys_init"
    "tree (core (workspace_init plain_doc)) = vft_init plain_doc"
    by (simp_all add: workspace_init_def app_init_def boundary_init_def)
  have idle: "sandboxState (con sys_init) \<noteq> SRunning" by (simp add: sys_init_def console_init_def)
  note c = sys_click_run[OF sys_inv_init idle, of demo_page True 1]
  have s1: "sys (core w1) = ?s" "bnd (core w1) = bnd (core (workspace_init plain_doc))"
    using e by (simp_all add: w1_def page_step(1) deliver_up del: sys_step.simps)
  have z: "length (sockets (trm sys_init)) = 0" by (simp add: sys_init_def terminal_init_def)
  have "0 < length (sockets (trm ?s))" "sockState (sockets (trm ?s) ! 0) = CONNECTING"
    "sockPayload (sockets (trm ?s) ! 0) = Some (terminal_wasm (con sys_init))"
    using c(5,7,9) unfolding z by simp_all
  note o = sys_socket_opened[OF this terminal_wasm_not_Nil, of demo_page True]
  have s2: "sys (core ?w2) = sys_step demo_page True ?s (TE (SockOpened 0))"
    using e s1 by (simp add: page_step(1) deliver_up del: sys_step.simps)
  have con: "console_of w1 = console_step True console_init (ClickRun 1)" unfolding s1 by (simp add: sync_def sys_init_def)
  obtain x xs where id: "new_session_id 1 = x # xs" by (simp add: new_session_id_def)
  have "tree (core w1) = session_effect plain_doc (Some (x # xs)) (vft_init plain_doc)"
    using e(3) con id c(2) e(1,2) unfolding w1_def by (simp add: page_step(1) deliver_up with_sys_def children_effects_def sys_init_def console_init_def del: sys_step.simps)
  then have t: "stEntries (tstate (tree (core w1))) = []" by (simp add: session_effect_def vft_init_def initial_tree_def)
  have "con (sys (core ?w2)) = console_of w1" using s2 o(1) s1 by simp
  moreover have "tree (core ?w2) = tree (core w1)"
    using s2 o(1) s1 e by (simp add: page_step(1) deliver_up with_sys_def children_effects_def del: sys_step.simps)
  moreover have r: "sandboxState (console_of w1) = SRunning" "inlineVfsEntries (console_of w1) = []"
    "activeTab (console_of w1) = TabTerminal"
    unfolding con by (simp_all add: console_step_def handler_defs vitals_shown_def console_init_def)
  moreover have "preview w1 = None" using r(3) unfolding w1_def by (rule terminal_tab_no_preview)
  moreover have "preview ?w2 = None" by (rule terminal_tab_no_preview) (use calculation in simp)
  ultimately show "\<not> throws lc w1" "\<not> throws lc ?w2" using t by (simp_all add: quiet_running)
qed

theorem prototype_file_breaks_page_witness:
  "home_view (foldl (home_step (\<lambda>a b. 0) plain_doc demo_page True)
     (foldl (home_step (\<lambda>a b. 0) plain_doc demo_page True)
       (foldl (home_step (\<lambda>a b. 0) plain_doc demo_page True) home_init
         [HLoaded, HConsole (WPage 1 (ASys (UI (ClickRun 1)))), HConsole (WPage 1 (ASys (TE (SockOpened 0))))])
       [HConsole (WPage 2 (ASys (TE (SockMessage 0 (TextFrame (stringify demo_proto)))))),
        HConsole (WPage 2 (ASys (TE (SockClosed 0 1000 []))))])
     [HHealth Tick]) = None"
proof -
  let ?f = "home_step (\<lambda>a b. 0) plain_doc demo_page True"
  let ?h = "foldl ?f home_init [HLoaded, HConsole (WPage 1 (ASys (UI (ClickRun 1)))), HConsole (WPage 1 (ASys (TE (SockOpened 0))))]"
  let ?w1 = "ws_step plain_doc demo_page True (workspace_init plain_doc) (WPage 1 (ASys (UI (ClickRun 1))))"
  note q = demo_run_quiet
  have l: "loaded ?h = Some (foldl (ws_step plain_doc demo_page True) (workspace_init plain_doc)
    [WPage 1 (ASys (UI (ClickRun 1))), WPage 1 (ASys (TE (SockOpened 0)))])"
    using q by (simp add: home_init_def Let_def)
  have j: "json_parse (stringify demo_proto) = Some demo_proto"
    by (rule json_parse_stringify) (simp add: demo_proto_def)
  have f: "jfield ''type'' demo_proto = Some (JStr ''exit'')" "jfield ''trap'' demo_proto = None"
    "jfield ''code'' demo_proto = Some (JNum 0)"
    "jfield ''vfs_snapshot'' demo_proto = Some (JObj [(''/constructor'', JStr ''aGk='')])"
    by (simp_all add: demo_proto_def)
  have s: "snapshot_files (JObj [(''/constructor'', JStr ''aGk='')]) = Some [(''/constructor'', ''aGk='')]"
    "(''/'' @ ''constructor'', ''aGk='') \<in> set [(''/constructor'', ''aGk='')]" "CHR ''/'' \<notin> set ''constructor''" by simp_all
  have n: "file_ext ''constructor'' \<in> set inherited_keys" by code_simp
  from prototype_file_breaks_page[OF refl l demo_session j f s n refl, of 2 "[]" "[HHealth Tick]"] show ?thesis .
qed

end
