(* ===== verification/Document.thy ===== *)
theory Document
  imports Home
begin

text \<open>
  The document with its theme: \<open>ThemeToggle.tsx\<close> in the toolbar of the console, the class of \<open><html>\<close>
  that \<open>app/layout.tsx\<close> sets before the first paint, and the terminal of \<open>Terminal.tsx\<close>, which reads the
  class when Xterm is made and then observes it. The three have nothing in common but that class.
\<close>

section \<open>Definitions\<close>

record ('d, 'c) document =
  home_of :: "('d, 'c) home"
  doc_theme :: theme_page

text \<open>The document as the server sends it, after the inline script; the button mounts with the console.\<close>

definition theme_init :: "string option \<Rightarrow> theme_page" where
  "theme_init stored = \<lparr>htmlClasses = anti_flash stored [''dark''], storedTheme = stored, theme = ''dark''\<rparr>"

definition document_init :: "string option \<Rightarrow> ('d, 'c) document" where
  "document_init stored = \<lparr>home_of = home_init, doc_theme = theme_init stored\<rparr>"

text \<open>The class the terminal reads is that of the document.\<close>

fun with_class :: "string list \<Rightarrow> 'c home_event \<Rightarrow> 'c home_event" where
  "with_class cls (HConsole (WPage now (ASys (TE (XtermLoaded c))))) = HConsole (WPage now (ASys (TE (XtermLoaded cls))))"
| "with_class cls (HConsole (WPage now (ASys (TE (HtmlClassChanged c))))) = HConsole (WPage now (ASys (TE (HtmlClassChanged cls))))"
| "with_class cls e = e"

text \<open>A click on the button, with whether the preference can be stored: the callback of the observer
  runs before any other event.\<close>

datatype 'c document_event =
    DHome "'c home_event"
  | DToggle nat bool

fun document_step ::
  "(string \<Rightarrow> string \<Rightarrow> int) \<Rightarrow> ('d, 'c) automerge \<Rightarrow> Terminal.page \<Rightarrow> bool \<Rightarrow> ('d, 'c) document \<Rightarrow> 'c document_event \<Rightarrow> ('d, 'c) document" where
  "document_step lc am pg isMac d (DHome e) =
     (let h = home_step lc am pg isMac (home_of d) (with_class (htmlClasses (doc_theme d)) e) in
      \<lparr>home_of = h,
       doc_theme = (if loaded (home_of d) = None \<and> loaded h \<noteq> None then toggle_mount (doc_theme d) else doc_theme d)\<rparr>)"
| "document_step lc am pg isMac d (DToggle now writable) =
     (if loaded (home_of d) = None then d
      else
        (let th = theme_toggle writable (doc_theme d) in
         \<lparr>home_of = home_step lc am pg isMac (home_of d) (HConsole (WPage now (ASys (TE (HtmlClassChanged (htmlClasses th)))))),
          doc_theme = th\<rparr>))"

section \<open>The palette\<close>

text \<open>The palette on display, and that of an Xterm that has been made but waits for its first fit.\<close>

definition palette_ok :: "string list \<Rightarrow> terminal \<Rightarrow> bool" where
  "palette_ok cls t \<longleftrightarrow> (xtermRef t \<longrightarrow> xtermTheme t = Some (getXtermTheme cls)) \<and>
     (\<forall>p \<in> set (xtermPending t). p = getXtermTheme cls)"

definition palette_of :: "terminal \<Rightarrow> bool \<times> ITheme list \<times> ITheme option" where
  "palette_of t = (xtermRef t, xtermPending t, xtermTheme t)"

lemma palette_ok_same: "\<lbrakk>palette_ok cls t; palette_of t' = palette_of t\<rbrakk> \<Longrightarrow> palette_ok cls t'"
  by (simp add: palette_ok_def palette_of_def)

lemma palette_basic [simp]:
  "palette_of (writeln l s) = palette_of s" "palette_of (write_chunks cs s) = palette_of s"
  "palette_of (request_frame s) = palette_of s" "palette_of (cancel_frame s) = palette_of s"
  "palette_of (sock_upd i f s) = palette_of s" "palette_of (sock_close i s) = palette_of s" "palette_of (on_end i oc s) = palette_of s"
  by (simp_all add: palette_of_def writeln_def write_chunks_def request_frame_def cancel_frame_def sock_upd_def sock_close_def
      on_end_def split: option.split)

lemma palette_fields [simp]:
  "palette_of (s\<lparr>bufferRef := b\<rparr>) = palette_of s" "palette_of (s\<lparr>pendingBytesRef := n\<rparr>) = palette_of s"
  "palette_of (s\<lparr>rafRef := r\<rparr>) = palette_of s" "palette_of (s\<lparr>frames := fs\<rparr>) = palette_of s"
  "palette_of (s\<lparr>wsRef := x\<rparr>) = palette_of s" "palette_of (s\<lparr>wsEffect := x\<rparr>) = palette_of s"
  "palette_of (s\<lparr>sockets := ws\<rparr>) = palette_of s" "palette_of (s\<lparr>intentionalCloseRef := y\<rparr>) = palette_of s"
  "palette_of (s\<lparr>vfsSnapshotRef := v\<rparr>) = palette_of s" "palette_of (s\<lparr>exitCodeRef := v\<rparr>) = palette_of s"
  "palette_of (s\<lparr>hasTrapRef := y\<rparr>) = palette_of s"
  by (simp_all add: palette_of_def)

lemma palette_buffer [simp]:
  "palette_of (enqueue d s) = palette_of s" "palette_of (flush_all s) = palette_of s" "palette_of (flushBuffer s) = palette_of s"
  by (simp_all add: enqueue_def flush_all_def flushBuffer_def Let_def)

lemma palette_handlers [simp]:
  "palette_of (animation_frame i s) = palette_of s" "palette_of (exit_frame m s) = palette_of s"
  "palette_of (ws_onmessage f s) = palette_of s" "palette_of (ws_onerror s) = palette_of s"
  "palette_of (ws_onclose i c r s) = palette_of s" "palette_of (ws_effect pg run sid w s) = palette_of s"
  "palette_of (ws_cleanup s) = palette_of s"
  by (simp_all add: animation_frame_def exit_frame_def ws_onmessage_def ws_onerror_def ws_onclose_def ws_effect_def
      ws_cleanup_def Let_def split: option.split json.split list.split ws_frame.split)

lemma palette_send: "sock_send i d s = Some s' \<Longrightarrow> palette_of s' = palette_of s"
  by (auto simp: sock_send_def split: readyState.splits)

lemma palette_open [simp]: "palette_of (ws_onopen i s) = palette_of s" "palette_of (key_typed d s) = palette_of s"
  by (auto simp: ws_onopen_def key_typed_def Let_def split: option.split list.split dest: palette_send)

text \<open>Events that read the class read that of the document.\<close>

fun reads :: "string list \<Rightarrow> term_event \<Rightarrow> bool" where
  "reads cls (XtermLoaded c) \<longleftrightarrow> c = cls"
| "reads cls (HtmlClassChanged c) \<longleftrightarrow> c = cls"
| "reads cls e \<longleftrightarrow> True"

lemma palette_term_step: "\<lbrakk>palette_ok cls t; reads cls e; e \<noteq> TermUnmount\<rbrakk> \<Longrightarrow> palette_ok cls (term_step pg t e)"
proof (cases e)
  case (XtermLoaded c)
  assume "palette_ok cls t" "reads cls e"
  with XtermLoaded show ?thesis by (auto simp: palette_ok_def xterm_loaded_def)
next
  case XtermFirstFit
  assume "palette_ok cls t"
  with XtermFirstFit show ?thesis by (auto simp: palette_ok_def xterm_first_fit_def writeln_def split: list.split)
next
  case (HtmlClassChanged c)
  assume "palette_ok cls t" "reads cls e"
  with HtmlClassChanged show ?thesis by (simp add: palette_ok_def theme_observer_def)
qed (auto elim!: palette_ok_same)

text \<open>The observer of a ready Xterm brings it to the new class.\<close>

lemma palette_observed: "xtermPending t = [] \<Longrightarrow> palette_ok cls (term_step pg t (HtmlClassChanged cls))"
  by (simp add: palette_ok_def theme_observer_def)


lemma palette_sync: "palette_ok cls t \<Longrightarrow> palette_ok cls (trm (sync pg old c t))"
  using palette_term_step[of cls t "props_event (terminal_props c)" pg]
  by (cases "terminal_props c") (simp add: sync_def del: term_step.simps)

fun sys_reads :: "string list \<Rightarrow> sys_event \<Rightarrow> bool" where
  "sys_reads cls (TE t) \<longleftrightarrow> reads cls t"
| "sys_reads cls (UI u) \<longleftrightarrow> True"

lemma palette_sys_step:
  assumes "sys_reads cls e" "palette_ok cls (trm s) \<or> (\<exists>now. e = TE (HtmlClassChanged cls) \<and> xtermPending (trm s) = [])"
  shows "palette_ok cls (trm (sys_step pg isMac s e))"
proof (cases e)
  case (UI u)
  then show ?thesis using assms by (auto intro: palette_sync)
next
  case (TE t)
  show ?thesis
  proof (cases "outside t")
    case True
    then have "palette_ok cls (term_step pg (trm s) t)"
      using assms TE palette_term_step[of cls "trm s" t pg] palette_observed[of "trm s" cls pg] by (auto simp: outside_def)
    with True TE show ?thesis by (simp add: Let_def palette_sync del: term_step.simps)
  next
    case False
    then have "t \<noteq> HtmlClassChanged cls" by (auto simp: outside_def)
    with False TE assms(2) show ?thesis by simp
  qed
qed

text \<open>On the page: behind the panic screen there is no palette.\<close>

definition app_palette :: "string list \<Rightarrow> ('d, 'c) app \<Rightarrow> bool" where
  "app_palette cls a \<longleftrightarrow> hasError (bnd a) \<or> palette_ok cls (trm (sys a))"

fun app_reads :: "string list \<Rightarrow> 'c app_event \<Rightarrow> bool" where
  "app_reads cls (ASys e) \<longleftrightarrow> sys_reads cls e"
| "app_reads cls e \<longleftrightarrow> True"

lemma palette_deliver:
  "\<lbrakk>sys_reads cls e; palette_ok cls (trm s)\<rbrakk> \<Longrightarrow> hasError b \<or> palette_ok cls (trm (deliver pg isMac b s e))"
  using palette_sys_step[of cls e s pg isMac] by (auto simp: deliver_def)

lemma palette_app_step:
  assumes "app_palette cls a" "app_reads cls e"
  shows "app_palette cls (app_step am pg isMac a (now, e))"
proof (cases e)
  case (ASys se)
  then show ?thesis using assms palette_deliver[of cls se "sys a" "bnd a" pg isMac]
    by (cases se) (auto simp: app_palette_def)
next
  case (ATree te)
  have "hasError (bnd a) \<or> palette_ok cls (trm (deliver pg isMac (bnd a) (sys a) (UI u)))" for u
    using assms(1) palette_deliver[of cls "UI u" "sys a" "bnd a" pg isMac] by (auto simp: app_palette_def)
  with ATree assms(1) show ?thesis by (cases te) (simp_all add: app_palette_def)
next
  case AReconnect
  then show ?thesis using assms(1) by (auto simp: app_palette_def reconnect_def palette_ok_def terminal_init_def)
qed (use assms(1) in \<open>simp_all add: app_palette_def boundary_catch_def\<close>)

lemma palette_app_run:
  "\<lbrakk>app_palette cls a; \<And>x. x \<in> set es \<Longrightarrow> app_reads cls (snd x)\<rbrakk> \<Longrightarrow> app_palette cls (foldl (app_step am pg isMac) a es)"
  by (rule foldl_keeps) (auto intro: palette_app_step simp del: app_step.simps)

definition home_palette :: "string list \<Rightarrow> ('d, 'c) home \<Rightarrow> bool" where
  "home_palette cls h \<longleftrightarrow> (\<forall>w. loaded h = Some w \<longrightarrow> app_palette cls (core w))"

lemma page_events_reads:
  assumes "with_class cls (HConsole e) = HConsole e'" "x \<in> set (page_events w e')"
  shows "app_reads cls (snd x)"
proof (cases e')
  case (WPage now ae)
  then have x: "x = (now, ae)" using assms(2) by (simp split: if_splits)
  show ?thesis
    using assms(1) unfolding WPage x by (cases "(cls, HConsole e)" rule: with_class.cases) auto
qed (use assms(2) in \<open>auto split: if_splits\<close>)

lemma palette_ws_step:
  "\<lbrakk>app_palette cls (core w); with_class cls (HConsole e) = HConsole e'\<rbrakk> \<Longrightarrow> app_palette cls (core (ws_step am pg isMac w e'))"
proof (cases "is_key e'")
  case True
  then obtain now k where e': "e' = WKey now k" by (cases e') simp_all
  assume "app_palette cls (core w)"
  then show ?thesis unfolding e'
    by (rule key_core) (auto intro!: palette_app_step simp: key_reaction_def simp del: app_step.simps)
next
  case False
  assume "app_palette cls (core w)" "with_class cls (HConsole e) = HConsole e'"
  then show ?thesis unfolding core_step[OF False] by (intro palette_app_run) (auto dest: page_events_reads)
qed


section \<open>The document\<close>

text \<open>In every state, the home page satisfies its invariant, and the mounted button shows the class of the
  document.\<close>

definition doc_inv :: "(string \<Rightarrow> string \<Rightarrow> int) \<Rightarrow> string option \<Rightarrow> ('d, 'c) document \<Rightarrow> bool" where
  "doc_inv lc stored d \<longleftrightarrow> home_inv lc (home_of d) \<and> (loaded (home_of d) \<noteq> None \<longrightarrow> theme_inv (doc_theme d)) \<and>
     (loaded (home_of d) = None \<and> \<not> gone (home_of d) \<longrightarrow> doc_theme d = theme_init stored)"

lemma mounted_theme:
  "stored \<in> {None, Some ''dark'', Some ''light''} \<Longrightarrow> theme_inv (toggle_mount (theme_init stored))"
  using load_page_inv[of stored] unfolding load_page_def theme_init_def by blast

text \<open>A home page that is neither loaded nor gone has been so before; it is loaded only if it is not gone.\<close>

lemma home_unloaded:
  assumes "loaded (home_step lc am pg isMac h e) = None" "\<not> gone (home_step lc am pg isMac h e)"
  shows "loaded h = None \<and> \<not> gone h"
proof (cases e)
  case (HConsole e')
  with assms show ?thesis by (cases "loaded h") (simp_all add: Let_def unmount_all_def split: if_splits)
qed (use assms in \<open>auto split: if_splits\<close>)

lemma home_loads: "\<lbrakk>loaded h = None; loaded (home_step lc am pg isMac h e) \<noteq> None\<rbrakk> \<Longrightarrow> \<not> gone h"
  by (cases e) (auto split: if_splits)

lemma doc_inv_step:
  assumes "stored \<in> {None, Some ''dark'', Some ''light''}" "doc_inv lc stored d"
  shows "doc_inv lc stored (document_step lc am pg isMac d e)"
proof (cases e)
  case (DHome he)
  let ?e = "with_class (htmlClasses (doc_theme d)) he"
  define h where "h = home_step lc am pg isMac (home_of d) ?e"
  have "home_inv lc h" using assms(2) unfolding h_def by (intro home_inv_step) (simp add: doc_inv_def)
  moreover have "loaded h = None \<Longrightarrow> \<not> gone h \<Longrightarrow> loaded (home_of d) = None \<and> \<not> gone (home_of d)"
    unfolding h_def by (rule home_unloaded)
  moreover have "loaded (home_of d) = None \<Longrightarrow> loaded h \<noteq> None \<Longrightarrow> \<not> gone (home_of d)"
    unfolding h_def by (rule home_loads)
  ultimately show ?thesis using assms(2) mounted_theme[OF assms(1)] unfolding DHome document_step.simps h_def[symmetric]
    by (cases "loaded h"; cases "loaded (home_of d)") (auto simp: doc_inv_def Let_def)
next
  case (DToggle now wr)
  show ?thesis
  proof (cases "loaded (home_of d)")
    case (Some w)
    let ?h = "home_step lc am pg isMac (home_of d) (HConsole (WPage now (ASys (TE (HtmlClassChanged
      (htmlClasses (theme_toggle wr (doc_theme d))))))))"
    have "home_inv lc ?h" using assms(2) by (intro home_inv_step) (simp add: doc_inv_def)
    moreover have "loaded ?h = None \<longrightarrow> gone ?h" using Some by (auto simp: Let_def unmount_all_def)
    ultimately show ?thesis using assms(2) theme_toggle_inv[of "doc_theme d" wr] Some
      by (auto simp: DToggle doc_inv_def Let_def simp del: home_step.simps)
  qed (use assms(2) DToggle in simp)
qed


lemma document_init_inv: "doc_inv lc stored (document_init stored)"
  by (simp add: doc_inv_def document_init_def home_inv_def home_init_def orch_init_inv)

interpretation document_machine:
  started_machine "document_step lc am pg isMac" "\<lambda>d. stored \<in> {None, Some ''dark'', Some ''light''} \<longrightarrow> doc_inv lc stored d"
    "document_init stored" for am pg isMac stored
  by unfold_locales (blast intro: doc_inv_step, simp add: document_init_inv)

text \<open>A click between the moment Xterm is made and its first fit is not seen by the terminal. \<open>toggles_ready\<close>
  says that a run has no such click.\<close>

definition toggle_ready :: "('d, 'c) document \<Rightarrow> bool" where
  "toggle_ready d \<longleftrightarrow> (case loaded (home_of d) of None \<Rightarrow> True
     | Some w \<Rightarrow> hasError (bnd (core w)) \<or> xtermPending (trm (sys (core w))) = [])"

fun toggles_ready ::
  "(string \<Rightarrow> string \<Rightarrow> int) \<Rightarrow> ('d, 'c) automerge \<Rightarrow> Terminal.page \<Rightarrow> bool \<Rightarrow> ('d, 'c) document \<Rightarrow> 'c document_event list \<Rightarrow> bool" where
  "toggles_ready lc am pg isMac d [] \<longleftrightarrow> True"
| "toggles_ready lc am pg isMac d (DToggle now wr # es) \<longleftrightarrow>
     toggle_ready d \<and> toggles_ready lc am pg isMac (document_step lc am pg isMac d (DToggle now wr)) es"
| "toggles_ready lc am pg isMac d (DHome e # es) \<longleftrightarrow> toggles_ready lc am pg isMac (document_step lc am pg isMac d (DHome e)) es"

definition doc_palette :: "('d, 'c) document \<Rightarrow> bool" where
  "doc_palette d \<longleftrightarrow> home_palette (htmlClasses (doc_theme d)) (home_of d)"

lemma with_class_idem: "with_class cls (with_class cls e) = with_class cls e"
  by (cases "(cls, e)" rule: with_class.cases) simp_all

lemma palette_home_step:
  assumes "home_palette cls h"
  shows "home_palette cls (home_step lc am pg isMac h (with_class cls e))"
proof (cases "with_class cls e")
  case HLoaded
  then show ?thesis using assms
    by (simp add: home_palette_def workspace_init_def app_init_def app_palette_def palette_ok_def sys_init_def terminal_init_def)
next
  case (HConsole e')
  then have "with_class cls (HConsole e') = HConsole e'" using with_class_idem[of cls e] by simp
  with HConsole assms palette_ws_step[of cls _ e' e' am pg isMac] show ?thesis
    by (auto simp: home_palette_def Let_def unmount_all_def split: option.split)
qed (use assms in \<open>simp add: home_palette_def\<close>)

lemma palette_toggle:
  assumes "toggle_ready d"
  shows "doc_palette (document_step lc am pg isMac d (DToggle now wr))"
proof (cases "loaded (home_of d)")
  case (Some w)
  let ?cls = "htmlClasses (theme_toggle wr (doc_theme d))"
  let ?e = "ASys (TE (HtmlClassChanged ?cls)) :: 'b app_event"
  have "app_palette ?cls (app_step am pg isMac (core w) (now, ?e))"
    using assms Some palette_sys_step[of ?cls "TE (HtmlClassChanged ?cls)" "sys (core w)" pg isMac]
    by (auto simp: app_palette_def toggle_ready_def deliver_def)
  then have "app_palette ?cls (core (ws_step am pg isMac w (WPage now ?e)))" by (simp add: core_step del: app_step.simps)
  then show ?thesis using Some by (simp add: doc_palette_def home_palette_def Let_def unmount_all_def)
qed (simp add: doc_palette_def home_palette_def)

lemma palette_document_run:
  "\<lbrakk>doc_palette d; toggles_ready lc am pg isMac d es\<rbrakk> \<Longrightarrow> doc_palette (foldl (document_step lc am pg isMac) d es)"
proof (induction es arbitrary: d)
  case (Cons e es)
  have "doc_palette (document_step lc am pg isMac d e)"
  proof (cases e)
    case (DHome he)
    then show ?thesis using Cons.prems(1) palette_home_step[of "htmlClasses (doc_theme d)" "home_of d" lc am pg isMac he]
      by (auto simp: doc_palette_def Let_def toggle_mount_def split: option.split list.split simp del: home_step.simps)
  next
    case (DToggle now wr)
    then show ?thesis using Cons.prems(2) by (auto intro: palette_toggle simp del: document_step.simps)
  qed
  moreover have "toggles_ready lc am pg isMac (document_step lc am pg isMac d e) es"
    using Cons.prems(2) by (cases e) (simp_all del: document_step.simps)
  ultimately show ?case using Cons.IH by (simp del: document_step.simps)
qed simp

text \<open>An event of the terminal that reports no end leaves the console alone, and so what the main pane shows.\<close>

lemma preview_on_same: "pane_inv w \<Longrightarrow> preview_on (main_pane (console_of w)) (preview w) = preview w"
  using reg_rerender_same[of "the (preview w)"]
  by (auto simp: pane_inv_def preview_on_def Let_def split: MainPane.splits option.splits)

lemma ws_quiet:
  assumes "ws_inv w" "\<not> hasError (bnd (core w))" "outside te"
    and "ended (term_step pg (trm (sys (core w))) te) = ended (trm (sys (core w)))"
    and w': "w' = ws_step am pg isMac w (WPage now (ASys (TE te)))"
  shows "sys (core w') = (sys (core w))\<lparr>trm := term_step pg (trm (sys (core w))) te\<rparr>" "bnd (core w') = bnd (core w)"
    "preview w' = preview w" "tree (core w') = tree (core w)"
proof -
  have s: "sys_step pg isMac (sys (core w)) (TE te) = (sys (core w))\<lparr>trm := term_step pg (trm (sys (core w))) te\<rparr>"
    by (rule sys_step_quiet) (rule assms(3,4))+
  then show "sys (core w') = (sys (core w))\<lparr>trm := term_step pg (trm (sys (core w))) te\<rparr>" "bnd (core w') = bnd (core w)"
    using assms(2) by (simp_all add: w' core_step deliver_def del: sys_step.simps)
  moreover have "preview w' = preview_on (main_pane (console_of w')) (preview w)"
    unfolding w' by (simp add: ws_step_turn turn_def settle_def Let_def del: app_step.simps)
  moreover show "tree (core w') = tree (core w)"
    using assms(2) s by (simp add: w' core_step deliver_def with_sys_def children_effects_def del: sys_step.simps)
  ultimately show "preview w' = preview w" using preview_on_same[of w] assms(1) by (simp add: ws_inv_def)
qed

lemma home_quiet:
  assumes "home_inv lc h" "loaded h = Some w" "\<not> hasError (bnd (core w))" "outside te"
    and "ended (term_step pg (trm (sys (core w))) te) = ended (trm (sys (core w)))"
  shows "\<exists>w'. loaded (home_step lc am pg isMac h (HConsole (WPage now (ASys (TE te))))) = Some w' \<and>
    \<not> hasError (bnd (core w')) \<and> trm (sys (core w')) = term_step pg (trm (sys (core w))) te"
proof -
  let ?w = "ws_step am pg isMac w (WPage now (ASys (TE te)))"
  have w: "ws_inv w" "\<not> throws lc w" using assms(1,2) by (auto simp: home_inv_def)
  note q = ws_quiet[OF w(1) assms(3-5) refl, of am isMac now]
  have "\<not> throws lc ?w" using w(2) q(1,3,4) by (simp add: throws_def)
  then show ?thesis using assms(2,3) q by (simp add: Let_def)
qed

text \<open>The same for a step of the document.\<close>

lemma document_quiet:
  fixes d :: "('d, 'c) document"
  assumes "home_inv lc (home_of d)" "loaded (home_of d) = Some w" "\<not> hasError (bnd (core w))" "outside te'"
    and "with_class (htmlClasses (doc_theme d)) (HConsole (WPage now (ASys (TE te))) :: 'c home_event) = HConsole (WPage now (ASys (TE te')))"
    and "ended (term_step pg (trm (sys (core w))) te') = ended (trm (sys (core w)))"
    and d': "d' = document_step lc am pg isMac d (DHome (HConsole (WPage now (ASys (TE te)))))"
  shows "home_inv lc (home_of d') \<and> doc_theme d' = doc_theme d \<and>
    (\<exists>w'. loaded (home_of d') = Some w' \<and> \<not> hasError (bnd (core w')) \<and> trm (sys (core w')) = term_step pg (trm (sys (core w))) te')"
  using home_quiet[OF assms(1-4,6), of am isMac now] assms(1,2,5) unfolding d' document_step.simps
  by (simp add: Let_def home_inv_step del: home_step.simps term_step.simps)

lemma document_toggle:
  assumes "home_inv lc (home_of d)" "loaded (home_of d) = Some w" "\<not> hasError (bnd (core w))"
    and d': "d' = document_step lc am pg isMac d (DToggle now wr)"
  shows "home_inv lc (home_of d') \<and> doc_theme d' = theme_toggle wr (doc_theme d) \<and>
    (\<exists>w'. loaded (home_of d') = Some w' \<and> \<not> hasError (bnd (core w')) \<and>
      trm (sys (core w')) = theme_observer (htmlClasses (theme_toggle wr (doc_theme d))) (trm (sys (core w))))"
  using home_quiet[OF assms(1-3), of "HtmlClassChanged (htmlClasses (theme_toggle wr (doc_theme d)))" pg am isMac now] assms(1,2)
  unfolding d' document_step.simps
  by (simp add: Let_def home_inv_step outside_def theme_observer_def del: home_step.simps)

text \<open>Xterm is loaded and fitted.\<close>

lemma document_xterm:
  assumes "home_inv lc (home_of d)" "loaded (home_of d) = Some w" "\<not> hasError (bnd (core w))"
    and "\<not> initDisposed (trm (sys (core w)))" "xtermPending (trm (sys (core w))) = []"
    and d': "d' = document_step lc am pg isMac d (DHome (HConsole (WPage now (ASys (TE (XtermLoaded cls))))))"
  shows "home_inv lc (home_of d') \<and> doc_theme d' = doc_theme d \<and>
    (\<exists>w'. loaded (home_of d') = Some w' \<and> \<not> hasError (bnd (core w')) \<and>
      trm (sys (core w')) = trm (sys (core w))\<lparr>xtermPending := [getXtermTheme (htmlClasses (doc_theme d))]\<rparr>)"
  using document_quiet[OF assms(1-3) _ _ _ d', of "XtermLoaded (htmlClasses (doc_theme d))"] assms(4,5)
  by (simp add: outside_def xterm_loaded_def)

lemma document_fit:
  assumes "home_inv lc (home_of d)" "loaded (home_of d) = Some w" "\<not> hasError (bnd (core w))" "xtermPending (trm (sys (core w))) = [p]"
    and d': "d' = document_step lc am pg isMac d (DHome (HConsole (WPage now (ASys (TE XtermFirstFit)))))"
  shows "home_inv lc (home_of d') \<and> doc_theme d' = doc_theme d \<and>
    (\<exists>w'. loaded (home_of d') = Some w' \<and> \<not> hasError (bnd (core w')) \<and> xtermRef (trm (sys (core w'))) \<and>
      xtermTheme (trm (sys (core w'))) = Some p \<and> xtermPending (trm (sys (core w'))) = [])"
  using document_quiet[OF assms(1-3) _ _ _ d', of XtermFirstFit] assms(4)
  by (auto simp: outside_def xterm_first_fit_def writeln_def)

text \<open>The document up to the first fit of Xterm.\<close>

definition document_start :: "'c document_event list" where
  "document_start = [DHome HLoaded, DHome (HConsole (WPage 0 (ASys (TE (XtermLoaded []))))),
     DHome (HConsole (WPage 0 (ASys (TE XtermFirstFit))))]"

lemma document_started:
  assumes "stored \<in> {None, Some ''dark'', Some ''light''}"
    and d: "d = foldl (document_step lc am pg isMac) (document_init stored) document_start"
  shows "\<exists>w. loaded (home_of d) = Some w \<and> \<not> hasError (bnd (core w)) \<and> xtermRef (trm (sys (core w))) \<and>
    xtermPending (trm (sys (core w))) = [] \<and> home_inv lc (home_of d) \<and> doc_theme d = load_page stored"
proof -
  let ?f = "document_step lc am pg isMac"
  define d0 where "d0 = ?f (document_init stored) (DHome HLoaded)"
  define d1 where "d1 = ?f d0 (DHome (HConsole (WPage 0 (ASys (TE (XtermLoaded []))))))"
  have d_eq: "d = ?f d1 (DHome (HConsole (WPage 0 (ASys (TE XtermFirstFit)))))" by (simp add: d document_start_def d1_def d0_def)
  have "doc_inv lc stored d0" unfolding d0_def by (rule doc_inv_step[OF assms(1) document_init_inv])
  then have inv: "home_inv lc (home_of d0)" by (simp add: doc_inv_def)
  have d0: "loaded (home_of d0) = Some (workspace_init am)" "doc_theme d0 = load_page stored"
    by (simp_all add: d0_def document_init_def home_init_def load_page_def theme_init_def Let_def)
  have w0: "\<not> hasError (bnd (core (workspace_init am)))" "trm (sys (core (workspace_init am))) = terminal_init"
    by (simp_all add: workspace_init_def app_init_def boundary_init_def sys_init_def)
  obtain w1 where w1: "home_inv lc (home_of d1)" "doc_theme d1 = doc_theme d0" "loaded (home_of d1) = Some w1"
    "\<not> hasError (bnd (core w1))" "xtermPending (trm (sys (core w1))) = [getXtermTheme (htmlClasses (doc_theme d0))]"
    using document_xterm[OF inv d0(1) w0(1) _ _ d1_def] unfolding w0(2) by (auto simp: terminal_init_def)
  from document_fit[OF w1(1,3,4,5) d_eq] d0(2) w1(2) show ?thesis by auto
qed

section \<open>Properties\<close>

text \<open>C16: Theme, document and terminal agree: with no or a valid stored preference, in every reachable state of
  the document in which the console is loaded, \<open><html>\<close> has the class the button shows as current, and
  a terminal on display has the palette of that theme, however toggles, crashes, reconnections and
  sessions follow each other; except that the toggle must not be clicked while Xterm waits for its
  first fit.\<close>

theorem palette_follows_theme:
  assumes stored: "stored \<in> {None, Some ''dark'', Some ''light''}"
    and ready: "toggles_ready lc am pg isMac (document_init stored) es"
    and d: "d = foldl (document_step lc am pg isMac) (document_init stored) es" "loaded (home_of d) = Some w"
  shows "htmlClasses (doc_theme d) = [theme (doc_theme d)] \<and>
    (\<not> hasError (bnd (core w)) \<and> xtermRef (trm (sys (core w))) \<longrightarrow>
       xtermTheme (trm (sys (core w))) = Some (if theme (doc_theme d) = ''light'' then XTERM_LIGHT else XTERM_DARK))"
proof -
  have "doc_inv lc stored d" using document_machine.reachable_inv stored d(1) by blast
  then have th: "theme_inv (doc_theme d)" using d(2) by (simp add: doc_inv_def)
  have "doc_palette (document_init stored :: ('a, 'b) document)"
    by (simp add: doc_palette_def home_palette_def document_init_def home_init_def)
  from palette_document_run[OF this ready] have "doc_palette d" by (simp add: d(1))
  then show ?thesis using th d(2)
    by (auto simp: theme_inv_def doc_palette_def home_palette_def app_palette_def palette_ok_def getXtermTheme_def)
qed


theorem palette_follows_theme_witness:
  "\<exists>w. loaded (home_of (foldl (document_step (\<lambda>a b. 0) plain_doc demo_page True) (document_init (Some ''light''))
     (document_start @ [DToggle 1 True]))) = Some w \<and> xtermTheme (trm (sys (core w))) = Some XTERM_DARK"
proof -
  let ?run = "foldl (document_step (\<lambda>a b. 0) plain_doc demo_page True) (document_init (Some ''light''))"
  let ?d = "?run document_start"
  obtain w where w: "loaded (home_of ?d) = Some w" "\<not> hasError (bnd (core w))" "xtermRef (trm (sys (core w)))"
    "xtermPending (trm (sys (core w))) = []" "home_inv (\<lambda>a b. 0) (home_of ?d)" "doc_theme ?d = load_page (Some ''light'')"
    using document_started[of "Some ''light''", OF _ refl, of "\<lambda>a b. 0" plain_doc demo_page True] by auto
  have r: "toggles_ready (\<lambda>a b. 0) plain_doc demo_page True (document_init (Some ''light'')) (document_start @ [DToggle 1 True])"
    using w by (simp add: document_start_def toggle_ready_def)
  have th: "theme (doc_theme ?d) = ''light''" using w(6) by (simp add: load_page_inv)
  have d': "?run (document_start @ [DToggle 1 True]) = document_step (\<lambda>a b. 0) plain_doc demo_page True ?d (DToggle 1 True)" by simp
  obtain w' where w': "loaded (home_of (?run (document_start @ [DToggle 1 True]))) = Some w'" "\<not> hasError (bnd (core w'))"
    "xtermRef (trm (sys (core w')))" "doc_theme (?run (document_start @ [DToggle 1 True])) = theme_toggle True (doc_theme ?d)"
    using document_toggle[OF w(5,1,2) d'] w(3) by (auto simp: theme_observer_def)
  then have "theme (doc_theme (?run (document_start @ [DToggle 1 True]))) = ''dark''"
    using th by (simp add: theme_toggle_def Let_def)
  with palette_follows_theme[OF _ r refl w'(1)] w' show ?thesis by auto
qed

text \<open>A click on the toggle while Xterm waits for its first fit leaves the terminal with the wrong palette:
  it was given the theme of the moment it was made, the observer does not know it yet, and the first fit
  does not look at the class again. The document then shows one theme and the terminal the other.\<close>

theorem early_toggle_leaves_stale_palette:
  assumes d: "d = foldl (document_step lc am pg isMac) (document_init stored) es" "loaded (home_of d) = Some w"
    and stored: "stored \<in> {None, Some ''dark'', Some ''light''}"
    and t: "\<not> hasError (bnd (core w))" "\<not> initDisposed (trm (sys (core w)))" "\<not> xtermRef (trm (sys (core w)))"
      "xtermPending (trm (sys (core w))) = []"
    and d': "d' = foldl (document_step lc am pg isMac) d
      [DHome (HConsole (WPage ta (ASys (TE (XtermLoaded cls))))), DToggle tb wr, DHome (HConsole (WPage tc (ASys (TE XtermFirstFit))))]"
  shows "\<exists>w'. loaded (home_of d') = Some w' \<and> xtermRef (trm (sys (core w'))) \<and>
    xtermTheme (trm (sys (core w'))) = Some (getXtermTheme (htmlClasses (doc_theme d))) \<and>
    getXtermTheme (htmlClasses (doc_theme d)) \<noteq> getXtermTheme (htmlClasses (doc_theme d'))"
proof -
  have inv: "doc_inv lc stored d" using document_machine.reachable_inv stored d(1) by blast
  let ?f = "document_step lc am pg isMac" and ?t = "trm (sys (core w))"
  let ?p = "getXtermTheme (htmlClasses (doc_theme d))"
  let ?th = "theme_toggle wr (doc_theme d)"
  define d1 where "d1 = ?f d (DHome (HConsole (WPage ta (ASys (TE (XtermLoaded cls))))))"
  define d2 where "d2 = ?f d1 (DToggle tb wr)"
  have d'_eq: "d' = ?f d2 (DHome (HConsole (WPage tc (ASys (TE XtermFirstFit)))))" by (simp add: d' d1_def d2_def)
  have h: "home_inv lc (home_of d)" using inv by (simp add: doc_inv_def)
  obtain w1 where w1: "home_inv lc (home_of d1)" "doc_theme d1 = doc_theme d" "loaded (home_of d1) = Some w1"
    "\<not> hasError (bnd (core w1))" "trm (sys (core w1)) = ?t\<lparr>xtermPending := [?p]\<rparr>"
    using document_xterm[OF h d(2) t(1,2,4) d1_def] by auto
  obtain w2 where w2: "home_inv lc (home_of d2)" "doc_theme d2 = ?th" "loaded (home_of d2) = Some w2"
    "\<not> hasError (bnd (core w2))" "xtermPending (trm (sys (core w2))) = [?p]"
    using document_toggle[OF w1(1,3,4) d2_def] w1(2,5) t(3) by (auto simp: theme_observer_def)
  obtain w3 where w3: "loaded (home_of d') = Some w3" "xtermRef (trm (sys (core w3)))"
    "xtermTheme (trm (sys (core w3))) = Some ?p" "doc_theme d' = ?th"
    using document_fit[OF w2(1,3,4,5) d'_eq] w2(2) by auto
  have th: "theme_inv (doc_theme d)" using inv d(2) by (simp add: doc_inv_def)
  have "XTERM_DARK \<noteq> XTERM_LIGHT" by (simp add: XTERM_DARK_def XTERM_LIGHT_def)
  then have "?p \<noteq> getXtermTheme (htmlClasses ?th)"
    using th by (auto simp: theme_inv_def theme_toggle_def class_toggle_def getXtermTheme_def Let_def)
  with w3 show ?thesis by auto
qed


theorem early_toggle_leaves_stale_palette_witness:
  "\<exists>w'. loaded (home_of (foldl (document_step (\<lambda>a b. 0) plain_doc demo_page True) (document_init None)
     [DHome HLoaded, DHome (HConsole (WPage 1 (ASys (TE (XtermLoaded []))))), DToggle 2 True,
      DHome (HConsole (WPage 3 (ASys (TE XtermFirstFit))))])) = Some w' \<and> xtermTheme (trm (sys (core w'))) = Some XTERM_DARK"
proof -
  let ?d = "foldl (document_step (\<lambda>a b. 0) plain_doc demo_page True) (document_init None) [DHome HLoaded]"
  have d: "loaded (home_of ?d) = Some (workspace_init plain_doc)" "htmlClasses (doc_theme ?d) = [''dark'']"
    by (simp_all add: document_init_def home_init_def theme_init_def toggle_mount_def anti_flash_def Let_def)
  have t: "\<not> hasError (bnd (core (workspace_init plain_doc)))" "trm (sys (core (workspace_init plain_doc))) = terminal_init"
    by (simp_all add: workspace_init_def app_init_def boundary_init_def sys_init_def)
  show ?thesis
    using early_toggle_leaves_stale_palette[where ta = 1 and cls = "[]" and tb = 2 and wr = True and tc = 3,
        OF refl d(1) _ t(1) _ _ _ refl] d(2)
    unfolding t(2) by (auto simp: terminal_init_def getXtermTheme_def simp del: document_step.simps)
qed

end
