(* ===== verification/ConsoleView.thy ===== *)
theory ConsoleView
  imports Console
begin

text \<open>
  What \<open>ExecutionConsole.tsx\<close> displays around its children: the toolbar, the tab bar, the headers of the
  panes and the texts of the welcome pane. Icons and styling are left out.
\<close>

section \<open>Toolbar\<close>

definition MOD :: "bool \<Rightarrow> string" where
  "MOD isMac = (if isMac then [CHR 0xE2, CHR 0x8C, CHR 0x98] else ''Ctrl'')"

record toolbar_button =
  tbLabel :: string
  tbTooltip :: string
  tbShortcut :: string
  tbDisabled :: bool
  tbTitle :: "string option"
  tbAction :: "nat \<Rightarrow> ui_event"

text \<open>\<open>ToolbarButton\<close>: the reason is the title of a disabled button.\<close>

definition ToolbarButton :: "string \<Rightarrow> string \<Rightarrow> string \<Rightarrow> bool \<Rightarrow> string option \<Rightarrow> (nat \<Rightarrow> ui_event) \<Rightarrow> toolbar_button" where
  "ToolbarButton label tip shortcut dis reason act =
     \<lparr>tbLabel = label, tbTooltip = tip, tbShortcut = shortcut, tbDisabled = dis,
      tbTitle = (if dis then reason else None), tbAction = act\<rparr>"

definition toolbar :: "bool \<Rightarrow> console \<Rightarrow> toolbar_button list" where
  "toolbar isMac s =
     [ToolbarButton ''Run'' ''Start sandbox session'' (MOD isMac @ [CHR 0xE2, CHR 0x86, CHR 0xB5])
        (sandboxState s = SRunning) (Some ''Session already running'') ClickRun,
      ToolbarButton ''Stop'' ''Stop the running session'' ''Esc''
        (sandboxState s \<noteq> SRunning) (Some ''No session is running'') (\<lambda>now. ClickStop),
      ToolbarButton ''Reset'' (''Reset '' @ em_dash @ '' clear session and terminal'')
        (MOD isMac @ [CHR 0xE2, CHR 0x87, CHR 0xA7, CHR ''R'']) False None (\<lambda>now. ClickReset)]"

text \<open>The selectors: the input mode, and next to it the demo selector with its description, or the hint
  for the editor.\<close>

datatype program_selector = DemoSelector DemoKey string bool | EditorHint string

definition selector :: "bool \<Rightarrow> console \<Rightarrow> program_selector" where
  "selector isMac s = (case inputMode s of
       ModeDemo \<Rightarrow> DemoSelector (selectedDemo s) (demoDescription (DEMOS (selectedDemo s))) (sandboxState s = SRunning)
     | ModeEditor \<Rightarrow> EditorHint (''Write Rust code above the terminal '' @ em_dash @ '' '' @ MOD isMac
         @ [CHR 0xE2, CHR 0x86, CHR 0xB5] @ '' to compile & run''))"

text \<open>The session badge: its tooltip, its dot and the id; \<open>None\<close> is the text for no session.\<close>

definition session_badge :: "console \<Rightarrow> (string \<times> string \<times> string) option" where
  "session_badge s = (case sessionId s of
       Some (c # cs) \<Rightarrow> Some (session_tooltip s, session_dot (sandboxState s), c # cs)
     | _ \<Rightarrow> None)"

section \<open>Headers and tabs\<close>

definition files_hint :: "console \<Rightarrow> string" where
  "files_hint s = (case sessionId s of Some (c # cs) \<Rightarrow> ''Click a file to preview'' | _ \<Rightarrow> ''Start a session to see files'')"

definition terminal_hint :: "console \<Rightarrow> string option" where
  "terminal_hint s = (case sandboxState s of
       SIdle \<Rightarrow> Some ''Terminal connects when you start a session''
     | SRunning \<Rightarrow> Some (''Type to send stdin '' @ em_dash @ '' output streams here'')
     | _ \<Rightarrow> None)"

definition live_badge :: "console \<Rightarrow> bool" where
  "live_badge s \<longleftrightarrow> sandboxState s = SRunning"

record tab_view =
  tvLabel :: string
  tvTooltip :: string
  tvActive :: bool

definition tab_bar :: "console \<Rightarrow> tab_view list" where
  "tab_bar s =
     \<lparr>tvLabel = ''Console'', tvTooltip = ''Console view'', tvActive = (activeTab s = TabTerminal)\<rparr> #
     (case previewFile s of
        Some (c # cs) \<Rightarrow> [\<lparr>tvLabel = after_last (CHR ''/'') (c # cs), tvTooltip = ''Preview: '' @ (c # cs),
                          tvActive = (activeTab s = TabPreview)\<rparr>]
      | _ \<Rightarrow> [])"

section \<open>Welcome pane\<close>

record pane_text =
  ptTitle :: string
  ptText :: string
  ptButtons :: "(string \<times> string \<times> ui_event) list"

definition idle_buttons :: "string \<Rightarrow> nat \<Rightarrow> (string \<times> string \<times> ui_event) list" where
  "idle_buttons md now =
     [(''Start Sandbox'', md @ [CHR 0xE2, CHR 0x86, CHR 0xB5], ClickRun now), (''How it works'', ''?'', ClickHelp)]"

text \<open>The summary panes, and for the idle pane the tagline; \<open>now\<close> is the time of a click. The exit code
  is printed as React prints a child; if it cannot, it throws (\<open>Home\<close>).\<close>

definition welcome_text :: "string \<Rightarrow> nat \<Rightarrow> WelcomePane \<Rightarrow> pane_text" where
  "welcome_text md now p =
     (let enter = md @ [CHR 0xE2, CHR 0x86, CHR 0xB5]; again = (''Run Again'', enter, ClickRun now) in
      case p of
        WpComplete \<Rightarrow> \<lparr>ptTitle = ''Execution complete'',
          ptText = ''Terminal output is shown in the console above. Output files, if any, appear in the left panel.'',
          ptButtons = [again]\<rparr>
      | WpNonzero code \<Rightarrow> \<lparr>ptTitle = ''Exited with code '' @ (case react_text code of None \<Rightarrow> [] | Some t \<Rightarrow> t),
          ptText = ''The process terminated with a non-zero exit code. See terminal output above for details.'',
          ptButtons = [again]\<rparr>
      | WpCrashed \<Rightarrow> \<lparr>ptTitle = ''Session crashed'',
          ptText = ''Click Reconnect in the terminal below, or reset and start over.'', ptButtons = []\<rparr>
      | WpRunning \<Rightarrow> \<lparr>ptTitle = [],
          ptText = ''Session running '' @ em_dash @ '' output streams to the terminal below'', ptButtons = []\<rparr>
      | WpIdle \<Rightarrow> \<lparr>ptTitle = ''Isolator'' @ [CHR 0xE2, CHR 0x80, CHR 0x91] @ ''V'',
          ptText = ''WebAssembly Execution Sandbox'',
          ptButtons = idle_buttons md now\<rparr>)"

definition welcome_steps :: "(string \<times> string) list" where
  "welcome_steps = [(''Run'', ''Start a session''), (''Watch'', ''Live terminal output''), (''Inspect'', ''Preview output files'')]"

definition welcome_limits :: "(string \<times> string) list" where
  "welcome_limits = [(''Memory'', ''50 MB''), (''Timeout'', ''30 s''), (''Transport'', ''HTTP'')]"

section \<open>Properties\<close>

text \<open>The controls tell the truth: Run and Stop are disabled exactly when clicking them would not change
  the state of the session, a button of the welcome pane opens the help or starts a session, and the
  preview tab is there exactly when it can be activated.\<close>

theorem controls_match_effects:
  "(\<forall>b \<in> set (take 2 (toolbar isMac s)). tbDisabled b \<longleftrightarrow>
      sandboxState (console_handle isMac s (tbAction b now)) = sandboxState s) \<and>
   (\<forall>(l, k, e) \<in> set (ptButtons (welcome_text md now (welcome_pane (sandboxState s) code))).
      e = ClickHelp \<or> sandboxState (console_handle isMac s e) = SRunning) \<and>
   (length (tab_bar s) = 2 \<longleftrightarrow> activeTab (console_handle isMac s (ClickTab TabPreview)) = TabPreview \<and>
      (\<exists>f. previewFile s = Some f \<and> f \<noteq> []))"
proof (intro conjI)
  show "\<forall>b \<in> set (take 2 (toolbar isMac s)). tbDisabled b \<longleftrightarrow>
      sandboxState (console_handle isMac s (tbAction b now)) = sandboxState s"
    by (cases "sandboxState s") (simp_all add: toolbar_def ToolbarButton_def handleRun_def handleStop_def numeral_2_eq_2)
  show "\<forall>(l, k, e) \<in> set (ptButtons (welcome_text md now (welcome_pane (sandboxState s) code))).
      e = ClickHelp \<or> sandboxState (console_handle isMac s e) = SRunning"
    by (cases "sandboxState s") (simp_all add: welcome_text_def idle_buttons_def welcome_pane_def handleRun_def Let_def)
  show "length (tab_bar s) = 2 \<longleftrightarrow> activeTab (console_handle isMac s (ClickTab TabPreview)) = TabPreview \<and>
      (\<exists>f. previewFile s = Some f \<and> f \<noteq> [])"
    by (auto simp: tab_bar_def split: option.split list.split)
qed

theorem controls_match_effects_witness:
  "tbDisabled (toolbar True console_init ! 1) \<and> \<not> tbDisabled (toolbar True console_init ! 0)"
proof -
  have len: "length (toolbar True console_init) = 3" by (simp add: toolbar_def)
  have "toolbar True console_init ! k \<in> set (take 2 (toolbar True console_init))" if "k < 2" for k
    using that nth_mem[of k "take 2 (toolbar True console_init)"] by (simp add: len)
  then have "tbDisabled (toolbar True console_init ! k) \<longleftrightarrow>
      sandboxState (console_handle True console_init (tbAction (toolbar True console_init ! k) 0)) = sandboxState console_init"
    if "k < 2" for k
    using that conjunct1[OF controls_match_effects[of True console_init 0 "[]" JNull]] by blast
  from this[of 0] this[of 1] show ?thesis
    by (simp add: toolbar_def ToolbarButton_def console_init_def handleRun_def)
qed

end
