(* ===== verification/VitalsView.thy ===== *)
theory VitalsView
  imports Vitals Chart
begin

text \<open>
  \<open>frontend/components/AgentVitals.tsx\<close>, what the HUD draws: the geometry of the sparkline, the progress
  bars and the texts of the two panels. Canvas and CSS calls are represented by the points and values
  they get. Memory figures are whole bytes.
\<close>

section \<open>Sparkline\<close>

text \<open>The line, and the outline that is filled under it; empty when nothing is drawn. \<open>w\<close> and \<open>h\<close> are the
  CSS size of the canvas.\<close>

definition spark_max :: "rat list \<Rightarrow> rat" where
  "spark_max samples = fold max samples 1"

definition spark_point :: "nat \<Rightarrow> nat \<Rightarrow> rat list \<Rightarrow> nat \<Rightarrow> rat \<times> rat" where
  "spark_point w h samples i =
     (of_nat i * (of_nat w / of_nat (length samples - 1)),
      of_nat h - (samples ! i / spark_max samples) * (of_nat h - 2) - 1)"

definition drawSparkline :: "nat \<Rightarrow> nat \<Rightarrow> rat list \<Rightarrow> (rat \<times> rat) list" where
  "drawSparkline w h samples =
     (if w = 0 \<or> h = 0 \<or> length samples < 2 then []
      else map (spark_point w h samples) [0..<length samples])"

definition spark_fill :: "nat \<Rightarrow> nat \<Rightarrow> rat list \<Rightarrow> (rat \<times> rat) list" where
  "spark_fill w h samples = (case drawSparkline w h samples of
       [] \<Rightarrow> []
     | ps \<Rightarrow> ps @ [(of_nat w, of_nat h), (0, of_nat h)])"

text \<open>The name of the CSS variable that is looked up, and the colour used when it has no value.\<close>

definition css_property :: "string \<Rightarrow> string" where
  "css_property color = (if starts_with ''var('' color then trim (slice_ends 4 1 color) else color)"

definition resolved_color :: "(string \<Rightarrow> string) \<Rightarrow> string \<Rightarrow> string" where
  "resolved_color style color =
     (let computed = trim (style (css_property color)) in if computed = [] then ''#6366f1'' else computed)"

section \<open>Panels\<close>

text \<open>\<open>Math.min(100, pct)\<close>\<close>

fun bar_width :: "jsnum \<Rightarrow> jsnum" where
  "bar_width (Fin x) = Fin (min 100 x)"
| "bar_width PosInf = Fin 100"
| "bar_width NegInf = NegInf"
| "bar_width NaN = NaN"

definition rat_toFixed1 :: "rat \<Rightarrow> string" where
  "rat_toFixed1 x = (case quotient_of x of (a, b) \<Rightarrow> toFixed1 (nat a) (nat b))"

fun js_toFixed0 :: "jsnum \<Rightarrow> string" where
  "js_toFixed0 (Fin x) = int_str \<lfloor>x + 1 / 2\<rfloor>"
| "js_toFixed0 PosInf = ''Infinity''"
| "js_toFixed0 NegInf = ''-Infinity''"
| "js_toFixed0 NaN = ''NaN''"

definition snap_mem :: "rat \<Rightarrow> string" where
  "snap_mem b = formatMem (nat \<lfloor>b\<rfloor>)"

definition snap_pct :: "VitalsSnapshot \<Rightarrow> jsnum" where
  "snap_pct s = mem_pct (memUsedBytes s) (memLimitBytes s)"

record full_panel =
  fpMemory :: "string \<times> string"
  fpMemColor :: string
  fpMemBar :: jsnum
  fpMemSeries :: "jsnum list"
  fpCpu :: string
  fpCpuColor :: string
  fpCpuBar :: jsnum
  fpCpuSeries :: "rat list"
  fpElapsed :: string

definition FullPanel :: "VitalsSnapshot list \<Rightarrow> VitalsSnapshot option \<Rightarrow> full_panel option" where
  "FullPanel snapshots latest = map_option (\<lambda>l.
     \<lparr>fpMemory = (snap_mem (memUsedBytes l), snap_mem (memLimitBytes l)),
      fpMemColor = memColor (memUsedBytes l) (memLimitBytes l), fpMemBar = bar_width (snap_pct l),
      fpMemSeries = map snap_pct snapshots,
      fpCpu = rat_toFixed1 (cpuPct l) @ ''%'', fpCpuColor = pctColor (Fin (cpuPct l)),
      fpCpuBar = bar_width (Fin (cpuPct l)), fpCpuSeries = map cpuPct snapshots,
      fpElapsed = formatWall (wallMs l)\<rparr>) latest"

record compact_pill =
  cpSeries :: "rat list"
  cpCpu :: string
  cpCpuColor :: string
  cpMem :: string
  cpMemColor :: string
  cpMemPct :: string

definition CompactPill :: "VitalsSnapshot list \<Rightarrow> VitalsSnapshot option \<Rightarrow> compact_pill option" where
  "CompactPill snapshots latest = map_option (\<lambda>l.
     \<lparr>cpSeries = map cpuPct snapshots, cpCpu = int_str \<lfloor>cpuPct l + 1 / 2\<rfloor> @ ''%'',
      cpCpuColor = pctColor (Fin (cpuPct l)), cpMem = snap_mem (memUsedBytes l),
      cpMemColor = memColor (memUsedBytes l) (memLimitBytes l), cpMemPct = js_toFixed0 (snap_pct l) @ ''%''\<rparr>) latest"

section \<open>Properties\<close>

lemma spark_max_ge: "1 \<le> spark_max xs" "v \<in> set xs \<Longrightarrow> v \<le> spark_max xs"
  by (simp_all add: spark_max_def fold_max_ge)

lemma spark_ratio:
  assumes "v \<in> set xs" "0 \<le> v"
  shows "0 \<le> v / spark_max xs" "v / spark_max xs \<le> 1"
proof -
  have "0 < spark_max xs" using spark_max_ge(1)[of xs] by linarith
  then show "0 \<le> v / spark_max xs" "v / spark_max xs \<le> 1"
    using assms spark_max_ge(2)[of v xs] by (simp_all add: divide_le_eq)
qed

text \<open>The sparkline stays on its canvas: for samples that are not negative on a canvas at least two
  pixels high, the points run from the left edge to the right edge in equal steps, and each lies at
  least one pixel from the top and from the bottom, a larger sample never below a smaller one.\<close>

theorem sparkline_on_canvas:
  assumes "0 < w" "2 \<le> h" "2 \<le> length samples" "\<forall>v \<in> set samples. 0 \<le> v"
  shows "length (drawSparkline w h samples) = length samples \<and>
    fst (hd (drawSparkline w h samples)) = 0 \<and> fst (last (drawSparkline w h samples)) = of_nat w \<and>
    (\<forall>(x, y) \<in> set (drawSparkline w h samples). 0 \<le> x \<and> x \<le> of_nat w \<and> 1 \<le> y \<and> y \<le> of_nat h - 1) \<and>
    (\<forall>i < length samples. \<forall>j < length samples. samples ! i \<le> samples ! j \<longrightarrow>
       snd (drawSparkline w h samples ! j) \<le> snd (drawSparkline w h samples ! i))"
proof -
  let ?n = "length samples" and ?m = "spark_max samples" and ?h = "of_nat h :: rat" and ?w = "of_nat w :: rat"
  have draw: "drawSparkline w h samples = map (spark_point w h samples) [0..<?n]"
    using assms by (simp add: drawSparkline_def)
  have h: "0 \<le> ?h - 2" using assms(2) by (metis of_nat_le_iff of_nat_numeral diff_ge_0_iff_ge)
  have n: "0 < (of_nat (?n - 1) :: rat)" using assms(3) by simp
  have m: "0 < ?m" using spark_max_ge(1)[of samples] by linarith
  have x: "0 \<le> fst (spark_point w h samples i) \<and> fst (spark_point w h samples i) \<le> ?w" if "i < ?n" for i
  proof -
    have "(of_nat i :: rat) \<le> of_nat (?n - 1)" using that by simp
    then have "of_nat i * ?w \<le> of_nat (?n - 1) * ?w" by (simp add: mult_right_mono)
    then show ?thesis using n by (simp add: spark_point_def divide_le_eq mult.commute)
  qed
  have y: "1 \<le> snd (spark_point w h samples i) \<and> snd (spark_point w h samples i) \<le> ?h - 1" if "i < ?n" for i
  proof -
    have v: "samples ! i \<in> set samples" "0 \<le> samples ! i" using that assms(4) by simp_all
    have "samples ! i / ?m * (?h - 2) \<le> 1 * (?h - 2)" by (rule mult_right_mono[OF spark_ratio(2)[OF v] h])
    moreover have "0 \<le> samples ! i / ?m * (?h - 2)" by (rule mult_nonneg_nonneg[OF spark_ratio(1)[OF v] h])
    ultimately show ?thesis by (simp add: spark_point_def)
  qed
  have "snd (spark_point w h samples j) \<le> snd (spark_point w h samples i)" if "samples ! i \<le> samples ! j" for i j
  proof -
    have "samples ! i / ?m \<le> samples ! j / ?m" using that m by (simp add: divide_right_mono)
    then have "samples ! i / ?m * (?h - 2) \<le> samples ! j / ?m * (?h - 2)" by (rule mult_right_mono[OF _ h])
    then show ?thesis by (simp add: spark_point_def)
  qed
  moreover have "fst (hd (drawSparkline w h samples)) = 0" "fst (last (drawSparkline w h samples)) = ?w"
  proof -
    have ne: "[0..<?n] \<noteq> []" and ends: "hd [0..<?n] = 0" "last [0..<?n] = ?n - 1"
      using assms(3) by (cases "length samples"; simp)+
    show "fst (hd (drawSparkline w h samples)) = 0" "fst (last (drawSparkline w h samples)) = ?w"
      unfolding draw hd_map[OF ne] last_map[OF ne] ends using n by (simp_all add: spark_point_def)
  qed
  moreover have "\<forall>(a, b) \<in> set (drawSparkline w h samples). 0 \<le> a \<and> a \<le> ?w \<and> 1 \<le> b \<and> b \<le> ?h - 1"
    unfolding draw using x y by (simp add: case_prod_beta)
  ultimately show ?thesis by (simp add: draw)
qed

theorem sparkline_on_canvas_witness:
  "length (drawSparkline 64 20 [0, 50, 100]) = 3 \<and> fst (last (drawSparkline 64 20 [0, 50, 100])) = of_nat 64"
  using sparkline_on_canvas[of 64 20 "[0, 50, 100]"] by simp

end
