(* ===== verification/Screen.thy ===== *)
theory Screen
  imports Document ConsoleView VitalsView
begin

text \<open>
  What is on display: the render function of \<open>ExecutionConsole.tsx\<close> with its children in place, that is
  toolbar, sidebar, main pane, terminal or panic screen, status bar and help overlay, each computed from
  the state its component has in \<open>Document\<close>. Resize handles, icons and styling are left out.
\<close>

section \<open>Small components\<close>

text \<open>The popup of \<open>Tooltip.tsx\<close>: its text, and the badge if the shortcut is not empty.\<close>

definition tip_popup :: "string \<Rightarrow> string option \<Rightarrow> tooltip \<Rightarrow> (string \<times> string option) option" where
  "tip_popup content shortcut s =
     (if tipVisible s then Some (content, if shortcut = Some [] then None else shortcut) else None)"

record sidebar_header =
  shTitle :: string
  shHint :: "string option"
  shRight :: "string option"

definition SidebarHeader :: "string \<Rightarrow> string option \<Rightarrow> string option \<Rightarrow> sidebar_header" where
  "SidebarHeader title hint right =
     \<lparr>shTitle = title,
      shHint = (case hint of Some (c # cs) \<Rightarrow> Some (em_dash @ '' '' @ c # cs) | _ \<Rightarrow> None), shRight = right\<rparr>"

text \<open>A button of the toolbar without a label: its tooltip, its shortcut and its label for screen readers.\<close>

record icon_button =
  ibTip :: string
  ibShortcut :: "string option"
  ibLabel :: string

definition theme_button :: "theme_page \<Rightarrow> icon_button" where
  "theme_button th = \<lparr>ibTip = ''Toggle light / dark mode'', ibShortcut = None, ibLabel = toggle_label th\<rparr>"

definition help_button :: icon_button where
  "help_button = \<lparr>ibTip = ''Help & keyboard shortcuts'', ibShortcut = Some ''?'', ibLabel = ''Open help''\<rparr>"

text \<open>The root of \<open>AgentVitals\<close>.\<close>

definition vitals_pill :: "vitals \<Rightarrow> compact_pill option" where
  "vitals_pill v = CompactPill (snapshotsRef v) (latestRef v)"

definition vitals_panel :: "vitals \<Rightarrow> full_panel option" where
  "vitals_panel v = FullPanel (snapshotsRef v) (latestRef v)"

text \<open>The render function of \<open>CodeEditor\<close>: title, badge, the two buttons, the text area and the two panels.\<close>

record editor_screen =
  esTitle :: string
  esBadge :: EditorBadge
  esResetTip :: string
  esCompile :: string
  esKbd :: string
  esDisabled :: bool
  esSource :: string
  esPlaceholder :: string
  esErrors :: "CompileError option"
  esWarnings :: "json option"

definition CodeEditor_screen :: "bool \<Rightarrow> bool \<Rightarrow> editor \<Rightarrow> editor_screen" where
  "CodeEditor_screen isMac running e =
     \<lparr>esTitle = ''Rust Editor'', esBadge = editor_badge e, esResetTip = ''Reset to starter code'',
      esCompile = ''Compile & Run'', esKbd = MOD isMac @ enter_key, esDisabled = compile_button_disabled running e,
      esSource = edSource e, esPlaceholder = ''Write your Rust program here'' @ [CHR 0xE2, CHR 0x80, CHR 0xA6],
      esErrors = error_panel e, esWarnings = warnings_panel e\<rparr>"

section \<open>The console\<close>

datatype main_view =
    ShowPreview screen_view
  | ShowEditor editor_screen
  | ShowWelcome pane_text

text \<open>The content of the main pane; the components are there by \<open>settle\<close>.\<close>

definition main_view :: "(string \<Rightarrow> string \<Rightarrow> int) \<Rightarrow> bool \<Rightarrow> nat \<Rightarrow> ('d, 'c) workspace \<Rightarrow> main_view option" where
  "main_view lc isMac now w = (case main_pane (console_of w) of
       PaneRegistry path sid content b64 \<Rightarrow> map_option ShowPreview (preview_display lc w)
     | PaneEditor running \<Rightarrow> map_option (\<lambda>e. ShowEditor (CodeEditor_screen isMac running e)) (edt w)
     | PaneWelcome p \<Rightarrow> Some (ShowWelcome (welcome_text (MOD isMac) now p)))"

text \<open>The terminal inside its boundary: what Xterm has been given and its palette, or the panic screen.\<close>

datatype terminal_view =
    ShowXterm "term_item list" "ITheme option"
  | ShowPanic panic_screen

definition terminal_view :: "nat \<Rightarrow> boundary \<Rightarrow> terminal \<Rightarrow> terminal_view" where
  "terminal_view now b t =
     (if hasError b then ShowPanic (panic_render now (caught b)) else ShowXterm (screen t) (xtermTheme t))"

text \<open>The text next to the only tab while there is no preview.\<close>

definition tab_hint :: "console \<Rightarrow> string option" where
  "tab_hint s = (case previewFile s of Some (c # cs) \<Rightarrow> None | _ \<Rightarrow> Some ''Click a file in the tree to open a preview'')"

text \<open>The help overlay: its header with the close button, the sections, and the footer with the other button.\<close>

record help_screen =
  hsTitle :: string
  hsClose :: "string \<times> help_click"
  hsSections :: "(string \<times> help_section) list"
  hsFooter :: string
  hsDone :: "string \<times> help_click"

definition HelpOverlay_screen :: help_screen where
  "HelpOverlay_screen =
     \<lparr>hsTitle = ''Help & Reference'', hsClose = (''Close help'', ClickX), hsSections = help_sections,
      hsFooter = ''isolator-v / execution console '' @ em_dash @ '' v0.1.0-alpha'', hsDone = (''Got it'', ClickGotIt)\<rparr>"

record console_view =
  cvHelp :: "help_screen option"
  cvToolbar :: "toolbar_button list"
  cvSelector :: program_selector
  cvBadge :: "(string \<times> string \<times> string) option"
  cvPill :: "compact_pill option"
  cvTheme :: icon_button
  cvHelpButton :: icon_button
  cvFiles :: "sidebar_header \<times> TreeView"
  cvVitals :: "(sidebar_header \<times> full_panel option) option"
  cvTabs :: "tab_view list \<times> string option"
  cvMain :: "main_view option"
  cvTerminal :: "sidebar_header \<times> terminal_view"
  cvStatus :: status_bar

definition console_view ::
  "(string \<Rightarrow> string \<Rightarrow> int) \<Rightarrow> bool \<Rightarrow> nat \<Rightarrow> theme_page \<Rightarrow> ('d, 'c) workspace \<Rightarrow> console_view" where
  "console_view lc isMac now th w =
     (let a = core w; s = con (sys a) in
      \<lparr>cvHelp = (if helpOpen s then Some HelpOverlay_screen else None),
       cvToolbar = toolbar isMac s, cvSelector = selector isMac s, cvBadge = session_badge s,
       cvPill = vitals_pill (vit a), cvTheme = theme_button th, cvHelpButton = help_button,
       cvFiles = (SidebarHeader ''Files'' (Some (files_hint s)) None,
         VirtualFileTree lc (sessionId s) (Some (inlineVfsEntries s)) (tree a)),
       cvVitals = (if showVitals s
         then map_option (\<lambda>v. (SidebarHeader ''Agent Vitals'' None None, vitals_panel v)) (side a) else None),
       cvTabs = (tab_bar s, tab_hint s), cvMain = main_view lc isMac now w,
       cvTerminal = (SidebarHeader ''Execution Terminal'' (terminal_hint s) (if live_badge s then Some ''live'' else None),
         terminal_view now (bnd a) (trm (sys a))),
       cvStatus = StatusBar s\<rparr>)"

text \<open>The whole document: nothing, or the bar with the console below it once it is loaded.\<close>

definition document_view ::
  "(string \<Rightarrow> string \<Rightarrow> int) \<Rightarrow> bool \<Rightarrow> nat \<Rightarrow> ('d, 'c) document \<Rightarrow> (home_view \<times> console_view option) option" where
  "document_view lc isMac now d =
     map_option (\<lambda>v. (v, map_option (console_view lc isMac now (doc_theme d)) (loaded (home_of d)))) (home_view (home_of d))"

section \<open>The parts of the screen agree\<close>

lemma home_reachable:
  "stored \<in> {None, Some ''dark'', Some ''light''} \<Longrightarrow> home_inv lc (home_of (foldl (document_step lc am pg isMac) (document_init stored) es))"
  using document_machine.reachable_inv[of stored lc am pg isMac es] by (auto simp: doc_inv_def)

lemma session_id_text: "console_inv s \<Longrightarrow> sessionId s \<noteq> Some []"
proof
  assume "console_inv s" "sessionId s = Some []"
  then obtain now where "[] = new_session_id now" by (auto simp: console_inv_def)
  then have "new_session_id now = []" by (rule sym)
  then show False by simp
qed

lemma ws_inv_console: "ws_inv w \<Longrightarrow> console_inv (console_of w)"
  by (auto simp: ws_inv_def app_inv_def sys_ok_def sys_inv_def split: if_splits)

text \<open>The main pane is never empty and never throws.\<close>

lemma main_view_shown:
  assumes "ws_inv w" "\<not> throws lc w"
  shows "\<exists>v. main_view lc isMac now w = Some v \<and> v \<noteq> ShowPreview ScreenThrows"
proof -
  have "pane_inv w" using assms(1) by (simp add: ws_inv_def)
  then show ?thesis using assms(2)
    by (cases "main_pane (console_of w)")
       (auto simp: main_view_def pane_inv_def preview_display_def throws_def pane_throws_screen[of _ lc "viewing w"])
qed

lemma pill_shown: "vit_follows c v \<Longrightarrow> vitals_pill v \<noteq> None \<Longrightarrow> vitals_active c"
  by (auto simp: vit_follows_def vitals_pill_def CompactPill_def)

lemma live_everywhere:
  "live_badge s \<longleftrightarrow> sandboxState s = SRunning" "tbDisabled (toolbar isMac s ! 0) \<longleftrightarrow> sandboxState s = SRunning"
  "barLabel (StatusBar s) = ''Executing'' \<longleftrightarrow> sandboxState s = SRunning"
  by (cases "sandboxState s"; simp add: live_badge_def toolbar_def ToolbarButton_def StatusBar_def Let_def)+


section \<open>Properties\<close>

text \<open>C17: The screen never contradicts itself. In every reachable state of the document in which the console
  is loaded: the live badge, the disabled Run button and the label of the status bar all say the same
  about the session; the badge of the toolbar and the status bar name the same session, and the tree says
  that there is none exactly if they do; vitals are shown only while a session runs, and the main pane
  has content.\<close>

theorem screen_agrees:
  assumes stored: "stored \<in> {None, Some ''dark'', Some ''light''}"
    and d: "d = foldl (document_step lc am pg isMac) (document_init stored) es" "loaded (home_of d) = Some w"
    and v: "v = console_view lc isMac now (doc_theme d) w"
  shows "(shRight (fst (cvTerminal v)) = Some ''live'' \<longleftrightarrow> tbDisabled (cvToolbar v ! 0)) \<and>
    (tbDisabled (cvToolbar v ! 0) \<longleftrightarrow> barLabel (cvStatus v) = ''Executing'') \<and>
    map_option (snd \<circ> snd) (cvBadge v) = barSession (cvStatus v) \<and>
    (cvBadge v = None \<longleftrightarrow> snd (cvFiles v) = NoActiveSession) \<and>
    (cvPill v \<noteq> None \<or> (\<exists>h p. cvVitals v = Some (h, Some p)) \<longrightarrow> barLabel (cvStatus v) = ''Executing'') \<and>
    (\<exists>m. cvMain v = Some m \<and> m \<noteq> ShowPreview ScreenThrows)"
proof (intro conjI impI)
  let ?s = "console_of w"
  have "home_inv lc (home_of d)" unfolding d(1) by (rule home_reachable[OF stored])
  then have w: "ws_inv w" "\<not> throws lc w" using d(2) by (auto simp: home_inv_def)
  note session = session_id_text[OF ws_inv_console[OF w(1)]]
  have fields: "shRight (fst (cvTerminal v)) = (if live_badge ?s then Some ''live'' else None)" "cvToolbar v = toolbar isMac ?s"
    "cvStatus v = StatusBar ?s" "cvBadge v = session_badge ?s" "cvPill v = vitals_pill (vit (core w))"
    "snd (cvFiles v) = VirtualFileTree lc (sessionId ?s) (Some (inlineVfsEntries ?s)) (tree (core w))"
    "cvVitals v = (if showVitals ?s then map_option (\<lambda>x. (SidebarHeader ''Agent Vitals'' None None, vitals_panel x)) (side (core w)) else None)"
    "cvMain v = main_view lc isMac now w"
    by (simp_all add: v console_view_def Let_def SidebarHeader_def)
  show "shRight (fst (cvTerminal v)) = Some ''live'' \<longleftrightarrow> tbDisabled (cvToolbar v ! 0)"
    "tbDisabled (cvToolbar v ! 0) \<longleftrightarrow> barLabel (cvStatus v) = ''Executing''"
    unfolding fields live_everywhere by simp_all
  show "map_option (snd \<circ> snd) (cvBadge v) = barSession (cvStatus v)"
    unfolding fields using session by (auto simp: session_badge_def StatusBar_def Let_def split: option.split list.split)
  show "cvBadge v = None \<longleftrightarrow> snd (cvFiles v) = NoActiveSession"
    unfolding fields by (auto simp: session_badge_def VirtualFileTree_def Let_def split: option.split list.split)
  have f: "vit_follows ?s (vit (core w))" "side_follows ?s (side (core w))" using w(1) by (simp_all add: ws_inv_def app_inv_def)
  have "vitals_active ?s" if "cvPill v \<noteq> None \<or> (\<exists>h p. cvVitals v = Some (h, Some p))"
    using that f unfolding fields
    by (auto simp: vitals_pill_def vitals_panel_def CompactPill_def FullPanel_def vit_follows_def side_follows_def split: if_splits)
  then show "barLabel (cvStatus v) = ''Executing''" if "cvPill v \<noteq> None \<or> (\<exists>h p. cvVitals v = Some (h, Some p))"
    using that unfolding fields(3) live_everywhere by (simp add: vitals_active_def)
  show "\<exists>m. cvMain v = Some m \<and> m \<noteq> ShowPreview ScreenThrows" unfolding fields by (rule main_view_shown[OF w])
qed

theorem screen_agrees_witness:
  "shRight (fst (cvTerminal (console_view (\<lambda>a b. 0) True 0 (load_page None)
     (ws_step plain_doc demo_page True (workspace_init plain_doc) (WPage 1 (ASys (UI (ClickRun 1)))))))) = Some ''live''"
proof -
  let ?e = "WPage 1 (ASys (UI (ClickRun 1)))"
  let ?w = "ws_step plain_doc demo_page True (workspace_init plain_doc) ?e"
  let ?d = "foldl (document_step (\<lambda>a b. 0) plain_doc demo_page True) (document_init None) [DHome HLoaded, DHome (HConsole ?e)]"
  have con: "console_of ?w = console_step True console_init (ClickRun 1)"
    by (simp add: core_step workspace_init_def app_init_def sys_init_def boundary_init_def deliver_def sync_def with_sys_def
        children_effects_def)
  have run: "sandboxState (console_of ?w) = SRunning" "main_pane (console_of ?w) = PaneWelcome WpRunning"
    unfolding con by (simp_all add: console_step_def handleRun_def console_init_def vitals_shown_def main_pane_def welcome_pane_def)
  have "\<not> throws (\<lambda>a b. 0) ?w" by (rule demo_run_quiet)
  then have d: "loaded (home_of ?d) = Some ?w" "doc_theme ?d = load_page None"
    by (simp_all add: document_init_def home_init_def load_page_def theme_init_def Let_def del: app_step.simps)
  have "tbDisabled (cvToolbar (console_view (\<lambda>a b. 0) True 0 (doc_theme ?d) ?w) ! 0)"
    using run(1) by (simp add: console_view_def Let_def live_everywhere)
  with screen_agrees[where lc = "\<lambda>a b. 0" and now = 0, OF _ refl d(1) refl] show ?thesis unfolding d(2) by blast
qed

end
