(* ===== verification/ExitCodes.thy ===== *)
theory ExitCodes
  imports System
begin

text \<open>
  The types of what the sandbox reports. \<open>Terminal.tsx\<close> casts a parsed frame to
  \<open>{ type: string; code?: number }\<close>, and \<open>ExecutionConsole.tsx\<close> keeps the code in a state of type
  \<open>number\<close>. The model keeps parsed values as they are; here the cast is shown to be sound: if the frames
  have the declared type, the ref of the terminal, the argument of \<open>onEnd\<close> and the state of the console
  do too.
\<close>

section \<open>Types\<close>

definition is_number :: "json \<Rightarrow> bool" where
  "is_number v \<longleftrightarrow> (case v of JNum x \<Rightarrow> True | _ \<Rightarrow> False)"

text \<open>A text frame of the declared type: an exit frame has a numeric code, or none.\<close>

definition typed_frame :: "ws_frame \<Rightarrow> bool" where
  "typed_frame f \<longleftrightarrow> (case f of
       BinaryFrame b \<Rightarrow> True
     | TextFrame t \<Rightarrow>
         (case json_parse t of
            None \<Rightarrow> True
          | Some msg \<Rightarrow> jfield ''type'' msg \<noteq> Some (JStr ''exit'') \<or> pred_option is_number (nullish (jfield ''code'' msg))))"

fun typed_event :: "sys_event \<Rightarrow> bool" where
  "typed_event (TE (SockMessage i f)) \<longleftrightarrow> typed_frame f"
| "typed_event e \<longleftrightarrow> True"

definition typed_end :: "end_outcome \<Rightarrow> bool" where
  "typed_end oc \<longleftrightarrow> (case oc of EndError \<Rightarrow> True | EndComplete snap code \<Rightarrow> is_number code)"

definition typed_terminal :: "terminal \<Rightarrow> bool" where
  "typed_terminal t \<longleftrightarrow> pred_option is_number (exitCodeRef t) \<and> list_all (\<lambda>(i, oc). typed_end oc) (ended t)"

definition typed_console :: "console \<Rightarrow> bool" where
  "typed_console c \<longleftrightarrow> is_number (lastExitCode c) \<and>
     (sandboxState c = SComplete \<longrightarrow> lastExitCode c = JNum 0) \<and> (sandboxState c = SNonzero \<longrightarrow> lastExitCode c \<noteq> JNum 0)"

section \<open>Preservation\<close>

lemma is_number_JNum [simp]: "is_number (JNum x)"
  by (simp add: is_number_def)

lemma typed_same:
  "\<lbrakk>typed_terminal t; exitCodeRef t' = exitCodeRef t; ended t' = ended t\<rbrakk> \<Longrightarrow> typed_terminal t'"
  by (simp add: typed_terminal_def)

lemma typed_close: "typed_terminal t \<Longrightarrow> typed_terminal (ws_onclose i code reason t)"
  by (auto simp: typed_terminal_def ws_onclose_def on_end_def typed_end_def Let_def split: option.split)

lemma typed_message:
  assumes "typed_terminal t" "typed_frame f"
  shows "typed_terminal (ws_onmessage f t)"
proof (cases f)
  case (BinaryFrame b)
  then show ?thesis using assms(1) by (auto simp: ws_onmessage_def intro: typed_same)
next
  case (TextFrame s)
  have out: "typed_terminal (enqueue s t)" using assms(1) by (rule typed_same) simp_all
  have exit: "typed_terminal (exit_frame msg t)"
    if "json_parse s = Some msg" "jfield ''type'' msg = Some (JStr ''exit'')" for msg
    using assms that TextFrame exit_frame_refs(2)[of msg t]
    by (auto simp: typed_terminal_def typed_frame_def split: option.split)
  show ?thesis
  proof (cases "json_parse s")
    case None
    then show ?thesis using out TextFrame by (simp add: ws_onmessage_def)
  next
    case (Some msg)
    then show ?thesis using out exit[of msg] assms(1) TextFrame by (cases msg) (simp_all add: ws_onmessage_def)
  qed
qed

text \<open>No other event touches the ref or reports an end.\<close>

definition keeps_end :: "terminal \<Rightarrow> terminal \<Rightarrow> bool" where
  "keeps_end t t' \<longleftrightarrow> exitCodeRef t' = exitCodeRef t \<and> ended t' = ended t"

lemma keeps_end_trans: "\<lbrakk>keeps_end t u; keeps_end u v\<rbrakk> \<Longrightarrow> keeps_end t v"
  by (simp add: keeps_end_def)

lemma keeps_end_ops:
  "keeps_end t (xterm_loaded cls t)" "keeps_end t (xterm_first_fit t)" "keeps_end t (theme_observer cls t)"
  "keeps_end t (animation_frame i t)" "keeps_end t (ws_onerror t)" "keeps_end t (ws_effect pg r sid w t)"
  "keeps_end t (ws_cleanup t)" "keeps_end t (terminal_unmount t)" "keeps_end t (sock_upd i f t)" "keeps_end t (writeln l t)"
  by (simp_all add: keeps_end_def xterm_loaded_def xterm_first_fit_def theme_observer_def animation_frame_def ws_onerror_def
      ws_effect_def ws_cleanup_def terminal_unmount_def sock_close_def Let_def split: option.split list.split)

lemma keeps_end_send: "sock_send i d t = Some t' \<Longrightarrow> keeps_end t t'"
  by (auto simp: keeps_end_def sock_send_def split: readyState.splits)

lemma keeps_end_open: "keeps_end t (ws_onopen i t)"
proof -
  have "keeps_end t (writeln l t')" if "sock_send i d (writeln l' t) = Some t'" for d l l' t'
    using keeps_end_trans[OF keeps_end_ops(10) keeps_end_trans[OF keeps_end_send[OF that] keeps_end_ops(10)]] .
  moreover have "keeps_end t (writeln l (writeln l' t))" for l l'
    by (rule keeps_end_trans[OF keeps_end_ops(10) keeps_end_ops(10)])
  ultimately show ?thesis unfolding ws_onopen_def Let_def by (simp add: keeps_end_ops split: option.split list.split)
qed

lemma typed_keeps: "\<lbrakk>typed_terminal t; keeps_end t t'\<rbrakk> \<Longrightarrow> typed_terminal t'"
  by (simp add: keeps_end_def typed_terminal_def)

lemma typed_term_step:
  assumes "typed_terminal t" "typed_event (TE e)"
  shows "typed_terminal (term_step pg t e)"
proof (cases e)
  case (SockOpened i)
  then show ?thesis using assms(1) typed_keeps[OF assms(1) keeps_end_trans[OF keeps_end_ops(9) keeps_end_open]] by simp
next
  case (SockMessage i f)
  then show ?thesis using assms typed_message by simp
next
  case (SockClosed i code reason)
  then show ?thesis using assms(1) typed_close[OF typed_keeps[OF assms(1) keeps_end_ops(9)]] by simp
next
  case (KeyTyped d)
  then show ?thesis using assms(1) typed_keeps[OF assms(1) keeps_end_send] by (auto simp: key_typed_def split: option.split)
next
  case (PropsChanged r sid w)
  then show ?thesis using typed_keeps[OF assms(1) keeps_end_trans[OF keeps_end_ops(7,6)]] by simp
qed (simp_all add: typed_keeps[OF assms(1) keeps_end_ops(1)] typed_keeps[OF assms(1) keeps_end_ops(2)]
    typed_keeps[OF assms(1) keeps_end_ops(3)] typed_keeps[OF assms(1) keeps_end_ops(4)] assms(1)
    typed_keeps[OF assms(1) keeps_end_ops(5)] typed_keeps[OF assms(1) keeps_end_ops(8)])

lemma typed_shown: "typed_console c \<Longrightarrow> typed_console (vitals_shown c)"
  by (simp add: typed_console_def vitals_shown_def)

lemma typed_end_event: "\<lbrakk>typed_end oc; typed_console c\<rbrakk> \<Longrightarrow> typed_console (console_step isMac c (end_event oc))"
  by (cases oc) (auto simp: typed_end_def end_event_def console_step_def onEnd_def typed_console_def Let_def vitals_shown_def
      split: option.split list.split)

lemma typed_keyboard: "typed_console c \<Longrightarrow> typed_console (keyboard isMac now k c)"
  by (auto simp: keyboard_def Let_def typed_console_def handleRun_def handleStop_def handleReset_def)

lemma typed_console_step: "\<lbrakk>typed_console c; \<not> internal u\<rbrakk> \<Longrightarrow> typed_console (console_step isMac c u)"
proof (cases u)
  case (SelectFile p)
  assume "typed_console c"
  with SelectFile show ?thesis
    by (auto simp: console_step_def handleFileSelect_def typed_console_def Let_def vitals_shown_def split: option.split list.split)
next
  case (Key now k)
  assume "typed_console c"
  with Key show ?thesis by (simp add: console_step_def typed_shown typed_keyboard)
qed (auto simp: console_step_def typed_console_def handler_defs)

definition typed_system :: "system \<Rightarrow> bool" where
  "typed_system s \<longleftrightarrow> typed_console (con s) \<and> typed_terminal (trm s)"

lemma typed_sync: "\<lbrakk>typed_console c; typed_terminal t\<rbrakk> \<Longrightarrow> typed_system (sync pg old c t)"
  using typed_term_step[of t "props_event (terminal_props c)" pg]
  by (cases "terminal_props c") (simp add: sync_def typed_system_def del: term_step.simps)

lemma new_ends_typed: "\<lbrakk>typed_terminal t'; oc \<in> set (new_ends t t')\<rbrakk> \<Longrightarrow> typed_end oc"
  by (auto simp: new_ends_def typed_terminal_def list_all_iff dest!: in_set_dropD)

lemma typed_ends:
  "\<lbrakk>typed_console c; \<And>oc. oc \<in> set ocs \<Longrightarrow> typed_end oc\<rbrakk> \<Longrightarrow> typed_console (foldl (console_step isMac) c (map end_event ocs))"
  by (induction ocs arbitrary: c) (simp_all add: typed_end_event)

lemma typed_step:
  assumes "typed_system s" "typed_event e"
  shows "typed_system (sys_step pg isMac s e)"
proof (cases e)
  case (UI u)
  then show ?thesis using assms(1) by (auto simp: typed_system_def[of s] intro: typed_sync typed_console_step)
next
  case (TE t)
  have t: "typed_terminal (term_step pg (trm s) t)" using assms TE typed_term_step by (simp add: typed_system_def)
  have "typed_console (foldl (console_step isMac) (con s) (map end_event (new_ends (trm s) (term_step pg (trm s) t))))"
    by (rule typed_ends) (use assms(1) new_ends_typed[OF t] in \<open>simp_all add: typed_system_def del: term_step.simps\<close>)
  then show ?thesis using TE t assms(1) by (simp add: Let_def typed_sync del: term_step.simps)
qed

lemma typed_init: "typed_system sys_init"
  by (simp add: typed_system_def sys_init_def typed_console_def console_init_def typed_terminal_def terminal_init_def)

section \<open>Properties\<close>

text \<open>C21: The cast of the exit frame is sound: in every state reached with frames of the declared type, the
  exit code of the console is a number, it is 0 where the console shows completion, and it is not 0
  where it shows a non-zero exit.\<close>

theorem exit_code_typed:
  assumes "\<forall>e \<in> set es. typed_event e"
  shows "case con (foldl (sys_step pg isMac) sys_init es) of c \<Rightarrow> \<exists>x. lastExitCode c = JNum x \<and>
    (sandboxState c = SComplete \<longrightarrow> x = 0) \<and> (sandboxState c = SNonzero \<longrightarrow> x \<noteq> 0)"
proof -
  have "typed_system (foldl (sys_step pg isMac) sys_init es)"
    by (rule foldl_keeps) (use assms typed_init typed_step in auto)
  then show ?thesis by (auto simp: typed_system_def typed_console_def is_number_def split: json.splits)
qed

theorem exit_code_typed_witness:
  "\<exists>x. lastExitCode (con (foldl (sys_step demo_page True) sys_init
     [UI (ClickRun 1), TE (SockOpened 0), TE (SockMessage 0 (TextFrame (stringify (JObj [(''type'', JStr ''exit''), (''code'', JNum 3)])))),
      TE (SockClosed 0 1000 [])])) = JNum x"
proof -
  let ?f = "stringify (JObj [(''type'', JStr ''exit''), (''code'', JNum 3)])"
  have "json_parse ?f = Some (JObj [(''type'', JStr ''exit''), (''code'', JNum 3)])" by (rule json_parse_stringify) simp
  then have "typed_frame (TextFrame ?f)" by (simp add: typed_frame_def nullish_def)
  then have "\<forall>e \<in> set [UI (ClickRun 1), TE (SockOpened 0), TE (SockMessage 0 (TextFrame ?f)), TE (SockClosed 0 1000 [])]. typed_event e"
    by simp
  from exit_code_typed[OF this] show ?thesis by blast
qed

end
