(* ===== verification/Loading.thy ===== *)
theory Loading
  imports App
begin

text \<open>
  The time before the terminal is there: its code is loaded on demand (\<open>next/dynamic\<close> in
  \<open>ExecutionConsole.tsx\<close>), and until it has arrived nothing is in its place, while the rest of the page
  already works. When it arrives the terminal is mounted, with the props the console has by then, and its
  effects run. The theories above start with the terminal mounted; here is why they may: whatever
  happened before, the page then satisfies the invariant they rest on. That the code fails to load is not
  modelled.
\<close>

section \<open>Definitions\<close>

text \<open>One event before: of the terminal there are none, and nothing that could crash.\<close>

fun load_step :: "('d, 'c) automerge \<Rightarrow> page \<Rightarrow> bool \<Rightarrow> ('d, 'c) app \<Rightarrow> nat \<times> 'c app_event \<Rightarrow> ('d, 'c) app" where
  "load_step am pg isMac a (now, ASys (UI u)) =
     (if from_child u then a else with_sys am now ((sys a)\<lparr>con := console_step isMac (con (sys a)) u\<rparr>) a)"
| "load_step am pg isMac a (now, ASys (TE t)) = a"
| "load_step am pg isMac a (now, ATree (HandleSelect p)) =
     with_sys am now ((sys a)\<lparr>con := console_step isMac (con (sys a)) (SelectFile p)\<rparr>)
       (a\<lparr>tree := vft_step am (tree a) (HandleSelect p)\<rparr>)"
| "load_step am pg isMac a (now, ACrash err) = a"
| "load_step am pg isMac a (now, AReconnect) = a"
| "load_step am pg isMac a (now, e) = app_step am pg isMac a (now, e)"

text \<open>The code has arrived.\<close>

definition mount_terminal :: "page \<Rightarrow> ('d, 'c) app \<Rightarrow> ('d, 'c) app" where
  "mount_terminal pg a =
     a\<lparr>sys := (sys a)\<lparr>trm := term_step pg terminal_init (props_event (terminal_props (con (sys a))))\<rparr>\<rparr>"

section \<open>While it is loading\<close>

definition load_inv :: "('d, 'c) app \<Rightarrow> bool" where
  "load_inv a \<longleftrightarrow> console_inv (con (sys a)) \<and> trm (sys a) = terminal_init \<and> \<not> hasError (bnd a) \<and> children_follow a"

lemma load_keeps:
  "\<lbrakk>load_inv a; children_follow a'; sys a' = sys a; bnd a' = bnd a\<rbrakk> \<Longrightarrow>
     load_inv (with_sys am now ((sys a)\<lparr>con := console_step isMac (con (sys a)) u\<rparr>) a')"
  by (simp add: load_inv_def with_sys_follow console_inv_step)

lemma load_inv_step: "load_inv a \<Longrightarrow> load_inv (load_step am pg isMac a e)"
proof -
  assume a: "load_inv a"
  then have c: "children_follow a" by (simp add: load_inv_def)
  obtain now ev where e: "e = (now, ev)" by (cases e) auto
  show ?thesis
  proof (cases ev)
    case (ASys s)
    then show ?thesis using a load_keeps[OF a c] unfolding e by (cases s) simp_all
  next
    case (ATree te)
    have t: "children_follow (a\<lparr>tree := vft_step am (tree a) te\<rparr>)" if "\<And>sid. te \<noteq> SetSession sid"
      using c tree_follows_event[of "con (sys a)" "tree a" te am] that by (simp add: children_follow_def)
    show ?thesis using a t load_keeps[OF a t] unfolding e ATree
      by (cases te) (simp_all add: load_inv_def del: vft_step.simps)
  qed (use a in \<open>simp_all add: e load_inv_def children_follow_def vit_follows_poll side_follows_poll\<close>)
qed

lemma load_inv_init: "load_inv (app_init am)"
  using app_inv_init[of am]
  by (simp add: load_inv_def app_inv_def children_follow_def app_init_def sys_init_def boundary_init_def sys_ok_def sys_inv_def)

interpretation load_machine: started_machine "load_step am pg isMac" load_inv "app_init am" for am pg isMac
  by unfold_locales (rule load_inv_step, assumption, rule load_inv_init)

lemma mounted_inv: "load_inv a \<Longrightarrow> app_inv (mount_terminal pg a)"
  using term_inv_step[OF term_inv_init] linked_props_event[of "con (sys a)" pg terminal_init]
  by (simp add: load_inv_def mount_terminal_def app_inv_def sys_ok_def sys_inv_def children_follow_def del: term_step.simps)

lemma mounted_socket:
  assumes "load_inv a" "t = trm (sys (mount_terminal pg a))"
  shows "if sandboxState (con (sys a)) = SRunning
     then length (sockets t) = 1 \<and> wsEffect t = Some 0 \<and> sockState (sockets t ! 0) = CONNECTING \<and>
       Some (sockSession (sockets t ! 0)) = sessionId (con (sys a)) \<and>
       sockPayload (sockets t ! 0) = Some (terminal_wasm (con (sys a)))
     else sockets t = [] \<and> wsEffect t = None"
proof -
  have idle: "ws_cleanup terminal_init = terminal_init" by (simp add: ws_cleanup_def terminal_init_def)
  have "console_inv (con (sys a))" using assms(1) by (simp add: load_inv_def)
  then obtain x xs where "sandboxState (con (sys a)) = SRunning \<longrightarrow> sessionId (con (sys a)) = Some (x # xs)"
    by (auto simp: console_inv_def new_session_id_def)
  then show ?thesis unfolding assms(2)
    by (auto simp: mount_terminal_def terminal_props_def idle ws_effect_def Let_def)
       (simp_all add: terminal_init_def split: option.split list.split)
qed

section \<open>Properties\<close>

text \<open>C14: The terminal may come late: whatever happens while its code is being loaded, when it is mounted it
  opens a socket exactly if the console shows a running session, for that session and the program
  selected by then, and only one however many sessions were started; and from then on, in whatever order
  events come in, vitals, file tree and socket follow the session as on a page that has had its terminal
  from the start.\<close>

theorem late_terminal_joins_session:
  assumes a0: "a0 = foldl (load_step am pg isMac) (app_init am) es"
    and t: "t = trm (sys (mount_terminal pg a0))" and a: "a = foldl (app_step am pg isMac) (mount_terminal pg a0) es'"
  shows "trm (sys a0) = terminal_init \<and>
    (if sandboxState (con (sys a0)) = SRunning
     then length (sockets t) = 1 \<and> wsEffect t = Some 0 \<and> sockState (sockets t ! 0) = CONNECTING \<and>
       Some (sockSession (sockets t ! 0)) = sessionId (con (sys a0)) \<and>
       sockPayload (sockets t ! 0) = Some (terminal_wasm (con (sys a0)))
     else sockets t = [] \<and> wsEffect t = None) \<and>
    (\<forall>v \<in> insert (vit a) (set_option (side a)). (vitCancelled v \<longleftrightarrow> sandboxState (con (sys a)) \<noteq> SRunning)) \<and>
    (\<forall>ld \<in> set (loaders (tree a)). \<not> ldCancelled ld \<longrightarrow> sessionId (con (sys a)) = Some (ldSession ld)) \<and>
    (wsEffect (trm (sys a)) \<noteq> None \<longleftrightarrow> sandboxState (con (sys a)) = SRunning \<and> \<not> hasError (bnd a))"
proof -
  have l: "load_inv a0" unfolding a0 by (rule load_machine.reachable_inv)
  have "app_inv a" unfolding a by (rule app_machine.inv_run[OF mounted_inv[OF l]])
  from app_inv_parts[OF this] mounted_socket[OF l t] l show ?thesis by (simp add: load_inv_def)
qed

theorem late_terminal_joins_session_witness:
  "case mount_terminal demo_page (foldl (load_step plain_doc demo_page True) (app_init plain_doc)
      [(1, ASys (UI (ClickRun 1))), (2, ASys (UI ClickStop)), (3, ASys (UI (ClickRun 3)))]) of a \<Rightarrow>
    length (sockets (trm (sys a))) = 1 \<and> Some (sockSession (sockets (trm (sys a)) ! 0)) = Some (new_session_id 3)"
proof -
  let ?a = "foldl (load_step plain_doc demo_page True) (app_init plain_doc)
      [(1, ASys (UI (ClickRun 1))), (2, ASys (UI ClickStop)), (3, ASys (UI (ClickRun 3)))]"
  have c: "sandboxState (con (sys ?a)) = SRunning" "sessionId (con (sys ?a)) = Some (new_session_id 3)"
    by (simp_all add: app_init_def sys_init_def console_step_def handler_defs vitals_shown_def console_init_def)
  note t = late_terminal_joins_session[OF refl refl refl, of plain_doc demo_page True
      "[(1, ASys (UI (ClickRun 1))), (2, ASys (UI ClickStop)), (3, ASys (UI (ClickRun 3)))]" "[]"]
  show ?thesis using conjunct1[OF conjunct2[OF t]] unfolding c by (simp del: load_step.simps foldl.simps)
qed

end
