(* ===== verification/Spec2Isabelle.thy ===== *)
theory Spec2Isabelle
  imports Screen ExitCodes Loading
begin

text \<open>
  \<^bold>\<open>The execution console of Isolator-V\<close>

  Isolator-V runs WebAssembly programs in a sandbox. This development verifies its browser front end
  (\<open>src/frontend/\<close>, TypeScript and React): the page on which a user picks or writes a program, starts a
  session, watches its output in a terminal, follows its resource use, and inspects the files it left.
  The orchestrator (Go) and the worker manager (Rust) are other programs; what they send is an input of
  the model.

  \<^bold>\<open>How the parts work together.\<close> \<open>ExecutionConsole.tsx\<close> owns the state of the page. It hands
  \<open>running\<close>, \<open>sessionId\<close> and the program to \<open>Terminal.tsx\<close>, which opens a WebSocket, sends one execute
  request, buffers the output frames and flushes them into Xterm on animation frames, and reports the
  end of the session with exit code and file snapshot through \<open>onEnd\<close>. The snapshot feeds
  \<open>VirtualFileTree.tsx\<close>, which otherwise polls the server and replicates listings between tabs; a file
  chosen there is shown by \<open>ComponentRegistry.tsx\<close> in the previewer of its extension. \<open>CodeEditor.tsx\<close>
  compiles source text and hands the module back; \<open>AgentVitals.tsx\<close> and \<open>OrchestratorStatus.tsx\<close> poll
  telemetry and health.

  \<^bold>\<open>Theories.\<close>
  \<^item> \<open>Prelude\<close>, \<open>Encoding\<close>, \<open>Json\<close>, \<open>Regex\<close>: the JavaScript library functions the program calls
    (strings, \<open>trim\<close>, URI components, number formatting, stable sort, base64, UTF-8, JSON, replacing
    and splitting by regular expressions), with the round trips the components rely on
    (\<open>atob_btoa\<close>, \<open>json_parse_stringify\<close>). \<open>Double\<close> is rounding to double precision. \<open>Regex\<close> states its interface as the locales \<open>matcher\<close> and
    \<open>line_matcher\<close>, interpreted on the expressions of the log and Markdown viewers.
  \<^item> \<open>Machine\<close>: the locales \<open>machine\<close> and \<open>started_machine\<close>, the contract of an event-driven
    component with an invariant. Every stateful component interprets one of them on its own step
    function, and its theorems about reachable states rest on \<open>inv_run\<close> and \<open>reachable_inv\<close>.
  \<^item> \<open>Polling\<close>: the locales \<open>capped_backoff\<close> and \<open>poller\<close> for the three polling loops; interpreted in
    \<open>Vitals\<close> (\<open>AgentVitals.tsx\<close>), \<open>OrchStatus\<close> (\<open>OrchestratorStatus.tsx\<close>) and \<open>TreeSync\<close>.
    \<open>VitalsView\<close> has the sparkline and the panels.
  \<^item> \<open>FileTree\<close>, \<open>TreeSync\<close> (\<open>VirtualFileTree.tsx\<close>): \<open>buildTree\<close> with its explicit store of shared
    children arrays, refined to insertion into a tree; rows, reducer, loader, broadcast and views.
    Automerge is a parameter, with the law that reading a document gives what was last assigned.
  \<^item> \<open>Terminal\<close> (\<open>Terminal.tsx\<close>): refs as a record, one definition per handler, sockets of all runs of the
    effect in an explicit store because handlers of old sockets share the refs. The locale
    \<open>ordered_pipe\<close> gives the lossless output theorem.
  \<^item> \<open>Demos\<close>, \<open>Console\<close>, \<open>ConsoleView\<close> (\<open>ExecutionConsole.tsx\<close>, \<open>StatusBar.tsx\<close>): the embedded modules,
    the hooks as a record, one definition per handler, and what is displayed.
  \<^item> \<open>System\<close>: console and terminal together; a step is one event of either side followed by the exchange
    of props and \<open>onEnd\<close> calls. \<open>ExitCodes\<close> gives the types of what the sandbox reports, and shows that
    every step keeps them.
  \<^item> \<open>Registry\<close>, \<open>Grid\<close>, \<open>Chart\<close>, \<open>LogView\<close>, \<open>Markdown\<close> (\<open>ComponentRegistry.tsx\<close>): routing and fetching,
    and the previewers for CSV, JSON and WebAssembly, logs and Markdown. \<open>Markdown\<close> has the block loop as
    a recursion on the lines, \<open>MarkdownLoop\<close> as it is written, with an index. \<open>Preview\<close> is which previewer
    is mounted, the state it keeps, and the screen.
  \<^item> \<open>Editor\<close> (\<open>CodeEditor.tsx\<close>), \<open>Chrome\<close> (\<open>Tooltip.tsx\<close>, \<open>ThemeToggle.tsx\<close>, \<open>app/layout.tsx\<close>,
    \<open>TerminalErrorBoundary.tsx\<close>, \<open>HelpOverlay.tsx\<close>, \<open>next.config.ts\<close>), \<open>Overlay\<close> (the panic screen with its time
    stamp, the sections of the help overlay).
  \<^item> \<open>App\<close>: the page, that is \<open>System\<close> inside the error boundary together with the two vitals displays and the
    file tree, whose effects follow the console. \<open>Loading\<close> is the time before the terminal is there, whose code is
    loaded on demand: \<open>late_terminal_joins_session\<close> shows that the page is then in a state that satisfies the invariant of
    \<open>App\<close>, on which the theorems about the page rest; the theories above \<open>App\<close> start with the terminal mounted.
  \<^item> \<open>Workspace\<close>: the page with what its main pane shows, the editor or the previewer, which React mounts and
    unmounts; compilations and requests outlive them. It also has the three key handlers on the window (of console,
    editor and help overlay) in the order in which their effects have added them: a key calls them one after the other,
    and the rendering in between may replace or remove those that follow.
  \<^item> \<open>Home\<close> (\<open>app/page.tsx\<close>, \<open>ConsoleLoader.tsx\<close>): the document, that is the workspace, loaded on demand,
    beside the health indicator, and what becomes of both when a component throws while rendering.
  \<^item> \<open>Document\<close>: the theme of the document (\<open>ThemeToggle.tsx\<close>, \<open>app/layout.tsx\<close>) and the palette of the
    terminal, which have only the class of \<open><html>\<close> in common. Tooltips are on their own.
  \<^item> \<open>Screen\<close>: the render function of \<open>ExecutionConsole.tsx\<close> with what every child displays in its place.
  \<^item> this theory: the properties that span components.

  \<^bold>\<open>What is shown.\<close> For the whole page: a session runs from Run to its result (\<open>run_to_completion\<close>),
  a program from its text to its execution (\<open>compile_and_run\<close>), a file from the sandbox to its preview
  (\<open>session_file_previewed\<close>); every part follows the session (\<open>page_follows_session\<close>) and the main pane
  the console (\<open>main_pane_follows_console\<close>), the terminal follows the theme (\<open>palette_follows_theme\<close>), the
  parts of the screen agree (\<open>screen_agrees\<close>), console and terminal agree in every reachable state, an idle
  console is left alone by the network, and the files of a session reach the tree. For the terminal: output is neither
  lost nor reordered, the buffer drains, the counters are consistent, requests survive the wire, and a
  stopped session stays silent. For the tree: refinement of \<open>buildTree\<close>, exactly the visible entries on
  display, stale responses ignored. For the polling loops: delays, windows and countdown. For the
  previewers: round trips of CSV, log and Markdown text, sorting equal to the library's stable sort,
  pages that partition the rows, bars and lines that stay within their area, and a Markdown loop that ends
  for every text (\<open>markdown_loop_terminates\<close>). For the types: the cast of the exit frame is sound
  (\<open>exit_code_typed\<close>). Several theorems state
  behaviour that contradicts a comment of the source or its evident intent, such as
  \<open>quick_restart_is_killed\<close>, \<open>early_frame_stalls\<close>, \<open>shortcut_runs_old_program\<close>, \<open>shortcut_kills_compiled_program\<close> and \<open>sandbox_file_breaks_page\<close>.

  \<^bold>\<open>Conventions and bounds.\<close> Component state is a record, a handler is a function on it, calls out of a
  component are recorded in its state, and every event the browser may deliver is a constructor of the
  component's event type; runs are \<open>foldl\<close> over event lists, so theorems about reachable states cover
  every order of events. React batches the setters of a handler, and renders and runs the effects before
  the next event (for a key, before the next handler), so a handler is one step. Loops of the
  source are structural or have a termination proof; those of \<open>MarkdownLoop\<close> are partial functions that are
  shown to return. Only the JSON parser uses fuel,
  \<open>2 * length s + 1\<close>, which \<open>json_parse_enough\<close> shows never to be the reason for a failure. Strings
  are their UTF-8 bytes. Rounding to double precision is modelled where an order or a text depends on it: the cells of
  the CSV grid and their differences (\<open>Double\<close>), \<open>formatWall\<close>, \<open>formatMem\<close> and sizes in KB. The numbers of JSON
  texts and the geometry of charts and sparklines are exact rationals; what would overflow to \<open>Infinity\<close> there is not
  modelled.

  \<^bold>\<open>Not modelled.\<close> Styling, icons, layout and accessibility attributes; canvas and Xterm internals;
  logging; resizing. That React unmounts everything when an exception reaches no error boundary is its
  documented behaviour, and part of the model in \<open>Home\<close>. What the servers send is otherwise assumed to be of the
  types the program declares, where it does not check them: a snapshot with values that are not strings counts as none.
\<close>

section \<open>The console and its terminal\<close>

text \<open>C1: One session from start to end. From any reachable state without a running session or a left-over
  trap and with Xterm ready: clicking Run makes one new socket; when it opens, exactly one request is
  sent, for the program the console has selected and the new session id; after any output frames, an
  exit frame with an integer code and the normal close, the console shows completion for code 0 and a
  non-zero exit otherwise, with that code; Xterm has been given exactly the output, in order; no socket
  is current any more; and the files of the frame's snapshot, if any, are those the console keeps.\<close>

theorem run_to_completion:
  assumes s: "s = foldl (sys_step pg isMac) sys_init es"
    and idle: "sandboxState (con s) \<noteq> SRunning" and fresh: "\<not> hasTrapRef (trm s)" and xterm: "xtermRef (trm s)"
    and frame: "json_parse t = Some msg" "jfield ''type'' msg = Some (JStr ''exit'')"
    and frame_end: "jfield ''trap'' msg = None" "jfield ''code'' msg = Some (JNum code)"
    and i: "i = length (sockets (trm s))"
    and s': "s' = foldl (sys_step pg isMac) s ([UI (ClickRun now), TE (SockOpened i)]
       @ map (\<lambda>b. TE (SockMessage i (BinaryFrame b))) outs
       @ [TE (SockMessage i (TextFrame t)), TE (SockClosed i 1000 reason)])"
  shows "sandboxState (con s') = (if code = 0 then SComplete else SNonzero) \<and>
    lastExitCode (con s') = JNum code \<and> sessionId (con s') = Some (new_session_id now) \<and>
    sockSent (sockets (trm s') ! i) = [stringify (execute_payload (terminal_wasm (con s)) (new_session_id now))] \<and>
    raw_bytes (screen (trm s')) = raw_bytes (screen (trm s)) @ concat outs \<and> wsEffect (trm s') = None \<and>
    (\<forall>v f fs. jfield ''vfs_snapshot'' msg = Some v \<and> snapshot_files v = Some (f # fs) \<longrightarrow>
       inlineVfsSnapshot (con s') = f # fs)"
proof -
  have inv: "sys_inv s" unfolding s by (rule sys_machine.reachable_inv)
  let ?f = "sys_step pg isMac" and ?id = "new_session_id now" and ?w = "terminal_wasm (con s)"
  define s1 where "s1 = ?f s (UI (ClickRun now))"
  define s2 where "s2 = ?f s1 (TE (SockOpened i))"
  define s3 where "s3 = foldl ?f s2 (map (\<lambda>b. TE (SockMessage i (BinaryFrame b))) outs)"
  note r1 = sys_click_run[OF inv idle, of pg isMac now, folded s1_def i]
  have r1': "i < length (sockets (trm s1))" using r1(5) by simp
  note r2 = sys_socket_opened[OF r1' r1(7,9) terminal_wasm_not_Nil, of pg isMac, folded s2_def]
  note r3 = sys_output[OF r2(2), of pg isMac outs, folded s3_def]
  have inv3: "sys_inv s3" unfolding s3_def s2_def s1_def by (intro sys_machine.inv_run sys_inv_step inv)
  have open3: "sock_in (trm s3) i [OPEN]" using r2(2) r3 by (simp add: sock_in_def)
  have trap3: "\<not> hasTrapRef (trm s3)" using fresh r1(12) r2(5) r3 by simp
  have s'': "s' = ?f (?f s3 (TE (SockMessage i (TextFrame t)))) (TE (SockClosed i 1000 reason))"
    by (simp add: s' s3_def s2_def s1_def del: sys_step.simps)
  note r4 = sys_exit_and_close[OF inv3 open3 trap3 frame, of pg isMac reason, folded s'']
  have con: "con s' = console_step isMac (con s1) (end_event (announced msg (vfsSnapshotRef (trm s3))))"
    using r4(1) r3 r2(1) by simp
  have ann: "announced msg v = EndComplete (case jfield ''vfs_snapshot'' msg of Some (JObj fs) \<Rightarrow> Some (JObj fs)
      | Some (JArr vs) \<Rightarrow> Some (JArr vs) | _ \<Rightarrow> v) (JNum code)" for v
    using frame_end by (simp add: announced_def nullish_def)
  have "sandboxState (con s') = (if code = 0 then SComplete else SNonzero)" "lastExitCode (con s') = JNum code"
    "sessionId (con s') = Some ?id"
    using r1(2) by (simp_all add: con ann end_event_def console_step_def onEnd_def vitals_shown_def Let_def
        split: option.split list.split)
  moreover have "inlineVfsSnapshot (con s') = f # fs"
    if "jfield ''vfs_snapshot'' msg = Some v" "snapshot_files v = Some (f # fs)" for v f fs
    using that by (cases v) (simp_all add: con ann end_event_def console_step_def onEnd_def vitals_shown_def Let_def)
  moreover have "sockSent (sockets (trm s') ! i) = [stringify (execute_payload ?w ?id)]"
    using r4(3) r3 r2(4) r1(8,10) by simp
  moreover have "raw_bytes (screen (trm s')) = raw_bytes (screen (trm s)) @ concat outs"
  proof -
    have "bufferRef (trm s) = []" using inv idle by (simp add: sys_inv_def linked_def term_inv_def sock_inv_def)
    moreover have "stream (trm s3) = stream (trm s) @ concat outs" using r3 r2(8) r1(15) by simp
    moreover have "xtermRef (trm s3)" using r3 r2(7) r1(14) xterm by simp
    ultimately show ?thesis using r4(4) by (simp add: stream_screen)
  qed
  ultimately show ?thesis using r4(2) by blast
qed

text \<open>A run up to the ready terminal.\<close>

definition demo_start :: "sys_event list" where
  "demo_start = [TE (XtermLoaded []), TE XtermFirstFit]"

lemma demo_start_state:
  "foldl (sys_step demo_page True) sys_init demo_start
     = \<lparr>con = console_init, trm = foldl (term_step demo_page) terminal_init [XtermLoaded [], XtermFirstFit]\<rparr>"
proof -
  have "sys_step demo_page True s (TE (XtermLoaded [])) = s\<lparr>trm := term_step demo_page (trm s) (XtermLoaded [])\<rparr>" for s
    by (rule sys_step_quiet) (simp_all add: outside_def xterm_loaded_def)
  moreover have "sys_step demo_page True s (TE XtermFirstFit) = s\<lparr>trm := term_step demo_page (trm s) XtermFirstFit\<rparr>" for s
    by (rule sys_step_quiet) (simp_all add: outside_def xterm_first_fit_def split: list.split)
  ultimately show ?thesis by (simp add: demo_start_def sys_init_def del: sys_step.simps term_step.simps)
qed

lemma con_UI: "\<not> internal e \<Longrightarrow> con (sys_step pg isMac s (UI e)) = console_step isMac (con s) e"
  by (simp add: sync_def)

definition demo_exit :: json where
  "demo_exit = JObj [(''type'', JStr ''exit''), (''code'', JNum 0)]"

theorem run_to_completion_witness:
  "sandboxState (con (foldl (sys_step demo_page True) (foldl (sys_step demo_page True) sys_init demo_start)
     ([UI (ClickRun 1), TE (SockOpened 0)] @ map (\<lambda>b. TE (SockMessage 0 (BinaryFrame b))) [''hi'', ''there'']
      @ [TE (SockMessage 0 (TextFrame (stringify demo_exit))), TE (SockClosed 0 1000 [])]))) = SComplete"
proof -
  let ?s = "foldl (sys_step demo_page True) sys_init demo_start"
  let ?t = "foldl (term_step demo_page) terminal_init [XtermLoaded [], XtermFirstFit]"
  have t: "\<not> hasTrapRef ?t" "xtermRef ?t" "0 = length (sockets ?t)" by code_simp+
  have pre: "sandboxState (con ?s) \<noteq> SRunning" "\<not> hasTrapRef (trm ?s)" "xtermRef (trm ?s)" "0 = length (sockets (trm ?s))"
    using t by (simp_all add: demo_start_state console_init_def del: term_step.simps)
  have exit: "json_parse (stringify demo_exit) = Some demo_exit" "jfield ''type'' demo_exit = Some (JStr ''exit'')"
    "jfield ''trap'' demo_exit = None" "jfield ''code'' demo_exit = Some (JNum 0)" by code_simp+
  show ?thesis
    using conjunct1[OF run_to_completion[OF refl pre(1-3) exit pre(4) refl, where now = 1 and outs = "[''hi'', ''there'']" and reason = "[]"]]
    by (simp only: if_True refl)
qed

text \<open>C11: While no session is running, nothing the network, the animation frames or Xterm may deliver can
  change the console: after Stop, Reset or the end of a session, in every reachable state, any sequence
  of terminal events leaves its whole state as it is.\<close>

theorem idle_console_is_stable:
  assumes "s = foldl (sys_step pg isMac) sys_init es" "sandboxState (con s) \<noteq> SRunning"
  shows "con (foldl (sys_step pg isMac) s (map TE es')) = con s"
proof -
  have "sys_inv s" unfolding assms(1) by (rule sys_machine.reachable_inv)
  then show ?thesis using assms(2) by (rule idle_console_quiet_run)
qed

theorem idle_console_is_stable_witness:
  "sandboxState (con (foldl (sys_step demo_page True)
     (foldl (sys_step demo_page True) sys_init (demo_start @ [UI (ClickRun 1), UI ClickStop]))
     (map TE [SockErrored 0, SockClosed 0 1006 []]))) = SIdle"
proof -
  let ?s = "foldl (sys_step demo_page True) sys_init (demo_start @ [UI (ClickRun 1), UI ClickStop])"
  have idle: "sandboxState (con ?s) = SIdle"
    by (simp add: demo_start_state con_UI console_step_def handler_defs console_init_def
        del: sys_step.simps term_step.simps)
  then have "con (foldl (sys_step demo_page True) ?s (map TE [SockErrored 0, SockClosed 0 1006 []])) = con ?s"
    by (intro idle_console_is_stable[OF refl]) (simp only: SandboxState.distinct not_False_eq_True)
  with idle show ?thesis by (simp only:)
qed

text \<open>C6: In every reachable state the two components agree: the terminal has a current socket exactly while
  the console is running, and that socket was opened for the console's session and holds the program the
  console has selected.\<close>

theorem console_and_terminal_agree:
  "case foldl (sys_step pg isMac) sys_init es of s \<Rightarrow>
     (case wsEffect (trm s) of
        None \<Rightarrow> sandboxState (con s) \<noteq> SRunning
      | Some i \<Rightarrow> sandboxState (con s) = SRunning \<and> Suc i = length (sockets (trm s)) \<and>
          sessionId (con s) = Some (sockSession (sockets (trm s) ! i)) \<and>
          sockPayload (sockets (trm s) ! i) = Some (terminal_wasm (con s)))"
proof -
  have "sys_inv (foldl (sys_step pg isMac) sys_init es)" by (rule sys_machine.reachable_inv)
  then show ?thesis
    by (auto simp: sys_inv_def linked_def term_inv_def sock_inv_def split: option.splits if_splits)
qed

text \<open>C38: A session that is started right after another one was stopped can be ended by the old socket: if the
  close event of the stopped socket arrives only after Run was clicked again, the console reports the end
  of a session, and the new socket is closed before it ever opened.\<close>

theorem quick_restart_is_killed:
  assumes s: "s = foldl (sys_step pg isMac) sys_init es" and i: "wsEffect (trm s) = Some i"
    "sockState (sockets (trm s) ! i) \<noteq> CLOSED"
    and s': "s' = foldl (sys_step pg isMac) s [UI ClickStop, UI (ClickRun now), TE (SockClosed i code reason)]"
  shows "sandboxState (con s') \<in> {SComplete, SNonzero, SCrashed} \<and> wsEffect (trm s') = None \<and>
    sockState (sockets (trm s') ! Suc i) = CLOSING"
proof -
  have inv: "sys_inv s" unfolding s by (rule sys_machine.reachable_inv)
  define s1 where "s1 = sys_step pg isMac s (UI ClickStop)"
  define s2 where "s2 = sys_step pg isMac s1 (UI (ClickRun now))"
  note r1 = sys_click_stop[OF inv i, of pg isMac, folded s1_def]
  have inv1: "sys_inv s1" unfolding s1_def by (rule sys_inv_step[OF inv])
  have idle: "sandboxState (con s1) \<noteq> SRunning" using r1(1) by simp
  note r2 = sys_click_run[OF inv1 idle, of pg isMac now, folded s2_def, unfolded r1(2)]
  have inv2: "sys_inv s2" unfolding s2_def by (rule sys_inv_step[OF inv1])
  have "sockets (trm s2) ! i = sockets (trm s1) ! i"
    using r2(5,16) r1(2) by (metis lessI nth_butlast)
  then have "sockState (sockets (trm s2) ! i) = CLOSING" "i < length (sockets (trm s2))"
    using r1(3) r2(5) by simp_all
  then show ?thesis
    using sys_any_close[OF inv2 r2(6), of i pg isMac code reason] r2(7)
    by (simp add: s' s1_def s2_def del: sys_step.simps)
qed

theorem quick_restart_is_killed_witness:
  "sandboxState (con (foldl (sys_step demo_page True)
     (sys_step demo_page True (foldl (sys_step demo_page True) sys_init demo_start) (UI (ClickRun 1)))
     [UI ClickStop, UI (ClickRun 2), TE (SockClosed 0 1000 [])])) \<noteq> SRunning"
proof -
  let ?u = "foldl (sys_step demo_page True) sys_init demo_start"
  let ?s = "sys_step demo_page True ?u (UI (ClickRun 1))"
  have s: "?s = foldl (sys_step demo_page True) sys_init (demo_start @ [UI (ClickRun 1)])" by (simp only: foldl_append foldl.simps)
  have inv: "sys_inv ?u" by (rule sys_machine.reachable_inv)
  have idle: "sandboxState (con ?u) \<noteq> SRunning" and n: "length (sockets (trm ?u)) = 0"
    by (simp_all add: demo_start_state console_init_def terminal_init_def xterm_loaded_def xterm_first_fit_def
        split: list.split)
  note r = sys_click_run[OF inv idle, of demo_page True 1, unfolded n]
  have "sockState (sockets (trm ?s) ! 0) \<noteq> CLOSED" by (simp only: r(7) readyState.distinct not_False_eq_True)
  from conjunct1[OF quick_restart_is_killed[OF s r(6) this refl, of 2 1000 "[]"]] show ?thesis by force
qed

section \<open>From the snapshot to the preview\<close>

text \<open>Selecting a text file of the session's snapshot shows its content without any request: if the
  snapshot holds the base64 form of valid UTF-8 bytes (not starting with a byte order mark), the pane is
  that of the file's extension and its content is exactly those bytes; a WebAssembly file is shown raw.\<close>

theorem snapshot_text_previewed:
  assumes "map_of (inlineVfsSnapshot c) path = Some (btoa bs)" "bs \<noteq> []" "utf8_valid bs" "\<not> starts_with bom bs"
    "\<not> is_image_ext (file_ext path)" "path \<noteq> []"
  shows "\<exists>r. registry_for (console_step isMac c (SelectFile path)) = Some r \<and> requests r = [] \<and>
    ComponentRegistry r = (if detectKind path = KWasm then RawPane bs else pane_for path bs)"
proof -
  have "length (btoa bs) \<noteq> 0" using assms(2) by (cases bs) (simp_all add: length_btoa div_greater_zero_iff)
  then obtain x xs where b: "btoa bs = x # xs" by (cases "btoa bs") auto
  have sel: "inlineFileContent (handleFileSelect path c) = Some bs" "inlineFileB64 (handleFileSelect path c) = None"
    using assms(1,5) atob_btoa[of bs] text_decode_valid[OF assms(3,4)]
    by (simp_all add: handleFileSelect_def Let_def b)
  have k: "detectKind path \<noteq> KImage" using assms(5) by (auto simp: detectKind_def is_image_ext_def Let_def)
  have "requests (reg_mount \<lparr>rpPath = path, rpSession = sessionId c, rpContent = Some bs, rpB64 = None\<rparr>) = []"
    by (simp add: reg_mount_def reg_effect_def needsFetch_def Let_def)
  moreover have "ComponentRegistry (reg_mount \<lparr>rpPath = path, rpSession = sessionId c, rpContent = Some bs, rpB64 = None\<rparr>)
      = (if detectKind path = KWasm then RawPane bs else pane_for path bs)"
    using k by (cases "detectKind path")
      (simp_all add: ComponentRegistry_def pane_for_def reg_mount_def reg_effect_def needsFetch_def Let_def)
  ultimately show ?thesis by (simp add: registry_for_select[OF assms(6)] sel)
qed

theorem snapshot_text_previewed_witness:
  "\<exists>r. registry_for (console_step True (console_init\<lparr>inlineVfsSnapshot := [(''/a.log'', btoa ''hi'')]\<rparr>) (SelectFile ''/a.log''))
     = Some r \<and> requests r = [] \<and> ComponentRegistry r = LogPane ''hi''"
proof -
  let ?c = "console_init\<lparr>inlineVfsSnapshot := [(''/a.log'', btoa ''hi'')]\<rparr>"
  have p: "map_of (inlineVfsSnapshot ?c) ''/a.log'' = Some (btoa ''hi'')" "''hi'' \<noteq> ([] :: string)" "''/a.log'' \<noteq> ([] :: string)"
    by simp_all
  have q: "utf8_valid ''hi''" "\<not> starts_with bom ''hi''" "\<not> is_image_ext (file_ext ''/a.log'')"
    "detectKind ''/a.log'' = KLog" by code_simp+
  from snapshot_text_previewed[OF p(1,2) q(1,2,3) p(3), of True] show ?thesis
    by (simp add: q(4) pane_for_def)
qed

text \<open>The console treats icon and bitmap files as images and passes them as base64, but the registry does
  not: their preview neither starts a request nor ever leaves the loading pane.\<close>

theorem icon_preview_never_loads:
  assumes "map_of (inlineVfsSnapshot c) path = Some (x # xs)" "file_ext path \<in> {''ico'', ''bmp''}" "path \<noteq> []"
  shows "\<exists>r. registry_for (console_step isMac c (SelectFile path)) = Some r \<and> requests r = [] \<and>
    ComponentRegistry r = LoadingPane"
proof -
  have sel: "inlineFileContent (handleFileSelect path c) = None" "inlineFileB64 (handleFileSelect path c) = Some (x # xs)"
    using assms(1,2) by (auto simp: handleFileSelect_def Let_def is_image_ext_def)
  have k: "detectKind path = KRaw" using assms(2) by (auto simp: detectKind_def Let_def)
  show ?thesis
    by (simp add: registry_for_select[OF assms(3)] sel reg_mount_def reg_effect_def needsFetch_def Let_def
        ComponentRegistry_def k)
qed

theorem icon_preview_never_loads_witness:
  "\<exists>r. registry_for (console_step True (console_init\<lparr>inlineVfsSnapshot := [(''/f.ico'', ''AAAB'')]\<rparr>) (SelectFile ''/f.ico''))
     = Some r \<and> requests r = [] \<and> ComponentRegistry r = LoadingPane"
proof -
  let ?c = "console_init\<lparr>inlineVfsSnapshot := [(''/f.ico'', ''AAAB'')]\<rparr>"
  have p: "map_of (inlineVfsSnapshot ?c) ''/f.ico'' = Some (CHR ''A'' # ''AAB'')" by simp
  have "file_ext ''/f.ico'' = ''ico''" by code_simp
  then have "file_ext ''/f.ico'' \<in> {''ico'', ''bmp''}" by simp
  from icon_preview_never_loads[OF p this, of True] show ?thesis by simp
qed

text \<open>C24: The file tree shows the files the session left: in every reachable state of the console with a
  session and a stored snapshot, whatever the tree has loaded or heard from other tabs, the tree is on
  display, and its file rows are exactly the files of the snapshot whose directories are expanded,
  each once, with its estimated size.\<close>

theorem snapshot_reaches_tree:
  assumes "c = foldl (console_step isMac) console_init es" "inlineVfsSnapshot c = f # fs" "sessionId c \<noteq> None"
  shows "\<exists>off rows. VirtualFileTree lc (sessionId c) (Some (inlineVfsEntries c)) t = TreeRows off rows \<and>
    mset (file_rows rows) = image_mset (entry_row (selectedRef t))
      (filter_mset (visible (stExpanded (tstate t))) (mset (map snapshot_entry (f # fs))))"
proof -
  have "console_inv c" unfolding assms(1) by (rule console_machine.reachable_inv)
  then have e: "inlineVfsEntries c = map snapshot_entry (f # fs)" and "\<exists>now. sessionId c = Some (new_session_id now)"
    using assms(2,3) by (auto simp: console_inv_def)
  then obtain now where sid: "sessionId c = Some (new_session_id now)" by blast
  have "VirtualFileTree lc (sessionId c) (Some (inlineVfsEntries c)) t = TreeRows (stOffline (tstate t))
      (TreeNodes 0 (stExpanded (tstate t)) (selectedRef t) (buildTree lc (map snapshot_entry (f # fs))))"
    using buildTree_not_Nil[of "map snapshot_entry (f # fs)" lc]
    by (simp add: VirtualFileTree_def Let_def displayEntries_def e sid)
  then show ?thesis using tree_file_rows by blast
qed

theorem snapshot_reaches_tree_witness:
  "\<exists>off rows. VirtualFileTree byte_compare (Some (new_session_id 7))
     (Some (inlineVfsEntries (foldl (console_step True) console_init
        [ClickRun 7, SessionEnded True (Some [(''/a.txt'', ''aGk='')]) (Some (JNum 0))]))) demo_tree = TreeRows off rows"
proof -
  let ?c = "foldl (console_step True) console_init
    [ClickRun 7, SessionEnded True (Some [(''/a.txt'', ''aGk='')]) (Some (JNum 0))]"
  have "inlineVfsSnapshot ?c = (''/a.txt'', ''aGk='') # []" and sid: "sessionId ?c = Some (new_session_id 7)"
    by (simp_all add: console_step_def handler_defs console_init_def Let_def)
  then have "sessionId ?c \<noteq> None" by simp
  from snapshot_reaches_tree[OF refl \<open>inlineVfsSnapshot ?c = (''/a.txt'', ''aGk='') # []\<close> this, of byte_compare demo_tree]
  show ?thesis unfolding sid by blast
qed

text \<open>A WebAssembly file that is fetched for the preview is never inspected: its content reaches the
  inspector as a placeholder, for which the inspector reports a parse error.\<close>

theorem wasm_preview_is_parse_error:
  assumes "detectKind (rpPath p) = KWasm" "needsFetch p" "rpSession p = Some (c # cs)" "res_ok st"
  shows "ComponentRegistry (reg_response 0 (Response st (Some text)) (reg_mount p)) = WasmPane ''[binary data]'' \<and>
    WasmInspector ''[binary data]'' = Some (WasmParseError ''[binary data]'')"
proof -
  have "rpContent p = None" using assms(2) by (simp add: needsFetch_def)
  then show ?thesis using assms inspector_placeholder
    by (simp add: reg_mount_def reg_effect_def Let_def ComponentRegistry_def reg_response_def)
qed

theorem wasm_preview_is_parse_error_witness:
  "ComponentRegistry (reg_response 0 (Response 200 (Some ''x''))
     (reg_mount \<lparr>rpPath = ''/m.wasm'', rpSession = Some ''s1'', rpContent = None, rpB64 = None\<rparr>)) = WasmPane ''[binary data]''"
proof -
  let ?p = "\<lparr>rpPath = ''/m.wasm'', rpSession = Some ''s1'', rpContent = None, rpB64 = None\<rparr>"
  have k: "detectKind ''/m.wasm'' = KWasm" by code_simp
  then have "detectKind (rpPath ?p) = KWasm" "needsFetch ?p" "rpSession ?p = Some (CHR ''s'' # ''1'')" "res_ok 200"
    by (simp_all add: needsFetch_def res_ok_def)
  from wasm_preview_is_parse_error[OF this, of "''x''"] show ?thesis by blast
qed

end
